(* ===== verification/Prelude.thy ===== *)
theory Prelude
  imports Main "HOL-Library.List_Lexorder" "HOL-Library.Char_ord"
    "HOL-Library.Product_Lexorder" "HOL-Library.AList" "HOL-Library.Multiset"
begin

section \<open>Shared vocabulary of the development\<close>

text \<open>
  What every component of the model uses: outcomes (Go's result/error pairs as a sum), loops
  that stop at the first error, Go maps, and the sorting contract of Go's package sort.

  A Go function that returns \<open>(T, error)\<close> is a HOL function into \<open>'e + 'a\<close>: \<open>Inl e\<close> is the
  early return with the error \<open>e\<close>, \<open>Inr x\<close> the normal return. Every error site of the code
  is a constructor of its component's error datatype.

  A Go map is an association list. Its order is the order in which one execution of
  \<^theory_text>\<open>for k, v := range m\<close> visits the entries, which Go leaves open: a statement that holds
  for every permutation of the list is a statement about every iteration order.
\<close>

named_theorems outcome_simps
  "when an outcome of the sequencing operators is a value or an error"

subsection \<open>Outcomes\<close>

definition bindE :: "'e + 'a \<Rightarrow> ('a \<Rightarrow> 'e + 'b) \<Rightarrow> 'e + 'b" where
  "bindE m f = (case m of Inl e \<Rightarrow> Inl e | Inr x \<Rightarrow> f x)"

definition guardE :: "bool \<Rightarrow> 'e \<Rightarrow> 'e + unit" where
  \<comment> \<open>\<^theory_text>\<open>if bad { return e }\<close>\<close>
  "guardE bad e = (if bad then Inl e else Inr ())"

definition derefE :: "'a option \<Rightarrow> 'e \<Rightarrow> 'e + 'a" where
  \<comment> \<open>\<^theory_text>\<open>if p == nil { return e }\<close>, and \<^theory_text>\<open>*p\<close> afterwards\<close>
  "derefE p e = (case p of None \<Rightarrow> Inl e | Some x \<Rightarrow> Inr x)"

fun foldE :: "('s \<Rightarrow> 'a \<Rightarrow> 'e + 's) \<Rightarrow> 's \<Rightarrow> 'a list \<Rightarrow> 'e + 's" where
  "foldE f s [] = Inr s"
| "foldE f s (x # xs) = bindE (f s x) (\<lambda>s'. foldE f s' xs)"

fun mapE :: "('a \<Rightarrow> 'e + 'b) \<Rightarrow> 'a list \<Rightarrow> 'e + 'b list" where
  "mapE f [] = Inr []"
| "mapE f (x # xs) = bindE (f x) (\<lambda>y. bindE (mapE f xs) (\<lambda>ys. Inr (y # ys)))"

fun forE :: "('a \<Rightarrow> 'e + unit) \<Rightarrow> 'a list \<Rightarrow> 'e + unit" where
  "forE f [] = Inr ()"
| "forE f (x # xs) = bindE (f x) (\<lambda>_. forE f xs)"

lemma bindE_simps [simp]: "bindE (Inl e) f = Inl e" "bindE (Inr x) f = f x"
  by (simp_all add: bindE_def)

lemma bindE_eq_Inr [simp, outcome_simps]: "bindE m f = Inr y \<longleftrightarrow> (\<exists>x. m = Inr x \<and> f x = Inr y)"
  by (cases m) simp_all

lemma bindE_eq_Inl [outcome_simps]:
  "bindE m f = Inl e \<longleftrightarrow> m = Inl e \<or> (\<exists>x. m = Inr x \<and> f x = Inl e)"
  by (cases m) simp_all

lemma bindE_assoc: "bindE (bindE m f) g = bindE m (\<lambda>x. bindE (f x) g)"
  by (cases m) simp_all

lemma guardE_eq_Inr [simp, outcome_simps]: "guardE b e = Inr u \<longleftrightarrow> \<not> b"
  by (simp add: guardE_def)

lemma guardE_eq_Inl [simp, outcome_simps]: "guardE b e = Inl e' \<longleftrightarrow> b \<and> e' = e"
  by (auto simp: guardE_def)

lemma derefE_eq_Inr [simp, outcome_simps]: "derefE p e = Inr x \<longleftrightarrow> p = Some x"
  by (cases p) (simp_all add: derefE_def)

lemma derefE_eq_Inl [simp, outcome_simps]: "derefE p e = Inl e' \<longleftrightarrow> p = None \<and> e' = e"
  by (cases p) (auto simp: derefE_def)

lemma forE_eq_Inr [simp, outcome_simps]: "forE f xs = Inr u \<longleftrightarrow> (\<forall>x\<in>set xs. f x = Inr ())"
  by (induction xs) auto

lemma forE_first_error:
  "forE f xs = Inl e \<longleftrightarrow>
     (\<exists>ys x zs. xs = ys @ x # zs \<and> (\<forall>y\<in>set ys. f y = Inr ()) \<and> f x = Inl e)"
proof (induction xs)
  case (Cons a xs)
  show ?case
  proof (cases "f a")
    case (Inl e')
    have "(\<exists>ys x zs. a # xs = ys @ x # zs \<and> (\<forall>y\<in>set ys. f y = Inr ()) \<and> f x = Inl e) \<longleftrightarrow> e' = e"
    proof
      assume "\<exists>ys x zs. a # xs = ys @ x # zs \<and> (\<forall>y\<in>set ys. f y = Inr ()) \<and> f x = Inl e"
      then obtain ys x zs where *: "a # xs = ys @ x # zs" "\<forall>y\<in>set ys. f y = Inr ()" "f x = Inl e"
        by blast
      with Inl have "ys = []" by (cases ys) auto
      with * Inl show "e' = e" by simp
    next
      assume "e' = e"
      with Inl show "\<exists>ys x zs. a # xs = ys @ x # zs \<and> (\<forall>y\<in>set ys. f y = Inr ()) \<and> f x = Inl e"
        by (intro exI [of _ "[]"]) auto
    qed
    with Inl show ?thesis by auto
  next
    case (Inr u)
    then have "forE f (a # xs) = Inl e \<longleftrightarrow> forE f xs = Inl e" by simp
    also have "\<dots> \<longleftrightarrow> (\<exists>ys x zs. xs = ys @ x # zs \<and> (\<forall>y\<in>set ys. f y = Inr ()) \<and> f x = Inl e)"
      by (rule Cons.IH)
    also have "\<dots> \<longleftrightarrow> (\<exists>ys x zs. a # xs = ys @ x # zs \<and> (\<forall>y\<in>set ys. f y = Inr ()) \<and> f x = Inl e)"
    proof
      assume "\<exists>ys x zs. xs = ys @ x # zs \<and> (\<forall>y\<in>set ys. f y = Inr ()) \<and> f x = Inl e"
      then obtain ys x zs where "xs = ys @ x # zs" "\<forall>y\<in>set ys. f y = Inr ()" "f x = Inl e"
        by blast
      with Inr show "\<exists>ys x zs. a # xs = ys @ x # zs \<and> (\<forall>y\<in>set ys. f y = Inr ()) \<and> f x = Inl e"
        by (intro exI [of _ "a # ys"] exI [of _ x] exI [of _ zs]) simp
    next
      assume "\<exists>ys x zs. a # xs = ys @ x # zs \<and> (\<forall>y\<in>set ys. f y = Inr ()) \<and> f x = Inl e"
      then obtain ys x zs where *: "a # xs = ys @ x # zs" "\<forall>y\<in>set ys. f y = Inr ()" "f x = Inl e"
        by blast
      with Inr obtain ys' where "ys = a # ys'" by (cases ys) auto
      with * show "\<exists>ys x zs. xs = ys @ x # zs \<and> (\<forall>y\<in>set ys. f y = Inr ()) \<and> f x = Inl e"
        by (intro exI [of _ ys'] exI [of _ x] exI [of _ zs]) simp
    qed
    finally show ?thesis .
  qed
qed simp

lemma forE_error_member: "forE f xs = Inl e \<Longrightarrow> \<exists>x\<in>set xs. f x = Inl e"
  by (auto simp: forE_first_error)

lemma mapE_eq_Inr [outcome_simps]: "mapE f xs = Inr ys \<longleftrightarrow> list_all2 (\<lambda>x y. f x = Inr y) xs ys"
  by (induction xs arbitrary: ys) (auto simp: list_all2_Cons1)

lemma mapE_all_Inr: "(\<And>x. x \<in> set xs \<Longrightarrow> f x = Inr (g x)) \<Longrightarrow> mapE f xs = Inr (map g xs)"
  by (induction xs) auto

lemma mapE_cong [fundef_cong]:
  "xs = ys \<Longrightarrow> (\<And>x. x \<in> set ys \<Longrightarrow> f x = g x) \<Longrightarrow> mapE f xs = mapE g ys"
  by (induction ys arbitrary: xs) auto

lemma mapE_error_member: "mapE f xs = Inl e \<Longrightarrow> \<exists>x\<in>set xs. f x = Inl e"
  by (induction xs) (auto simp: bindE_eq_Inl)

lemma foldE_append: "foldE f s (xs @ ys) = bindE (foldE f s xs) (\<lambda>s'. foldE f s' ys)"
  by (induction xs arbitrary: s) (auto simp: bindE_assoc)

lemma foldE_map: "foldE f s (map h xs) = foldE (\<lambda>s x. f s (h x)) s xs"
proof (induction xs arbitrary: s)
  case (Cons x xs)
  then show ?case by (cases "f s (h x)") simp_all
qed simp

text \<open>Two nested loops are one loop over the pairs.\<close>

lemma foldE_nested:
  "foldE (\<lambda>s x. foldE (g x) s (h x)) s xs =
     foldE (\<lambda>s p. g (fst p) s (snd p)) s (concat (map (\<lambda>x. map (Pair x) (h x)) xs))"
proof (induction xs arbitrary: s)
  case (Cons x xs)
  then show ?case by (simp add: foldE_append foldE_map)
qed simp

lemma foldE_invariant:
  assumes "foldE f s xs = Inr s'" and "P s"
    and "\<And>t x t'. x \<in> set xs \<Longrightarrow> P t \<Longrightarrow> f t x = Inr t' \<Longrightarrow> P t'"
  shows "P s'"
  using assms by (induction xs arbitrary: s) auto

lemma foldE_error_member: "foldE f s xs = Inl e \<Longrightarrow> \<exists>x\<in>set xs. \<exists>t. f t x = Inl e"
  by (induction xs arbitrary: s) (auto simp: bindE_eq_Inl)

lemma foldE_cong [fundef_cong]:
  "s = t \<Longrightarrow> xs = ys \<Longrightarrow> (\<And>u x. x \<in> set ys \<Longrightarrow> f u x = g u x) \<Longrightarrow> foldE f s xs = foldE g t ys"
proof (induction ys arbitrary: s t xs)
  case (Cons a ys)
  then show ?case by (cases "g t a") auto
qed simp

lemma mapE_error_iff:
  "(\<And>x e. f x = Inl e \<Longrightarrow> e = e0) \<Longrightarrow> mapE f xs = Inl e \<longleftrightarrow> e = e0 \<and> (\<exists>x\<in>set xs. f x = Inl e0)"
proof (induction xs)
  case (Cons x xs)
  then show ?case by (cases "f x") (auto simp: bindE_eq_Inl)
qed simp

lemma mapE_iff_map:
  assumes "\<And>x y. x \<in> set xs \<Longrightarrow> f x = Inr y \<longleftrightarrow> P x \<and> y = g x"
  shows "mapE f xs = Inr ys \<longleftrightarrow> (\<forall>x\<in>set xs. P x) \<and> ys = map g xs"
  using assms by (induction xs arbitrary: ys) auto

lemma map_over_enumerate: "map (\<lambda>p. g (snd p)) (enumerate n xs) = map g xs"
  by (simp flip: map_map [unfolded comp_def])

lemma ball_enumerate: "(\<forall>p\<in>set (enumerate n xs). P (snd p)) \<longleftrightarrow> (\<forall>x\<in>set xs. P x)"
  by (induction xs arbitrary: n) simp_all

subsection \<open>Go maps\<close>

type_synonym 'v gomap = "(string \<times> 'v) list"

text \<open>The interface of a map that the components rely on, whatever order it is walked in.\<close>

locale go_map =
  fixes nothing :: 'm
    and get :: "'m \<Rightarrow> 'k \<Rightarrow> 'v option"
    and put :: "'k \<Rightarrow> 'v \<Rightarrow> 'm \<Rightarrow> 'm"
    and keys :: "'m \<Rightarrow> 'k list"
    and ok :: "'m \<Rightarrow> bool"
  assumes ok_nothing: "ok nothing"
    and ok_put: "ok m \<Longrightarrow> ok (put k v m)"
    and get_nothing: "get nothing k = None"
    and get_put: "ok m \<Longrightarrow> get (put k v m) j = (if j = k then Some v else get m j)"
    and set_keys: "ok m \<Longrightarrow> set (keys m) = {k. get m k \<noteq> None}"
    and distinct_keys: "ok m \<Longrightarrow> distinct (keys m)"
begin

lemma ok_fold_put: "ok m \<Longrightarrow> ok (fold (\<lambda>x. put (kf x) (vf x)) xs m)"
  by (induction xs arbitrary: m) (simp_all add: ok_put)

text \<open>\<^theory_text>\<open>for _, x := range xs { m[kf(x)] = vf(x) }\<close>: the last entry of a key wins.\<close>

lemma get_fold_put:
  "ok m \<Longrightarrow> get (fold (\<lambda>x. put (kf x) (vf x)) xs m) k =
     (case map_of (rev (map (\<lambda>x. (kf x, vf x)) xs)) k of None \<Rightarrow> get m k | Some v \<Rightarrow> Some v)"
proof (induction xs arbitrary: m)
  case (Cons x xs)
  then have "get (fold (\<lambda>x. put (kf x) (vf x)) (x # xs) m) k =
      (case map_of (rev (map (\<lambda>x. (kf x, vf x)) xs)) k of
         None \<Rightarrow> get (put (kf x) (vf x) m) k | Some v \<Rightarrow> Some v)"
    by (simp add: ok_put)
  with Cons.prems show ?case
    by (auto simp: get_put map_add_def split: option.split)
qed simp

lemma keys_fold_put:
  "ok m \<Longrightarrow> set (keys (fold (\<lambda>x. put (kf x) (vf x)) xs m)) = set (keys m) \<union> kf ` set xs"
proof (induction xs arbitrary: m)
  case (Cons x xs)
  then have "set (keys (fold (\<lambda>x. put (kf x) (vf x)) (x # xs) m)) =
      set (keys (put (kf x) (vf x) m)) \<union> kf ` set xs"
    by (simp add: ok_put)
  also have "set (keys (put (kf x) (vf x) m)) = insert (kf x) (set (keys m))"
    using Cons.prems by (auto simp: set_keys ok_put get_put)
  finally show ?case by auto
qed simp

text \<open>
  The recurring checked-index loop: look the key up, fail on a duplicate, insert. It succeeds
  exactly when the keys are fresh and pairwise different.
\<close>

lemma checked_index:
  assumes step: "\<And>m x m'. ok m \<Longrightarrow>
      step m x = Inr m' \<longleftrightarrow> (\<exists>k v. kv x = Some (k, v) \<and> get m k = None \<and> m' = put k v m)"
    and "ok m"
  shows "foldE step m xs = Inr m' \<longleftrightarrow>
      (\<exists>kvs. map kv xs = map Some kvs \<and> distinct (map fst kvs) \<and>
        (\<forall>k\<in>fst ` set kvs. get m k = None) \<and> m' = fold (\<lambda>p. put (fst p) (snd p)) kvs m)"
  using \<open>ok m\<close>
proof (induction xs arbitrary: m)
  case (Cons x xs)
  have IH: "foldE step (put k v m) xs = Inr m' \<longleftrightarrow>
      (\<exists>kvs. map kv xs = map Some kvs \<and> distinct (map fst kvs) \<and>
        (\<forall>j\<in>fst ` set kvs. j \<noteq> k \<and> get m j = None) \<and>
        m' = fold (\<lambda>p. put (fst p) (snd p)) kvs (put k v m))" for k v
    using Cons.prems by (subst Cons.IH) (auto simp: ok_put get_put)
  have "foldE step m (x # xs) = Inr m' \<longleftrightarrow>
      (\<exists>k v. kv x = Some (k, v) \<and> get m k = None \<and> foldE step (put k v m) xs = Inr m')"
    using step [OF Cons.prems] by auto
  also have "\<dots> \<longleftrightarrow> (\<exists>kvs. map kv (x # xs) = map Some kvs \<and> distinct (map fst kvs) \<and>
        (\<forall>j\<in>fst ` set kvs. get m j = None) \<and> m' = fold (\<lambda>p. put (fst p) (snd p)) kvs m)"
    (is "?L \<longleftrightarrow> ?R")
  proof
    assume ?L
    then obtain k v kvs where "kv x = Some (k, v)" "get m k = None"
      "map kv xs = map Some kvs" "distinct (map fst kvs)"
      "\<forall>j\<in>fst ` set kvs. j \<noteq> k \<and> get m j = None"
      "m' = fold (\<lambda>p. put (fst p) (snd p)) kvs (put k v m)"
      unfolding IH by blast
    then show ?R by (intro exI [of _ "(k, v) # kvs"]) (auto simp: image_iff)
  next
    assume ?R
    then obtain kvs where kvs: "map kv (x # xs) = map Some kvs" "distinct (map fst kvs)"
      "\<forall>j\<in>fst ` set kvs. get m j = None" "m' = fold (\<lambda>p. put (fst p) (snd p)) kvs m"
      by blast
    from kvs(1) obtain p ps where ps: "kvs = p # ps" "kv x = Some p" "map kv xs = map Some ps"
      by auto
    with kvs have "get m (fst p) = None \<and> (\<forall>j\<in>fst ` set ps. j \<noteq> fst p \<and> get m j = None)"
      using ps(1) by (force simp: image_iff)
    with kvs ps show ?L unfolding IH
      by (intro exI [of _ "fst p"] exI [of _ "snd p"] exI [of _ ps] conjI) auto
  qed
  finally show ?case .
qed auto

end

text \<open>Association lists with distinct keys provide it.\<close>

interpretation gm: go_map "[]" map_of AList.update "map fst" "\<lambda>m. distinct (map fst m)"
proof unfold_locales
  fix m :: "('k \<times> 'v) list" and k v
  assume "distinct (map fst m)"
  then show "distinct (map fst (AList.update k v m))" by (rule distinct_update)
  show "map_of (AList.update k v m) j = (if j = k then Some v else map_of m j)" for j
    by (simp add: update_conv')
next
  fix m :: "('k \<times> 'v) list"
  show "set (map fst m) = {k. map_of m k \<noteq> None}"
    by (auto simp: map_of_eq_None_iff)
qed simp_all

lemma update_fresh: "k \<notin> fst ` set m \<Longrightarrow> AList.update k v m = m @ [(k, v)]"
  by (induction m) auto

text \<open>Inserting entries with fresh, distinct keys lists them in insertion order.\<close>

lemma fold_update_fresh:
  "distinct (map fst kvs) \<Longrightarrow> fst ` set kvs \<inter> fst ` set m = {} \<Longrightarrow>
     fold (\<lambda>p. AList.update (fst p) (snd p)) kvs m = m @ kvs"
proof (induction kvs arbitrary: m)
  case (Cons p kvs)
  then have "AList.update (fst p) (snd p) m = m @ [p]" by (simp add: update_fresh)
  moreover have "fst ` set kvs \<inter> fst ` set (m @ [p]) = {}" using Cons.prems by auto
  ultimately show ?case using Cons.IH [of "m @ [p]"] Cons.prems by simp
qed simp

text \<open>
  The checked-index loop over association lists from the empty map, in the closed form the
  components use: the result is the list of entries itself.
\<close>

lemma checked_index_alist:
  assumes "\<And>m x m'. step m x = Inr m' \<longleftrightarrow>
      (\<exists>k v. kv x = Some (k, v) \<and> map_of m k = None \<and> m' = AList.update k v m)"
  shows "foldE step [] xs = Inr m' \<longleftrightarrow> map kv xs = map Some m' \<and> distinct (map fst m')"
proof -
  have "foldE step [] xs = Inr m' \<longleftrightarrow>
      (\<exists>kvs. map kv xs = map Some kvs \<and> distinct (map fst kvs) \<and>
        m' = fold (\<lambda>p. AList.update (fst p) (snd p)) kvs [])"
    by (subst gm.checked_index [where kv = kv]) (auto simp: assms)
  also have "\<dots> \<longleftrightarrow> map kv xs = map Some m' \<and> distinct (map fst m')"
    by (auto simp: fold_update_fresh)
  finally show ?thesis .
qed

text \<open>
  \<^theory_text>\<open>m[k]\<close> for a map of pointers: nil when the key is absent or its value is nil.
\<close>

definition gm_ptr :: "'v option gomap \<Rightarrow> string \<Rightarrow> 'v option" where
  "gm_ptr m k = (case map_of m k of None \<Rightarrow> None | Some p \<Rightarrow> p)"

lemma gm_ptr_eq_Some: "gm_ptr m k = Some v \<longleftrightarrow> map_of m k = Some (Some v)"
  by (auto simp: gm_ptr_def split: option.split)

lemma map_of_mset_cong:
  "distinct (map fst m) \<Longrightarrow> mset m = mset m' \<Longrightarrow> map_of m = map_of m'"
  by (metis map_of_inject_set mset_map mset_eq_imp_distinct_iff set_mset_mset)


subsection \<open>Sorting\<close>

text \<open>
  What the components may assume of \<^theory_text>\<open>sort.Slice\<close> and \<^theory_text>\<open>sort.Strings\<close>: the result is
  a permutation in ascending key order. Neither is stable, so nothing is said of equal keys;
  where the keys are pairwise different the result is determined by the contents alone.
\<close>

locale slice_sort =
  fixes srt :: "'a list \<Rightarrow> 'a list"
    and key :: "'a \<Rightarrow> 'k::linorder"
  assumes mset_srt: "mset (srt xs) = mset xs"
    and sorted_srt: "sorted (map key (srt xs))"
begin

lemma set_srt: "set (srt xs) = set xs"
  by (metis mset_srt set_mset_mset)

lemma length_srt: "length (srt xs) = length xs"
  by (metis mset_srt size_mset)

lemma distinct_map_srt: "distinct (map f (srt xs)) \<longleftrightarrow> distinct (map f xs)"
  by (metis mset_eq_imp_distinct_iff mset_map mset_srt)

lemma srt_unique:
  assumes "mset xs = mset ys" and "distinct (map key xs)" and "sorted (map key ys)"
  shows "srt xs = ys"
proof -
  from assms have "inj_on key (set xs)" by (simp add: distinct_map)
  with assms have "sort_key key xs = ys"
    by (intro sort_key_inj_key_eq)
  moreover have "sort_key key xs = srt xs"
    using assms(2) by (intro sort_key_inj_key_eq) (simp_all add: mset_srt sorted_srt distinct_map)
  ultimately show ?thesis by simp
qed

text \<open>Sorting by pairwise different keys forgets the order of its input.\<close>

lemma srt_cong: "mset xs = mset ys \<Longrightarrow> distinct (map key xs) \<Longrightarrow> srt xs = srt ys"
  by (rule srt_unique) (simp_all add: mset_srt sorted_srt)

end

interpretation sk: slice_sort "sort_key f" f for f
  by unfold_locales simp_all

text \<open>\<^theory_text>\<open>sortedKeys\<close>, the deterministic way to walk a Go map.\<close>

definition sortedKeys :: "'v gomap \<Rightarrow> string list" where
  "sortedKeys m = sort (map fst m)"

lemma set_sortedKeys [simp]: "set (sortedKeys m) = fst ` set m"
  by (simp add: sortedKeys_def)

lemma distinct_sortedKeys [simp]: "distinct (sortedKeys m) \<longleftrightarrow> distinct (map fst m)"
  by (simp add: sortedKeys_def)

lemma sortedKeys_cong: "mset m = mset m' \<Longrightarrow> sortedKeys m = sortedKeys m'"
  by (simp add: sortedKeys_def) (metis mset_map sorted_list_of_multiset_mset)

lemma gm_ptr_sortedKeys:
  "distinct (map fst m) \<Longrightarrow> (\<forall>k\<in>set (sortedKeys m). P k (gm_ptr m k)) \<longleftrightarrow> (\<forall>(k, p)\<in>set m. P k p)"
  by (fastforce simp: gm_ptr_def)

end
