(* ===== verification/Go_Strings.thy ===== *)
theory Go_Strings
  imports Prelude "HOL-Library.Sublist"
begin

section \<open>Go strings\<close>

text \<open>
  The functions of Go's package strings that the code calls, on byte strings (a Go string is a
  sequence of bytes, and \<open>char\<close> is a byte). \<open>ToUpper\<close> and \<open>ToLower\<close> map the ASCII letters,
  which is all of their behaviour on ASCII strings; every identifier of a validated topology is
  ASCII (its token grammar admits nothing else).
\<close>

definition HasPrefix :: "string \<Rightarrow> string \<Rightarrow> bool" where
  "HasPrefix s p \<longleftrightarrow> length p \<le> length s \<and> take (length p) s = p"

definition HasSuffix :: "string \<Rightarrow> string \<Rightarrow> bool" where
  "HasSuffix s t \<longleftrightarrow> length t \<le> length s \<and> drop (length s - length t) s = t"

definition CutSuffix :: "string \<Rightarrow> string \<Rightarrow> string option" where
  "CutSuffix s t = (if HasSuffix s t then Some (take (length s - length t) s) else None)"

fun split_char :: "char \<Rightarrow> string \<Rightarrow> string list" where
  \<comment> \<open>\<^theory_text>\<open>strings.Split\<close> for a separator of one byte\<close>
  "split_char c [] = [[]]"
| "split_char c (x # xs) =
     (if x = c then [] # split_char c xs
      else case split_char c xs of [] \<Rightarrow> [[x]] | t # ts \<Rightarrow> (x # t) # ts)"

fun join :: "string \<Rightarrow> string list \<Rightarrow> string" where
  \<comment> \<open>\<^theory_text>\<open>strings.Join\<close>, separator first\<close>
  "join sep [] = []"
| "join sep [x] = x"
| "join sep (x # y # ys) = x @ sep @ join sep (y # ys)"

definition ReplaceByte :: "char \<Rightarrow> char \<Rightarrow> string \<Rightarrow> string" where
  \<comment> \<open>\<^theory_text>\<open>strings.ReplaceAll\<close> of one byte by one byte\<close>
  "ReplaceByte a b s = map (\<lambda>c. if c = a then b else c) s"

definition upper_byte :: "char \<Rightarrow> char" where
  "upper_byte c = (if CHR ''a'' \<le> c \<and> c \<le> CHR ''z'' then char_of (of_char c - (32::nat)) else c)"

definition lower_byte :: "char \<Rightarrow> char" where
  "lower_byte c = (if CHR ''A'' \<le> c \<and> c \<le> CHR ''Z'' then char_of (of_char c + (32::nat)) else c)"

definition ToUpper :: "string \<Rightarrow> string" where
  "ToUpper s = map upper_byte s"

definition ToLower :: "string \<Rightarrow> string" where
  "ToLower s = map lower_byte s"

definition newline :: char where "newline = CHR 0x0A"

definition white_space :: "char \<Rightarrow> bool" where
  "white_space c \<longleftrightarrow> c \<in> set [CHR '' '', CHR 0x09, CHR 0x0A, CHR 0x0B, CHR 0x0C, CHR 0x0D]"

definition TrimSpace :: "string \<Rightarrow> string" where
  \<comment> \<open>\<^theory_text>\<open>strings.TrimSpace\<close>, for the ASCII white space\<close>
  "TrimSpace s = rev (dropWhile white_space (rev (dropWhile white_space s)))"

subsection \<open>Prefixes and suffixes\<close>

lemma HasPrefix_iff: "HasPrefix s p \<longleftrightarrow> (\<exists>r. s = p @ r)"
  unfolding HasPrefix_def by (metis append_eq_conv_conj append_take_drop_id le_add1 length_append)

lemma HasSuffix_iff: "HasSuffix s t \<longleftrightarrow> (\<exists>b. s = b @ t)"
  unfolding HasSuffix_def by (metis append_take_drop_id append_eq_conv_conj diff_add_inverse2
      le_add2 length_append)

lemma CutSuffix_eq_Some: "CutSuffix s t = Some b \<longleftrightarrow> s = b @ t"
  unfolding CutSuffix_def HasSuffix_def
  by (auto simp: append_eq_conv_conj) (metis append_take_drop_id)

lemma CutSuffix_eq_None: "CutSuffix s t = None \<longleftrightarrow> \<not> HasSuffix s t"
  by (simp add: CutSuffix_def)

lemma HasPrefix_append [simp]: "HasPrefix (p @ r) p"
  by (auto simp: HasPrefix_iff)

lemma HasPrefix_appendD: "HasPrefix s (p @ q) \<Longrightarrow> HasPrefix s p"
  by (auto simp: HasPrefix_iff)

subsection \<open>Splitting and joining\<close>

lemma split_char_not_Nil [simp]: "split_char c s \<noteq> []"
  by (induction s) (auto split: list.splits)

lemma split_char_append: "split_char c (a @ c # b) = split_char c a @ split_char c b"
proof (induction a)
  case (Cons x a)
  then show ?case by (cases "split_char c a") auto
qed simp

lemma split_char_no_sep: "c \<notin> set s \<Longrightarrow> split_char c s = [s]"
  by (induction s) auto

lemma split_char_pieces: "t \<in> set (split_char c s) \<Longrightarrow> c \<notin> set t"
  by (induction s arbitrary: t) (auto split: if_splits list.splits)

lemma split_char_subset: "t \<in> set (split_char c s) \<Longrightarrow> set t \<subseteq> set s"
  by (induction s arbitrary: t) (fastforce split: if_splits list.splits)+

lemma set_subset_pieces: "set s \<subseteq> insert c (\<Union> (set ` set (split_char c s)))"
proof (induction s)
  case (Cons x s)
  then show ?case by (cases "split_char c s") auto
qed simp

lemma join_Cons: "ts \<noteq> [] \<Longrightarrow> join sep (t # ts) = t @ sep @ join sep ts"
  by (cases ts) auto

lemma join_append: "ss \<noteq> [] \<Longrightarrow> ts \<noteq> [] \<Longrightarrow> join sep (ss @ ts) = join sep ss @ sep @ join sep ts"
proof (induction ss)
  case (Cons s ss)
  then show ?case by (cases "ss = []") (simp_all add: join_Cons)
qed simp

lemma join_split [simp]: "join [c] (split_char c s) = s"
proof (induction s)
  case (Cons x s)
  obtain t ts where "split_char c s = t # ts" by (cases "split_char c s") auto
  with Cons show ?case by (cases ts) auto
qed simp

lemma split_char_inj: "split_char c s = split_char c t \<Longrightarrow> s = t"
  by (metis join_split)

lemma split_join:
  "ts \<noteq> [] \<Longrightarrow> \<forall>t\<in>set ts. c \<notin> set t \<Longrightarrow> split_char c (join [c] ts) = ts"
proof (induction ts)
  case (Cons t ts)
  show ?case
  proof (cases "ts = []")
    case True
    with Cons.prems show ?thesis by (simp add: split_char_no_sep)
  next
    case False
    then have "join [c] (t # ts) = t @ c # join [c] ts" by (simp add: join_Cons)
    with False Cons show ?thesis by (simp add: split_char_append split_char_no_sep)
  qed
qed simp

subsection \<open>Letter case\<close>

lemma upper_byte_code:
  "of_char (upper_byte c) = (let n = of_char c in if 97 \<le> n \<and> n \<le> 122 then n - 32 else n :: nat)"
  by (auto simp: upper_byte_def Let_def less_eq_char_def)

lemma lower_byte_code:
  "of_char (lower_byte c) = (let n = of_char c in if 65 \<le> n \<and> n \<le> 90 then n + 32 else n :: nat)"
  by (auto simp: lower_byte_def Let_def less_eq_char_def)

lemma length_ToUpper [simp]: "length (ToUpper s) = length s"
  by (simp add: ToUpper_def)

end
