(* ===== verification/File_System.thy ===== *)
theory File_System
  imports Go_Strings "HOL-Library.Word"
begin

section \<open>Files and the operations of package os\<close>

text \<open>
  The part of Go's packages os and path/filepath that the code uses, on a tree of directories and
  regular files with permission bits. A path is the list of its components. An operation may fail
  for a reason the model does not decide (a full disk, a permission, a signal): \<open>w_fault\<close> says
  which of the operations of a run, counted by \<open>w_tick\<close>, fail in this way, and a failing write
  leaves the first \<open>w_short\<close> bytes. \<open>w_seen\<close> lists every state of the tree the run has passed
  through, the latest first: what a concurrent reader can observe, and what a crash can leave.
  A theorem over all worlds therefore covers every pattern of failures and every crash point.
\<close>

unbundle bit_operations_syntax

type_synonym mode = "32 word"

type_synonym path = "string list"

datatype node = Dir mode | Reg mode string

type_synonym fs = "(path \<times> node) list"

datatype os_error = ErrNotExist | ErrExist | ErrIsDir | ErrNotDir | ErrNotEmpty | ErrIO

record world =
  w_fs :: fs
  w_seen :: "fs list"
  w_tick :: nat
  w_fault :: "nat \<Rightarrow> bool"
  w_short :: "nat \<Rightarrow> nat"
  w_rand :: "nat \<Rightarrow> string"
  w_umask :: mode
  w_clock :: "nat \<Rightarrow> int" \<comment> \<open>nanoseconds since the epoch\<close>

subsection \<open>Paths\<close>

fun join_step :: "path \<Rightarrow> string \<Rightarrow> path" where
  "join_step p c = (if c = [] \<or> c = ''.'' then p else if c = ''..'' then butlast p else p @ [c])"

definition Join :: "path \<Rightarrow> string \<Rightarrow> path" where
  \<comment> \<open>\<^theory_text>\<open>filepath.Join(dir, name)\<close> for a rooted, clean \<^theory_text>\<open>dir\<close>\<close>
  "Join dir name = foldl join_step dir (split_char CHR ''/'' name)"

definition plain_component :: "string \<Rightarrow> bool" where
  "plain_component c \<longleftrightarrow> c \<noteq> [] \<and> c \<noteq> ''.'' \<and> c \<noteq> ''..''"

definition plain_name :: "string \<Rightarrow> bool" where
  "plain_name name \<longleftrightarrow> list_all plain_component (split_char CHR ''/'' name)"

lemma Join_plain: "plain_name name \<Longrightarrow> Join dir name = dir @ split_char CHR ''/'' name"
proof -
  have "foldl join_step dir cs = dir @ cs" if "list_all plain_component cs" for cs
    using that by (induction cs arbitrary: dir) (auto simp: plain_component_def)
  then show "plain_name name \<Longrightarrow> ?thesis" by (simp add: Join_def plain_name_def)
qed

lemma Join_plain_inj:
  "plain_name a \<Longrightarrow> plain_name b \<Longrightarrow> Join dir a = Join dir b \<longleftrightarrow> a = b"
  by (auto simp: Join_plain dest: split_char_inj)

lemma Join_plain_nonempty: "plain_name name \<Longrightarrow> Join dir name \<noteq> []"
  by (simp add: Join_plain)

subsection \<open>The tree\<close>

definition lookup :: "fs \<Rightarrow> path \<Rightarrow> node option" where
  "lookup s p = (if p = [] then Some (Dir 0x1ED) else map_of s p)"

definition is_dir :: "fs \<Rightarrow> path \<Rightarrow> bool" where
  "is_dir s p = (case lookup s p of Some (Dir m) \<Rightarrow> True | _ \<Rightarrow> False)"

definition is_reg :: "fs \<Rightarrow> path \<Rightarrow> bool" where
  "is_reg s p = (case lookup s p of Some (Reg m c) \<Rightarrow> True | _ \<Rightarrow> False)"

definition set_node :: "path \<Rightarrow> node \<Rightarrow> fs \<Rightarrow> fs" where
  "set_node p n s = AList.update p n s"

definition del_node :: "path \<Rightarrow> fs \<Rightarrow> fs" where
  "del_node p s = filter (\<lambda>e. fst e \<noteq> p) s"

definition missing_error :: "fs \<Rightarrow> path \<Rightarrow> os_error" where
  \<comment> \<open>ENOTDIR when a component on the way is a file, ENOENT otherwise\<close>
  "missing_error s p = (if list_ex (\<lambda>k. is_reg s (take k p)) [0..<length p] then ErrNotDir else ErrNotExist)"

definition op_read :: "path \<Rightarrow> fs \<Rightarrow> os_error + string" where
  "op_read p s =
     (case lookup s p of
        None \<Rightarrow> Inl (missing_error s p)
      | Some (Dir m) \<Rightarrow> Inl ErrIsDir
      | Some (Reg m c) \<Rightarrow> Inr c)"

definition op_stat :: "path \<Rightarrow> fs \<Rightarrow> os_error + mode" where
  "op_stat p s =
     (case lookup s p of
        None \<Rightarrow> Inl (missing_error s p) | Some (Dir m) \<Rightarrow> Inr m | Some (Reg m c) \<Rightarrow> Inr m)"

definition op_create :: "path \<Rightarrow> node \<Rightarrow> fs \<Rightarrow> os_error + fs" where
  \<comment> \<open>exclusive creation of a file or directory\<close>
  "op_create p n s =
     (if lookup s p \<noteq> None then Inl ErrExist
      else if \<not> is_dir s (butlast p) then Inl (missing_error s p)
      else Inr (set_node p n s))"

definition op_open_trunc :: "path \<Rightarrow> mode \<Rightarrow> fs \<Rightarrow> os_error + fs" where
  \<comment> \<open>\<^theory_text>\<open>O_WRONLY|O_CREATE|O_TRUNC\<close>: an existing file keeps its mode\<close>
  "op_open_trunc p m s =
     (case lookup s p of
        None \<Rightarrow> op_create p (Reg m []) s
      | Some (Dir _) \<Rightarrow> Inl ErrIsDir
      | Some (Reg m' _) \<Rightarrow> Inr (set_node p (Reg m' []) s))"

definition op_write :: "path \<Rightarrow> string \<Rightarrow> fs \<Rightarrow> os_error + fs" where
  \<comment> \<open>writing to a file just created or truncated\<close>
  "op_write p data s =
     (case lookup s p of
        Some (Reg m c) \<Rightarrow> Inr (set_node p (Reg m data) s)
      | _ \<Rightarrow> Inl ErrNotExist)"

definition op_open_append :: "path \<Rightarrow> mode \<Rightarrow> fs \<Rightarrow> os_error + fs" where
  \<comment> \<open>\<^theory_text>\<open>O_APPEND|O_CREATE|O_WRONLY\<close>\<close>
  "op_open_append p m s =
     (case lookup s p of
        None \<Rightarrow> op_create p (Reg m []) s
      | Some (Dir _) \<Rightarrow> Inl ErrIsDir
      | Some (Reg _ _) \<Rightarrow> Inr s)"

definition op_append :: "path \<Rightarrow> string \<Rightarrow> fs \<Rightarrow> os_error + fs" where
  "op_append p data s =
     (case lookup s p of
        Some (Reg m c) \<Rightarrow> Inr (set_node p (Reg m (c @ data)) s)
      | _ \<Rightarrow> Inl ErrNotExist)"

definition op_chmod :: "path \<Rightarrow> mode \<Rightarrow> fs \<Rightarrow> os_error + fs" where
  "op_chmod p m s =
     (case lookup s p of
        Some (Reg _ c) \<Rightarrow> Inr (set_node p (Reg m c) s)
      | _ \<Rightarrow> Inl ErrNotExist)"

definition op_rename :: "path \<Rightarrow> path \<Rightarrow> fs \<Rightarrow> os_error + fs" where
  \<comment> \<open>of a file, replacing a file at the target\<close>
  "op_rename p q s =
     (case lookup s p of
        Some (Reg m c) \<Rightarrow>
          if is_dir s q then Inl ErrExist
          else if \<not> is_dir s (butlast q) then Inl (missing_error s q)
          else Inr (set_node q (Reg m c) (del_node p s))
      | _ \<Rightarrow> Inl ErrNotExist)"

definition has_child :: "fs \<Rightarrow> path \<Rightarrow> bool" where
  "has_child s p \<longleftrightarrow> list_ex (\<lambda>e. fst e \<noteq> [] \<and> butlast (fst e) = p) s"

definition op_remove :: "path \<Rightarrow> fs \<Rightarrow> os_error + fs" where
  \<comment> \<open>of a file or an empty directory\<close>
  "op_remove p s =
     (if p = [] then Inl ErrIO
      else case lookup s p of
        None \<Rightarrow> Inl (missing_error s p)
      | Some (Dir m) \<Rightarrow> if has_child s p then Inl ErrNotEmpty else Inr (del_node p s)
      | Some (Reg m c) \<Rightarrow> Inr (del_node p s))"

lemma lookup_set_node [simp]: "p \<noteq> [] \<Longrightarrow> lookup (set_node p n s) q = (if q = p then Some n else lookup s q)"
  by (simp add: lookup_def set_node_def update_conv')

lemma lookup_del_node [simp]: "p \<noteq> [] \<Longrightarrow> lookup (del_node p s) q = (if q = p then None else lookup s q)"
proof -
  have "map_of (filter (\<lambda>e. fst e \<noteq> p) s) q = (if q = p then None else map_of s q)"
    by (induction s) auto
  then show "p \<noteq> [] \<Longrightarrow> ?thesis" by (auto simp: lookup_def del_node_def)
qed

subsection \<open>Runs\<close>

type_synonym ('e, 'a) io = "world \<Rightarrow> ('e + 'a) \<times> world"

definition returnIO :: "'a \<Rightarrow> ('e, 'a) io" where
  "returnIO x w = (Inr x, w)"

definition throwIO :: "'e \<Rightarrow> ('e, 'a) io" where
  "throwIO e w = (Inl e, w)"

definition bindIO :: "('e, 'a) io \<Rightarrow> ('a \<Rightarrow> ('e, 'b) io) \<Rightarrow> ('e, 'b) io" where
  "bindIO f g w = (case f w of (Inl e, w') \<Rightarrow> (Inl e, w') | (Inr x, w') \<Rightarrow> g x w')"

definition wrapIO :: "('e \<Rightarrow> 'd) \<Rightarrow> ('e, 'a) io \<Rightarrow> ('d, 'a) io" where
  \<comment> \<open>\<^theory_text>\<open>fmt.Errorf("...: %w", err)\<close>\<close>
  "wrapIO h f w = (case f w of (Inl e, w') \<Rightarrow> (Inl (h e), w') | (Inr x, w') \<Rightarrow> (Inr x, w'))"

definition tryIO :: "('e, 'a) io \<Rightarrow> ('d, 'e + 'a) io" where
  \<comment> \<open>the pair of result and error as a value, for code that inspects the error\<close>
  "tryIO f w = (case f w of (r, w') \<Rightarrow> (Inr r, w'))"

definition onErrorIO :: "('d, 'b) io \<Rightarrow> ('e, 'a) io \<Rightarrow> ('e, 'a) io" where
  \<comment> \<open>\<^theory_text>\<open>defer func() { if err != nil { cleanup } }()\<close>\<close>
  "onErrorIO cleanup f w = (case f w of (Inl e, w') \<Rightarrow> (Inl e, snd (cleanup w')) | (Inr x, w') \<Rightarrow> (Inr x, w'))"

fun forIO :: "('a \<Rightarrow> ('e, unit) io) \<Rightarrow> 'a list \<Rightarrow> ('e, unit) io" where
  "forIO f [] = returnIO ()"
| "forIO f (x # xs) = bindIO (f x) (\<lambda>_. forIO f xs)"

definition tick :: "world \<Rightarrow> world" where
  "tick w = w\<lparr>w_tick := Suc (w_tick w)\<rparr>"

definition commit :: "fs \<Rightarrow> world \<Rightarrow> world" where
  "commit s w = w\<lparr>w_fs := s, w_seen := s # w_seen w\<rparr>"

definition prim :: "(fs \<Rightarrow> os_error + fs) \<Rightarrow> (os_error, unit) io" where
  "prim op w =
     (if w_fault w (w_tick w) then (Inl ErrIO, tick w)
      else case op (w_fs w) of
        Inl e \<Rightarrow> (Inl e, tick w)
      | Inr s \<Rightarrow> (Inr (), commit s (tick w)))"

definition query :: "(fs \<Rightarrow> os_error + 'a) \<Rightarrow> (os_error, 'a) io" where
  "query op w = (if w_fault w (w_tick w) then (Inl ErrIO, tick w) else (op (w_fs w), tick w))"

definition WriteIO :: "path \<Rightarrow> string \<Rightarrow> (os_error, unit) io" where
  "WriteIO p data w =
     (if w_fault w (w_tick w)
      then (Inl ErrIO, case op_write p (take (w_short w (w_tick w)) data) (w_fs w) of
              Inl e \<Rightarrow> tick w | Inr s \<Rightarrow> commit s (tick w))
      else prim (op_write p data) w)"

definition AppendIO :: "path \<Rightarrow> string \<Rightarrow> (os_error, unit) io" where
  \<comment> \<open>writing to a file opened for appending: a failing call leaves a part of the data\<close>
  "AppendIO p data w =
     (if w_fault w (w_tick w)
      then (Inl ErrIO, case op_append p (take (w_short w (w_tick w)) data) (w_fs w) of
              Inl e \<Rightarrow> tick w | Inr s \<Rightarrow> commit s (tick w))
      else prim (op_append p data) w)"

definition CloseIO :: "(os_error, unit) io" where
  "CloseIO = query (\<lambda>s. Inr ())"

definition ReadFile :: "path \<Rightarrow> (os_error, string) io" where
  "ReadFile p = query (op_read p)"

definition Stat :: "path \<Rightarrow> (os_error, mode) io" where
  "Stat p = query (op_stat p)"

definition Chmod :: "path \<Rightarrow> mode \<Rightarrow> (os_error, unit) io" where
  "Chmod p m = prim (op_chmod p m)"

definition Rename :: "path \<Rightarrow> path \<Rightarrow> (os_error, unit) io" where
  "Rename p q = prim (op_rename p q)"

definition Remove :: "path \<Rightarrow> (os_error, unit) io" where
  "Remove p = prim (op_remove p)"

definition CreateTemp :: "path \<Rightarrow> string \<Rightarrow> (os_error, path) io" where
  \<comment> \<open>a new file of mode 0600 with a random suffix; a name that is taken stands for giving up
    after the retries\<close>
  "CreateTemp dir pre w =
     (let p = dir @ [pre @ w_rand w (w_tick w)] in
      bindIO (prim (op_create p (Reg (0x180 AND NOT (w_umask w)) []))) (\<lambda>_. returnIO p) w)"

definition Mkdir :: "path \<Rightarrow> mode \<Rightarrow> (os_error, unit) io" where
  "Mkdir p m w = prim (op_create p (Dir (m AND NOT (w_umask w)))) w"

definition mkdir_one :: "mode \<Rightarrow> path \<Rightarrow> (os_error, unit) io" where
  "mkdir_one m p w =
     (case lookup (w_fs w) p of
        None \<Rightarrow> Mkdir p m w
      | Some (Dir _) \<Rightarrow> (Inr (), w)
      | Some (Reg _ _) \<Rightarrow> (Inl ErrNotDir, w))"

definition MkdirAll :: "path \<Rightarrow> mode \<Rightarrow> (os_error, unit) io" where
  "MkdirAll p m = forIO (\<lambda>k. mkdir_one m (take k p)) [1..<Suc (length p)]"

definition WriteFile :: "path \<Rightarrow> string \<Rightarrow> mode \<Rightarrow> (os_error, unit) io" where
  "WriteFile p data m w =
     bindIO (prim (op_open_trunc p (m AND NOT (w_umask w)))) (\<lambda>_.
     bindIO (WriteIO p data) (\<lambda>_. CloseIO)) w"

text \<open>Steps that leave the tree alone: a pure result, random bytes, the clock.\<close>

definition liftIO :: "'e + 'a \<Rightarrow> ('e, 'a) io" where
  "liftIO r w = (r, w)"

definition Entropy :: "(os_error, string) io" where
  "Entropy w = (if w_fault w (w_tick w) then (Inl ErrIO, tick w) else (Inr (w_rand w (w_tick w)), tick w))"

definition Now :: "('e, int) io" where
  "Now w = (Inr (w_clock w (w_tick w)), tick w)"

subsection \<open>What a run may do to the tree\<close>

text \<open>
  \<open>ensures P R f Q\<close>: started in a tree that satisfies \<open>P\<close>, the run \<open>f\<close> leaves every state it
  passes through in the relation \<open>R\<close> to its first state, whether it fails or not, and its last
  state satisfies \<open>Q\<close> of the result when it returns one.
\<close>

definition evolves :: "(fs \<Rightarrow> fs \<Rightarrow> bool) \<Rightarrow> world \<Rightarrow> world \<Rightarrow> bool" where
  "evolves R w w' \<longleftrightarrow>
     (\<exists>new. w_seen w' = new @ w_seen w \<and> (\<forall>s\<in>set new. R (w_fs w) s)) \<and> R (w_fs w) (w_fs w')"

definition ensures ::
    "(fs \<Rightarrow> bool) \<Rightarrow> (fs \<Rightarrow> fs \<Rightarrow> bool) \<Rightarrow> ('e, 'a) io \<Rightarrow> ('a \<Rightarrow> fs \<Rightarrow> bool) \<Rightarrow> bool" where
  "ensures P R f Q \<longleftrightarrow>
     (\<forall>w. P (w_fs w) \<longrightarrow> evolves R w (snd (f w)) \<and> (\<forall>x. fst (f w) = Inr x \<longrightarrow> Q x (w_fs (snd (f w)))))"

lemma ensuresI:
  assumes "\<And>w. P (w_fs w) \<Longrightarrow> evolves R w (snd (f w))"
    and "\<And>w x w'. P (w_fs w) \<Longrightarrow> f w = (Inr x, w') \<Longrightarrow> Q x (w_fs w')"
  shows "ensures P R f Q"
  unfolding ensures_def
proof (intro allI impI conjI)
  fix w :: world assume P: "P (w_fs w)"
  then show "evolves R w (snd (f w))" by (rule assms(1))
  fix x assume "fst (f w) = Inr x"
  then have "f w = (Inr x, snd (f w))" by (simp add: prod_eq_iff)
  with P show "Q x (w_fs (snd (f w)))" by (rule assms(2))
qed

lemma ensuresD:
  assumes "ensures P R f Q" and "P (w_fs w)" and "f w = (r, w')"
  shows "evolves R w w'" and "r = Inr x \<Longrightarrow> Q x (w_fs w')"
proof -
  from assms(1,2) have "evolves R w (snd (f w)) \<and> (\<forall>x. fst (f w) = Inr x \<longrightarrow> Q x (w_fs (snd (f w))))"
    by (simp add: ensures_def)
  with assms(3) show "evolves R w w'" and "r = Inr x \<Longrightarrow> Q x (w_fs w')" by simp_all
qed

lemma ensures_weaken:
  assumes "ensures P R f Q" and "\<And>s. P' s \<Longrightarrow> P s" and "\<And>x s. Q x s \<Longrightarrow> Q' x s"
  shows "ensures P' R f Q'"
  using assms unfolding ensures_def by blast

lemma snd_wrapIO [simp]: "snd (wrapIO h f w) = snd (f w)"
  by (simp add: wrapIO_def split: prod.split sum.split)

lemma fst_wrapIO [simp]: "fst (wrapIO h f w) = Inr x \<longleftrightarrow> fst (f w) = Inr x"
  by (simp add: wrapIO_def split: prod.split sum.split)

lemma ensures_wrap: "ensures P R f Q \<Longrightarrow> ensures P R (wrapIO h f) Q"
  by (simp add: ensures_def)

text \<open>Runs that leave the tree alone.\<close>

definition quiet :: "('e, 'a) io \<Rightarrow> bool" where
  "quiet f \<longleftrightarrow> (\<forall>w. w_fs (snd (f w)) = w_fs w \<and> w_seen (snd (f w)) = w_seen w)"

named_theorems quiet

lemma quiet_return [quiet]: "quiet (returnIO x)"
  by (simp add: quiet_def returnIO_def)

lemma quiet_throw [quiet]: "quiet (throwIO e)"
  by (simp add: quiet_def throwIO_def)

lemma quiet_lift [quiet]: "quiet (liftIO r)"
  by (simp add: quiet_def liftIO_def)

lemma quiet_Entropy [quiet]: "quiet Entropy"
  by (simp add: quiet_def Entropy_def tick_def)

lemma quiet_Now [quiet]: "quiet Now"
  by (simp add: quiet_def Now_def tick_def)

lemma quiet_query [quiet]: "quiet (query op)"
  by (simp add: quiet_def query_def tick_def)

lemma quiet_bind [quiet]: "quiet f \<Longrightarrow> (\<And>x. quiet (g x)) \<Longrightarrow> quiet (bindIO f g)"
  by (simp add: quiet_def bindIO_def split: prod.split sum.split) (metis snd_conv)

lemma quiet_wrap [quiet]: "quiet f \<Longrightarrow> quiet (wrapIO h f)"
  by (simp add: quiet_def)

lemma quiet_try [quiet]: "quiet f \<Longrightarrow> quiet (tryIO f)"
  by (simp add: quiet_def tryIO_def split: prod.split) (metis snd_conv)

lemma quiet_ReadFile [quiet]: "quiet (ReadFile p)"
  by (simp add: ReadFile_def quiet)

lemma quiet_Stat [quiet]: "quiet (Stat p)"
  by (simp add: Stat_def quiet)

locale guarantee =
  fixes R :: "fs \<Rightarrow> fs \<Rightarrow> bool"
  assumes R_refl: "R s s"
    and R_trans: "R s t \<Longrightarrow> R t u \<Longrightarrow> R s u"
begin

lemma evolves_refl: "evolves R w w"
  by (simp add: evolves_def R_refl)

lemma evolves_tick: "evolves R w (tick w)"
  by (simp add: evolves_def tick_def R_refl)

lemma evolves_commit: "R (w_fs w) s \<Longrightarrow> evolves R w (commit s (tick w))"
  by (simp add: evolves_def tick_def commit_def)

lemma evolves_trans:
  assumes "evolves R u v" and "evolves R v w"
  shows "evolves R u w"
proof -
  from assms(1) obtain new where u: "w_seen v = new @ w_seen u" "\<forall>s\<in>set new. R (w_fs u) s" "R (w_fs u) (w_fs v)"
    unfolding evolves_def by blast
  from assms(2) obtain new' where v: "w_seen w = new' @ w_seen v" "\<forall>s\<in>set new'. R (w_fs v) s" "R (w_fs v) (w_fs w)"
    unfolding evolves_def by blast
  have "\<forall>s\<in>set new'. R (w_fs u) s" using R_trans [OF u(3)] v(2) by blast
  with u(2) have "\<forall>s\<in>set (new' @ new). R (w_fs u) s" by auto
  moreover have "w_seen w = (new' @ new) @ w_seen u" using u(1) v(1) by simp
  moreover have "R (w_fs u) (w_fs w)" by (rule R_trans [OF u(3) v(3)])
  ultimately show ?thesis unfolding evolves_def by blast
qed

lemma ens_return: "(\<And>s. P s \<Longrightarrow> Q x s) \<Longrightarrow> ensures P R (returnIO x) Q"
  by (auto simp: ensures_def returnIO_def evolves_refl)

lemma ens_query:
  assumes "\<And>s x. P s \<Longrightarrow> op s = Inr x \<Longrightarrow> Q x s"
  shows "ensures P R (query op) Q"
proof (rule ensuresI)
  show "evolves R w (snd (query op w))" for w by (simp add: query_def evolves_tick)
  show "Q x (w_fs w')" if "P (w_fs w)" "query op w = (Inr x, w')" for w x w'
    using that(2) assms [OF that(1)] by (auto simp: query_def tick_def split: if_splits)
qed

lemma ens_quiet: "quiet f \<Longrightarrow> ensures P R f (\<lambda>_. P)"
  unfolding ensures_def quiet_def evolves_def by (simp add: R_refl)

lemma ens_prim:
  assumes "\<And>s s'. P s \<Longrightarrow> op s = Inr s' \<Longrightarrow> R s s' \<and> Q () s'"
  shows "ensures P R (prim op) Q"
proof (rule ensuresI)
  show "evolves R w (snd (prim op w))" if "P (w_fs w)" for w
    using assms [OF that] by (auto simp: prim_def evolves_tick evolves_commit split: sum.split)
  show "Q x (w_fs w')" if "P (w_fs w)" "prim op w = (Inr x, w')" for w x w'
    using that(2) assms [OF that(1)] by (auto simp: prim_def commit_def split: if_splits sum.splits)
qed

lemma ens_WriteIO:
  assumes "\<And>s s' d. P s \<Longrightarrow> op_write p d s = Inr s' \<Longrightarrow> R s s' \<and> (d = data \<longrightarrow> Q () s')"
  shows "ensures P R (WriteIO p data) Q"
proof (rule ensuresI)
  show "evolves R w (snd (WriteIO p data w))" if "P (w_fs w)" for w
    using assms [OF that] by (auto simp: WriteIO_def prim_def evolves_tick evolves_commit split: sum.split)
  show "Q x (w_fs w')" if "P (w_fs w)" "WriteIO p data w = (Inr x, w')" for w x w'
    using that(2) assms [OF that(1)] by (auto simp: WriteIO_def prim_def commit_def split: if_splits sum.splits)
qed

lemma ens_AppendIO:
  assumes "\<And>s s' k. P s \<Longrightarrow> op_append p (take k data) s = Inr s' \<Longrightarrow> R s s' \<and> (take k data = data \<longrightarrow> Q () s')"
  shows "ensures P R (AppendIO p data) Q"
proof (rule ensuresI)
  have all: "op_append p data s = Inr s' \<Longrightarrow> P s \<Longrightarrow> R s s' \<and> Q () s'" for s s'
    using assms [of s "length data" s'] by simp
  show "evolves R w (snd (AppendIO p data w))" if "P (w_fs w)" for w
    using assms [OF that] all [OF _ that]
    by (auto simp: AppendIO_def prim_def evolves_tick evolves_commit split: sum.split)
  show "Q x (w_fs w')" if "P (w_fs w)" "AppendIO p data w = (Inr x, w')" for w x w'
    using that(2) all [OF _ that(1)] by (auto simp: AppendIO_def prim_def commit_def split: if_splits sum.splits)
qed

lemma ens_bind:
  assumes "ensures P R f M" and "\<And>x. ensures (M x) R (g x) Q"
  shows "ensures P R (bindIO f g) Q"
proof (rule ensuresI)
  fix w :: world
  assume P: "P (w_fs w)"
  obtain r w' where run: "f w = (r, w')" by (cases "f w")
  note first = ensuresD [OF assms(1) P run]
  show "evolves R w (snd (bindIO f g w))"
  proof (cases r)
    case (Inr x)
    with first(2) have M: "M x (w_fs w')" by simp
    obtain r' w'' where "g x w' = (r', w'')" by (cases "g x w'")
    with ensuresD(1) [OF assms(2) M] show ?thesis
      using run Inr first(1) evolves_trans by (auto simp: bindIO_def)
  qed (use run first in \<open>simp add: bindIO_def\<close>)
  show "Q x (w_fs v)" if "bindIO f g w = (Inr x, v)" for x v
  proof (cases r)
    case (Inr y)
    with that run have "g y w' = (Inr x, v)" by (simp add: bindIO_def)
    with ensuresD(2) [OF assms(2)] first(2) Inr show ?thesis by blast
  qed (use run that in \<open>simp add: bindIO_def\<close>)
qed

lemma ens_try:
  assumes "ensures P R f Q" and "\<And>s x. Q x s \<Longrightarrow> Q' (Inr x) s" and "\<And>e s. Q' (Inl e) s"
  shows "ensures P R (tryIO f) Q'"
proof (rule ensuresI)
  fix w :: world
  assume P: "P (w_fs w)"
  obtain r w' where run: "f w = (r, w')" by (cases "f w")
  note first = ensuresD [OF assms(1) P run]
  show "evolves R w (snd (tryIO f w))" using first(1) run by (simp add: tryIO_def)
  show "Q' x (w_fs v)" if "tryIO f w = (Inr x, v)" for x v
    using that run first(2) assms(2,3) by (cases r) (auto simp: tryIO_def)
qed

lemma ens_onError:
  assumes "ensures P R f Q" and "ensures (\<lambda>_. True) R cleanup Q'"
  shows "ensures P R (onErrorIO cleanup f) Q"
proof (rule ensuresI)
  fix w :: world
  assume P: "P (w_fs w)"
  obtain r w' where run: "f w = (r, w')" by (cases "f w")
  note first = ensuresD [OF assms(1) P run]
  obtain r' w'' where "cleanup w' = (r', w'')" by (cases "cleanup w'")
  with ensuresD(1) [OF assms(2) TrueI] have "evolves R w' (snd (cleanup w'))" by simp
  with first(1) have "evolves R w (snd (cleanup w'))" by (rule evolves_trans)
  with first(1) run show "evolves R w (snd (onErrorIO cleanup f w))"
    by (cases r) (simp_all add: onErrorIO_def)
  show "Q x (w_fs v)" if "onErrorIO cleanup f w = (Inr x, v)" for x v
    using that run first(2) by (cases r) (auto simp: onErrorIO_def)
qed

lemma ens_for:
  assumes "\<And>x. x \<in> set xs \<Longrightarrow> ensures P R (f x) (\<lambda>_. P)"
  shows "ensures P R (forIO f xs) (\<lambda>_. P)"
  using assms
proof (induction xs)
  case (Cons x xs)
  then have "ensures P R (f x) (\<lambda>_. P)" "ensures P R (forIO f xs) (\<lambda>_. P)" by simp_all
  then show ?case by (auto intro: ens_bind)
qed (simp add: ens_return)

end

text \<open>A path that keeps its node, a path that may only become a given node, and a path that does
  not become a file.\<close>

definition unchanged :: "path \<Rightarrow> fs \<Rightarrow> fs \<Rightarrow> bool" where
  "unchanged q s t \<longleftrightarrow> lookup t q = lookup s q"

definition becomes :: "path \<Rightarrow> node \<Rightarrow> fs \<Rightarrow> fs \<Rightarrow> bool" where
  "becomes q n s t \<longleftrightarrow> lookup t q = lookup s q \<or> lookup t q = Some n"

definition stays_gone :: "path \<Rightarrow> fs \<Rightarrow> fs \<Rightarrow> bool" where
  "stays_gone q s t \<longleftrightarrow> (is_reg t q \<longrightarrow> is_reg s q)"

interpretation uc: guarantee "unchanged q" for q
  by unfold_locales (simp_all add: unchanged_def)

interpretation bc: guarantee "becomes q n" for q n
  by unfold_locales (auto simp: becomes_def)

interpretation sg: guarantee "stays_gone q" for q
  by unfold_locales (auto simp: stays_gone_def)

lemma ensures_mono: "ensures P R f Q \<Longrightarrow> (\<And>s t. R s t \<Longrightarrow> R' s t) \<Longrightarrow> ensures P R' f Q"
  by (fastforce simp: ensures_def evolves_def)

lemma unchanged_becomes: "unchanged q s t \<Longrightarrow> becomes q n s t"
  by (simp add: unchanged_def becomes_def)

lemma unchanged_stays_gone: "unchanged q s t \<Longrightarrow> stays_gone q s t"
  by (simp add: unchanged_def stays_gone_def is_reg_def)

text \<open>What each operation does to the node of every path.\<close>

named_theorems op_lookup

lemma op_create_lookup [op_lookup]:
  "op_create p n s = Inr s' \<Longrightarrow> lookup s p = None \<and> is_dir s (butlast p) \<and>
     (\<forall>q. lookup s' q = (if q = p then Some n else lookup s q))"
  by (cases "p = []") (auto simp: op_create_def lookup_def [of s "[]"] split: if_splits)

lemma op_open_trunc_lookup [op_lookup]:
  "op_open_trunc p m s = Inr s' \<Longrightarrow> \<not> is_dir s p \<and>
     (\<exists>m'. \<forall>q. lookup s' q = (if q = p then Some (Reg m' []) else lookup s q))"
  by (cases "p = []")
    (auto simp: op_open_trunc_def is_dir_def lookup_def [of s "[]"] dest!: op_create_lookup split: option.splits node.splits)

lemma op_write_lookup [op_lookup]:
  "op_write p d s = Inr s' \<Longrightarrow> \<exists>m c. lookup s p = Some (Reg m c) \<and>
     (\<forall>q. lookup s' q = (if q = p then Some (Reg m d) else lookup s q))"
  by (cases "p = []") (auto simp: op_write_def lookup_def [of s "[]"] split: option.splits node.splits)

lemma op_open_append_lookup [op_lookup]:
  "op_open_append p m s = Inr s' \<Longrightarrow> \<not> is_dir s p \<and>
     (\<forall>q. lookup s' q = (if q = p \<and> lookup s p = None then Some (Reg m []) else lookup s q))"
  by (auto simp: op_open_append_def is_dir_def dest!: op_create_lookup split: option.splits node.splits)

lemma op_append_lookup [op_lookup]:
  "op_append p d s = Inr s' \<Longrightarrow> \<exists>m c. lookup s p = Some (Reg m c) \<and>
     (\<forall>q. lookup s' q = (if q = p then Some (Reg m (c @ d)) else lookup s q))"
  by (cases "p = []") (auto simp: op_append_def lookup_def [of s "[]"] split: option.splits node.splits)

lemma op_chmod_lookup [op_lookup]:
  "op_chmod p m s = Inr s' \<Longrightarrow> \<exists>m' c. lookup s p = Some (Reg m' c) \<and>
     (\<forall>q. lookup s' q = (if q = p then Some (Reg m c) else lookup s q))"
  by (cases "p = []") (auto simp: op_chmod_def lookup_def [of s "[]"] split: option.splits node.splits)

lemma op_remove_lookup [op_lookup]:
  "op_remove p s = Inr s' \<Longrightarrow> lookup s p \<noteq> None \<and> (\<forall>q. lookup s' q = (if q = p then None else lookup s q))"
  by (auto simp: op_remove_def split: option.splits node.splits if_splits)

lemma op_rename_lookup [op_lookup]:
  assumes "op_rename p q s = Inr s'"
  shows "\<exists>m c. lookup s p = Some (Reg m c) \<and> \<not> is_dir s q \<and>
     (\<forall>r. lookup s' r = (if r = q then Some (Reg m c) else if r = p then None else lookup s r))"
proof -
  from assms obtain m c where mc: "lookup s p = Some (Reg m c)" "\<not> is_dir s q"
    "s' = set_node q (Reg m c) (del_node p s)"
    by (auto simp: op_rename_def split: option.splits node.splits if_splits)
  then have "p \<noteq> []" "q \<noteq> []" by (auto simp: lookup_def is_dir_def)
  with mc show ?thesis by auto
qed

text \<open>Operations on other paths leave a path as it is.\<close>

definition temp_of :: "path \<Rightarrow> string \<Rightarrow> path \<Rightarrow> bool" where
  "temp_of dir pre t \<longleftrightarrow> (\<exists>r. t = dir @ [pre @ r])"

lemma frame_prim:
  assumes "\<And>s s'. op s = Inr s' \<Longrightarrow> lookup s' q = lookup s q"
  shows "ensures P (unchanged q) (prim op) (\<lambda>_ _. True)"
  by (rule uc.ens_prim) (simp add: unchanged_def assms)

lemma frame_Remove: "p \<noteq> q \<Longrightarrow> ensures P (unchanged q) (Remove p) (\<lambda>_ _. True)"
  unfolding Remove_def by (rule frame_prim) (auto dest: op_lookup)

lemma frame_Rename: "p \<noteq> q \<Longrightarrow> r \<noteq> q \<Longrightarrow> ensures P (unchanged q) (Rename p r) (\<lambda>_ _. True)"
  unfolding Rename_def by (rule frame_prim) (auto dest: op_lookup)

lemma frame_Chmod: "p \<noteq> q \<Longrightarrow> ensures P (unchanged q) (Chmod p m) (\<lambda>_ _. True)"
  unfolding Chmod_def by (rule frame_prim) (auto dest: op_lookup)

lemma frame_WriteIO: "p \<noteq> q \<Longrightarrow> ensures P (unchanged q) (WriteIO p d) (\<lambda>_ _. True)"
  by (rule uc.ens_WriteIO) (auto simp: unchanged_def dest: op_lookup)

lemma frame_Close: "ensures P (unchanged q) CloseIO (\<lambda>_ _. True)"
  unfolding CloseIO_def by (rule uc.ens_query) simp

lemma ensures_world:
  "(\<And>u. ensures P R (\<lambda>w. f (g u) w) Q) \<Longrightarrow> ensures P R (\<lambda>w. f (g w) w) Q"
  unfolding ensures_def by blast


lemma frame_Mkdir: "p \<noteq> q \<Longrightarrow> ensures P (unchanged q) (Mkdir p m) (\<lambda>_ _. True)"
proof -
  have "ensures P (unchanged q) (\<lambda>w. prim (op_create p (Dir (m AND NOT u))) w) (\<lambda>_ _. True)" if "p \<noteq> q" for u
    using that by (intro frame_prim) (auto dest: op_lookup)
  then show "p \<noteq> q \<Longrightarrow> ?thesis"
    using ensures_world [where f = "\<lambda>u. prim (op_create p (Dir (m AND NOT u)))" and g = w_umask]
    by (simp add: Mkdir_def [abs_def])
qed

lemma frame_CreateTemp:
  assumes "\<not> temp_of dir pre q"
  shows "ensures P (unchanged q) (CreateTemp dir pre)
    (\<lambda>t s. temp_of dir pre t \<and> (\<exists>m. lookup s t = Some (Reg m [])))"
proof -
  have "ensures P (unchanged q)
      (\<lambda>w. bindIO (prim (op_create (dir @ [pre @ snd u]) (Reg (0x180 AND NOT (fst u)) [])))
        (\<lambda>_. returnIO (dir @ [pre @ snd u])) w)
      (\<lambda>t s. temp_of dir pre t \<and> (\<exists>m. lookup s t = Some (Reg m [])))" for u :: "mode \<times> string"
  proof (rule uc.ens_bind)
    show "ensures P (unchanged q) (prim (op_create (dir @ [pre @ snd u]) (Reg (0x180 AND NOT (fst u)) [])))
        (\<lambda>_ s. \<exists>m. lookup s (dir @ [pre @ snd u]) = Some (Reg m []))"
      using assms by (intro uc.ens_prim) (auto simp: unchanged_def temp_of_def dest: op_create_lookup)
  qed (auto intro!: uc.ens_return simp: temp_of_def)
  then have "ensures P (unchanged q)
      (\<lambda>w. (\<lambda>u. bindIO (prim (op_create (dir @ [pre @ snd u]) (Reg (0x180 AND NOT (fst u)) [])))
        (\<lambda>_. returnIO (dir @ [pre @ snd u]))) (w_umask w, w_rand w (w_tick w)) w)
      (\<lambda>t s. temp_of dir pre t \<and> (\<exists>m. lookup s t = Some (Reg m [])))"
    by (rule ensures_world)
  then show ?thesis by (simp add: CreateTemp_def [abs_def] Let_def)
qed

lemma frame_mkdir_one: "p \<noteq> q \<Longrightarrow> ensures P (unchanged q) (mkdir_one m p) (\<lambda>_ _. True)"
  using frame_Mkdir [of p q P m]
  by (auto simp: ensures_def mkdir_one_def uc.evolves_refl split: option.split node.split)

lemma frame_MkdirAll:
  assumes "\<And>k. take k p = q \<Longrightarrow> q = []"
  shows "ensures (\<lambda>_. True) (unchanged q) (MkdirAll p m) (\<lambda>_ _. True)"
  unfolding MkdirAll_def
proof (rule uc.ens_for)
  fix k assume k: "k \<in> set [1..<Suc (length p)]"
  with assms [of k] have "take k p \<noteq> q" by auto
  then show "ensures (\<lambda>_. True) (unchanged q) (mkdir_one m (take k p)) (\<lambda>_ _. True)"
    by (rule frame_mkdir_one)
qed

lemma gone_MkdirAll: "ensures (\<lambda>_. True) (stays_gone q) (MkdirAll p m) (\<lambda>_ _. True)"
  unfolding MkdirAll_def
proof (rule sg.ens_for)
  fix k assume "k \<in> set [1..<Suc (length p)]"
  have "ensures (\<lambda>_. True) (stays_gone q) (\<lambda>w. prim (op_create (take k p) (Dir (m AND NOT u))) w) (\<lambda>_ _. True)" for u
    by (rule sg.ens_prim) (auto simp: stays_gone_def is_reg_def dest!: op_create_lookup split: if_splits)
  then have "ensures (\<lambda>_. True) (stays_gone q) (\<lambda>w. (\<lambda>u. prim (op_create (take k p) (Dir (m AND NOT u)))) (w_umask w) w) (\<lambda>_ _. True)"
    by (rule ensures_world)
  then have "ensures (\<lambda>_. True) (stays_gone q) (Mkdir (take k p) m) (\<lambda>_ _. True)"
    by (simp add: Mkdir_def [abs_def])
  then show "ensures (\<lambda>_. True) (stays_gone q) (mkdir_one m (take k p)) (\<lambda>_ _. True)"
    by (auto simp: ensures_def mkdir_one_def sg.evolves_refl split: option.split node.split)
qed

lemma frame_WriteFile:
  assumes "p \<noteq> q"
  shows "ensures P (unchanged q) (WriteFile p d m) (\<lambda>_ s. \<exists>m'. lookup s p = Some (Reg m' d))"
proof -
  have "ensures P (unchanged q) (\<lambda>w. bindIO (prim (op_open_trunc p (m AND NOT u)))
      (\<lambda>_. bindIO (WriteIO p d) (\<lambda>_. CloseIO)) w) (\<lambda>_ s. \<exists>m'. lookup s p = Some (Reg m' d))" for u
  proof (rule uc.ens_bind)
    show "ensures P (unchanged q) (prim (op_open_trunc p (m AND NOT u))) (\<lambda>_ _. True)"
      using assms by (intro frame_prim) (auto dest: op_lookup)
    show "ensures (\<lambda>_. True) (unchanged q) (bindIO (WriteIO p d) (\<lambda>_. CloseIO)) (\<lambda>_ s. \<exists>m'. lookup s p = Some (Reg m' d))"
    proof (rule uc.ens_bind)
      show "ensures (\<lambda>_. True) (unchanged q) (WriteIO p d) (\<lambda>_ s. \<exists>m'. lookup s p = Some (Reg m' d))"
        using assms by (intro uc.ens_WriteIO) (auto simp: unchanged_def dest: op_lookup)
    qed (auto simp: CloseIO_def intro: uc.ens_query)
  qed
  then have "ensures P (unchanged q) (\<lambda>w. (\<lambda>u. bindIO (prim (op_open_trunc p (m AND NOT u)))
      (\<lambda>_. bindIO (WriteIO p d) (\<lambda>_. CloseIO))) (w_umask w) w) (\<lambda>_ s. \<exists>m'. lookup s p = Some (Reg m' d))"
    by (rule ensures_world)
  then show ?thesis by (simp add: WriteFile_def [abs_def])
qed

subsection \<open>Runs without failures\<close>

text \<open>
  Total correctness: in a world without injected failures, a run started in a tree that satisfies
  \<open>P\<close> returns a result, and the last tree satisfies \<open>Q\<close>.
\<close>

definition completes :: "(fs \<Rightarrow> bool) \<Rightarrow> ('e, 'a) io \<Rightarrow> ('a \<Rightarrow> fs \<Rightarrow> bool) \<Rightarrow> bool" where
  "completes P f Q \<longleftrightarrow>
     (\<forall>w. w_fault w = (\<lambda>_. False) \<and> P (w_fs w) \<longrightarrow>
        (\<exists>x w'. f w = (Inr x, w') \<and> w_fault w' = (\<lambda>_. False) \<and> Q x (w_fs w')))"

lemma completesD:
  assumes "completes P f Q" and "w_fault w = (\<lambda>_. False)" and "P (w_fs w)"
  shows "\<exists>x w'. f w = (Inr x, w') \<and> Q x (w_fs w')"
  using assms unfolding completes_def by blast

lemma comp_return: "(\<And>s. P s \<Longrightarrow> Q x s) \<Longrightarrow> completes P (returnIO x) Q"
  by (simp add: completes_def returnIO_def)

lemma comp_bind:
  assumes "completes P f M" and "\<And>x. completes (M x) (g x) Q"
  shows "completes P (bindIO f g) Q"
  using assms unfolding completes_def bindIO_def by fastforce

lemma comp_wrap: "completes P f Q \<Longrightarrow> completes P (wrapIO h f) Q"
  unfolding completes_def wrapIO_def by fastforce

lemma comp_onError: "completes P f Q \<Longrightarrow> completes P (onErrorIO c f) Q"
  unfolding completes_def onErrorIO_def by fastforce

lemma comp_query: "(\<And>s. P s \<Longrightarrow> \<exists>x. op s = Inr x \<and> Q x s) \<Longrightarrow> completes P (query op) Q"
  unfolding completes_def query_def tick_def by force

lemma comp_prim: "(\<And>s. P s \<Longrightarrow> \<exists>s'. op s = Inr s' \<and> Q () s') \<Longrightarrow> completes P (prim op) Q"
  unfolding completes_def prim_def tick_def commit_def by force

lemma comp_WriteIO:
  "(\<And>s. P s \<Longrightarrow> \<exists>s'. op_write p d s = Inr s' \<and> Q () s') \<Longrightarrow> completes P (WriteIO p d) Q"
  using comp_prim [of P "op_write p d" Q] unfolding completes_def WriteIO_def by force

lemma comp_for:
  assumes "\<And>x. x \<in> set xs \<Longrightarrow> completes P (f x) (\<lambda>_. P)"
  shows "completes P (forIO f xs) (\<lambda>_. P)"
  using assms
proof (induction xs)
  case (Cons x xs)
  then have "completes P (f x) (\<lambda>_. P)" "completes P (forIO f xs) (\<lambda>_. P)" by simp_all
  then show ?case by (auto intro: comp_bind)
qed (simp add: comp_return)

lemma comp_weaken:
  "completes P f Q \<Longrightarrow> (\<And>s. P' s \<Longrightarrow> P s) \<Longrightarrow> (\<And>x s. Q x s \<Longrightarrow> Q' x s) \<Longrightarrow> completes P' f Q'"
  unfolding completes_def by blast

lemma comp_world: "(\<And>u. completes P (\<lambda>w. f u w) Q) \<Longrightarrow> completes P (\<lambda>w. f (g w) w) Q"
  unfolding completes_def by blast

text \<open>A run that may fail for a reason of the tree, but whose error is ignored.\<close>

lemma comp_try_prim:
  assumes "\<And>s. P s \<Longrightarrow> case op s of Inl e \<Rightarrow> Q (Inl e) s | Inr s' \<Rightarrow> Q (Inr ()) s'"
  shows "completes P (tryIO (prim op)) Q"
  unfolding completes_def
proof (intro allI impI)
  fix w :: world
  assume w: "w_fault w = (\<lambda>_. False) \<and> P (w_fs w)"
  show "\<exists>x w'. tryIO (prim op) w = (Inr x, w') \<and> w_fault w' = (\<lambda>_. False) \<and> Q x (w_fs w')"
    using assms [of "w_fs w"] w
    by (cases "op (w_fs w)") (simp_all add: tryIO_def prim_def tick_def commit_def)
qed

lemma comp_try_query:
  assumes "\<And>s. P s \<Longrightarrow> Q (op s) s"
  shows "completes P (tryIO (query op)) Q"
  unfolding completes_def
proof (intro allI impI)
  fix w :: world
  assume w: "w_fault w = (\<lambda>_. False) \<and> P (w_fs w)"
  show "\<exists>x w'. tryIO (query op) w = (Inr x, w') \<and> w_fault w' = (\<lambda>_. False) \<and> Q x (w_fs w')"
    using assms [of "w_fs w"] w
    by (simp add: tryIO_def query_def tick_def)
qed

lemma comp_MkdirAll:
  assumes P: "\<And>s k. P s \<Longrightarrow> k \<le> length p \<Longrightarrow> \<not> is_reg s (take k p)"
    and stable: "\<And>s k m s'. P s \<Longrightarrow> 0 < k \<Longrightarrow> k \<le> length p \<Longrightarrow> op_create (take k p) (Dir m) s = Inr s' \<Longrightarrow> P s'"
  shows "completes P (MkdirAll p m) (\<lambda>_ s. P s \<and> is_dir s p)"
proof -
  let ?I = "\<lambda>j s. P s \<and> is_dir s (take j p)"
  have one: "completes (?I j) (mkdir_one m (take (Suc j) p)) (\<lambda>_. ?I (Suc j))" if j: "j < length p" for j
    unfolding completes_def
  proof (intro allI impI)
    fix w :: world
    assume w: "w_fault w = (\<lambda>_. False) \<and> ?I j (w_fs w)"
    let ?p = "take (Suc j) p" let ?m = "m AND NOT (w_umask w)"
    have nr: "\<not> is_reg (w_fs w) ?p" using w P j by auto
    show "\<exists>x w'. mkdir_one m ?p w = (Inr x, w') \<and> w_fault w' = (\<lambda>_. False) \<and> ?I (Suc j) (w_fs w')"
    proof (cases "lookup (w_fs w) ?p")
      case None
      have "butlast ?p = take j p" using j by (simp add: butlast_take)
      then obtain s' where s': "op_create ?p (Dir ?m) (w_fs w) = Inr s'" "s' = set_node ?p (Dir ?m) (w_fs w)"
        using None w by (auto simp: op_create_def)
      then have "P s'" using stable [of "w_fs w" "Suc j"] w j by auto
      moreover have "?p \<noteq> []" using j by auto
      then have "is_dir s' ?p" using s'(2) by (simp add: is_dir_def)
      ultimately show ?thesis
        using None w s'(1) by (simp add: mkdir_one_def Mkdir_def prim_def tick_def commit_def)
    next
      case (Some n)
      with nr obtain m' where "n = Dir m'" by (cases n) (auto simp: is_reg_def)
      with Some w show ?thesis by (simp add: mkdir_one_def is_dir_def)
    qed
  qed
  have "completes (?I j) (forIO (\<lambda>k. mkdir_one m (take k p)) [Suc j..<Suc (length p)]) (\<lambda>_. ?I (length p))"
    if "j \<le> length p" for j
    using that
  proof (induction "length p - j" arbitrary: j)
    case 0
    then show ?case by (simp add: comp_return)
  next
    case (Suc d)
    then have "j < length p" by simp
    moreover from this have "[Suc j..<Suc (length p)] = Suc j # [Suc (Suc j)..<Suc (length p)]"
      by (simp add: upt_conv_Cons)
    moreover have "completes (?I (Suc j)) (forIO (\<lambda>k. mkdir_one m (take k p)) [Suc (Suc j)..<Suc (length p)]) (\<lambda>_. ?I (length p))"
      using Suc by (intro Suc.hyps) auto
    ultimately show ?case using one [of j] by (auto intro: comp_bind)
  qed
  from this [of 0] show ?thesis
    unfolding MkdirAll_def by (auto elim!: comp_weaken simp: is_dir_def lookup_def)
qed

end
