(* ===== verification/Effects.thy ===== *)
theory Effects
  imports File_System
begin

section \<open>Steps of the issuer\<close>

text \<open>
  What package pki and package issuance share over the file system: errors that come from the
  operating system or from a library, single steps as equations, and the rules that carry a fact
  about one path over a step that leaves the path alone.
\<close>

datatype cause = OsCause os_error | LibCause string

definition osIO :: "(os_error, 'a) io \<Rightarrow> (cause, 'a) io" where
  "osIO f = wrapIO OsCause f"

definition libIO :: "string + 'a \<Rightarrow> (cause, 'a) io" where
  "libIO r = wrapIO LibCause (liftIO r)"

definition deferIO :: "('d, 'b) io \<Rightarrow> ('e, 'a) io \<Rightarrow> ('e, 'a) io" where
  \<comment> \<open>\<^theory_text>\<open>defer cleanup()\<close>, whose error is dropped\<close>
  "deferIO cleanup f w = (case f w of (r, w') \<Rightarrow> (r, snd (cleanup w')))"

definition OpenAppend :: "path \<Rightarrow> mode \<Rightarrow> (os_error, unit) io" where
  "OpenAppend p m w = prim (op_open_append p (m AND NOT (w_umask w))) w"

fun foldIO :: "('s \<Rightarrow> 'a \<Rightarrow> ('e, 's) io) \<Rightarrow> 's \<Rightarrow> 'a list \<Rightarrow> ('e, 's) io" where
  \<comment> \<open>a loop that fills a result\<close>
  "foldIO f s [] = returnIO s"
| "foldIO f s (x # xs) = bindIO (f s x) (\<lambda>s'. foldIO f s' xs)"

lemma quiet_osIO [quiet]: "quiet f \<Longrightarrow> quiet (osIO f)"
  by (simp add: osIO_def quiet)

lemma quiet_libIO [quiet]: "quiet (libIO r)"
  by (simp add: libIO_def quiet)

lemma quiet_Close [quiet]: "quiet CloseIO"
  by (simp add: CloseIO_def quiet)

lemma quiet_if [quiet]: "quiet f \<Longrightarrow> quiet g \<Longrightarrow> quiet (if b then f else g)"
  by simp

lemma quiet_Let [quiet]: "(\<And>x. quiet (f x)) \<Longrightarrow> quiet (Let y f)"
  by (simp add: Let_def)

lemma quietD: "quiet f \<Longrightarrow> f w = (r, w') \<Longrightarrow> w_fs w' = w_fs w \<and> w_seen w' = w_seen w"
  by (metis quiet_def snd_conv)

lemma tick_simps [simp]:
  "w_fs (tick w) = w_fs w" "w_seen (tick w) = w_seen w" "w_fault (tick w) = w_fault w"
  by (simp_all add: tick_def)

lemma ReadFile_run:
  "ReadFile p w = (if w_fault w (w_tick w) then Inl ErrIO else op_read p (w_fs w), tick w)"
  by (simp add: ReadFile_def query_def)

lemma Stat_run:
  "Stat p w = (if w_fault w (w_tick w) then Inl ErrIO else op_stat p (w_fs w), tick w)"
  by (simp add: Stat_def query_def)

lemma bindIO_run: "f w = (r, w') \<Longrightarrow> bindIO f g w = (case r of Inl e \<Rightarrow> (Inl e, w') | Inr x \<Rightarrow> g x w')"
  by (simp add: bindIO_def)

lemma bindIO_InrE:
  assumes "bindIO f g w = (Inr y, w'')"
  obtains x w' where "f w = (Inr x, w')" and "g x w' = (Inr y, w'')"
  using assms by (cases "f w"; cases "fst (f w)") (auto simp: bindIO_def)

lemma wrapIO_Inr: "wrapIO h f w = (Inr x, w') \<longleftrightarrow> f w = (Inr x, w')"
  by (cases "f w"; cases "fst (f w)") (auto simp: wrapIO_def)

lemma osIO_Inr: "osIO f w = (Inr x, w') \<longleftrightarrow> f w = (Inr x, w')"
  by (simp add: osIO_def wrapIO_Inr)

lemma libIO_Inr: "libIO r w = (Inr x, w') \<longleftrightarrow> r = Inr x \<and> w' = w"
  by (auto simp: libIO_def wrapIO_Inr liftIO_def)

lemma liftIO_Inr: "liftIO r w = (Inr x, w') \<longleftrightarrow> r = Inr x \<and> w' = w"
  by (auto simp: liftIO_def)

lemma tryIO_run: "f w = (r, w') \<Longrightarrow> tryIO f w = (Inr r, w')"
  by (simp add: tryIO_def)

lemma is_reg_read: "is_reg s p \<Longrightarrow> \<exists>c. op_read p s = Inr c"
  by (auto simp: is_reg_def op_read_def split: option.splits node.splits)

lemma op_read_Inr: "op_read p s = Inr c \<longleftrightarrow> (\<exists>m. lookup s p = Some (Reg m c))"
  by (auto simp: op_read_def split: option.splits node.splits)

subsection \<open>Facts about a path\<close>

interpretation any: guarantee "\<lambda>_ _. True"
  by unfold_locales simp_all

lemma as_any: "ensures P R f Q \<Longrightarrow> ensures P (\<lambda>_ _. True) f Q"
  by (erule ensures_mono) simp

lemma ensures_frame:
  assumes "ensures P (unchanged q) f Q"
  shows "ensures (\<lambda>s. P s \<and> I (lookup s q)) (unchanged q) f (\<lambda>x s. Q x s \<and> I (lookup s q))"
  using assms by (auto simp: ensures_def evolves_def unchanged_def)

lemma ens_osIO: "ensures P R f Q \<Longrightarrow> ensures P R (osIO f) Q"
  by (simp add: osIO_def ensures_wrap)

lemma ens_post: "ensures P R f Q \<Longrightarrow> (\<And>x s. Q x s \<Longrightarrow> Q' x s) \<Longrightarrow> ensures P R f Q'"
  by (erule ensures_weaken) simp_all

lemma ens_pre: "ensures P R f Q \<Longrightarrow> (\<And>s. P' s \<Longrightarrow> P s) \<Longrightarrow> ensures P' R f Q"
  by (erule ensures_weaken) simp_all


lemma deferIO_Inr:
  "deferIO c f w = (Inr x, w'') \<longleftrightarrow> (\<exists>w'. f w = (Inr x, w') \<and> w'' = snd (c w'))"
  by (auto simp: deferIO_def split: prod.splits)

lemma ens_defer_quiet:
  assumes "ensures P R f Q" and "quiet c"
  shows "ensures P R (deferIO c f) Q"
  using assms by (simp add: ensures_def evolves_def deferIO_def quiet_def split: prod.splits) (metis snd_conv fst_conv)

context guarantee
begin

lemma ens_fold:
  assumes "\<And>s x. x \<in> set xs \<Longrightarrow> ensures P R (f s x) (\<lambda>_. P)"
  shows "ensures P R (foldIO f s xs) (\<lambda>_. P)"
  using assms
proof (induction xs arbitrary: s)
  case (Cons x xs)
  then have "ensures P R (f s x) (\<lambda>_. P)" "\<And>s. ensures P R (foldIO f s xs) (\<lambda>_. P)" by simp_all
  then show ?case by (auto intro: ens_bind)
qed (simp add: ens_return)

lemma ens_stop: "ensures P R f (\<lambda>_ _. False) \<Longrightarrow> ensures P R (bindIO f g) (\<lambda>_ _. False)"
  by (rule ens_bind [where M = "\<lambda>_ _. False"]) (assumption, simp add: ensures_def)

lemma ens_OpenAppend:
  assumes "\<And>s s' m'. P s \<Longrightarrow> op_open_append p m' s = Inr s' \<Longrightarrow> R s s' \<and> Q () s'"
  shows "ensures P R (OpenAppend p m) Q"
proof -
  have "ensures P R (\<lambda>w. prim (op_open_append p (m AND NOT u)) w) Q" for u
    by (rule ens_prim) (rule assms)
  then have "ensures P R (\<lambda>w. (\<lambda>u. prim (op_open_append p (m AND NOT u))) (w_umask w) w) Q"
    by (rule ensures_world)
  then show ?thesis by (simp add: OpenAppend_def [abs_def])
qed

end

lemma frame_OpenAppend: "p \<noteq> q \<Longrightarrow> ensures P (unchanged q) (OpenAppend p m) (\<lambda>_ _. True)"
  by (rule uc.ens_OpenAppend) (auto simp: unchanged_def dest: op_lookup)

lemma frame_AppendIO: "p \<noteq> q \<Longrightarrow> ensures P (unchanged q) (AppendIO p d) (\<lambda>_ _. True)"
  by (rule uc.ens_AppendIO) (auto simp: unchanged_def dest: op_lookup)


subsection \<open>Invariants of a run\<close>

definition keeps :: "(fs \<Rightarrow> bool) \<Rightarrow> fs \<Rightarrow> fs \<Rightarrow> bool" where
  "keeps I s t \<longleftrightarrow> (I s \<longrightarrow> I t)"

interpretation kp: guarantee "keeps I" for I
  by unfold_locales (simp_all add: keeps_def)

lemma ensures_conj:
  assumes "ensures P R f Q" and "ensures P R' f Q'"
  shows "ensures P (\<lambda>s t. R s t \<and> R' s t) f (\<lambda>x s. Q x s \<and> Q' x s)"
  unfolding ensures_def
proof (intro allI impI conjI)
  fix w :: world assume "P (w_fs w)"
  then have "evolves R w (snd (f w))" "evolves R' w (snd (f w))"
    using assms unfolding ensures_def by blast+
  then show "evolves (\<lambda>s t. R s t \<and> R' s t) w (snd (f w))" unfolding evolves_def by auto
qed (use assms in \<open>auto simp: ensures_def\<close>)

lemma unchanged_keeps:
  assumes "ensures P (unchanged q) f Q"
  shows "ensures P (keeps (\<lambda>s. F (lookup s q))) f Q"
  using assms by (rule ensures_mono) (simp add: unchanged_def keeps_def)

lemma unchanged2_keeps:
  assumes "ensures P (unchanged q) f Q" and "ensures P (unchanged r) f Q'"
  shows "ensures P (keeps (\<lambda>s. F (lookup s q) (lookup s r))) f (\<lambda>x s. Q x s \<and> Q' x s)"
  using ensures_conj [OF assms] by (rule ensures_mono) (simp add: unchanged_def keeps_def)

text \<open>An invariant holds in every state a run passes through.\<close>

lemma keeps_seen:
  assumes "ensures P (keeps I) f Q" and "P (w_fs w)" and "I (w_fs w)" and "w_seen w = []" and "f w = (r, w')"
  shows "I (w_fs w') \<and> (\<forall>s\<in>set (w_seen w'). I s)"
  using ensuresD(1) [OF assms(1,2,5)] assms(3,4) by (auto simp: evolves_def keeps_def)


subsection \<open>Preserved predicates\<close>

text \<open>A predicate on trees that no step of a run makes false, whether the run fails or not.\<close>

definition preserves :: "(fs \<Rightarrow> bool) \<Rightarrow> ('e, 'a) io \<Rightarrow> bool" where
  "preserves I f \<longleftrightarrow> ensures I (keeps I) f (\<lambda>_. I)"

named_theorems preserves

lemma preservesI:
  assumes "ensures I (keeps I) f (\<lambda>_ _. True)"
  shows "preserves I f"
  using assms by (auto simp: preserves_def ensures_def evolves_def keeps_def)

lemma pr_quiet: "quiet f \<Longrightarrow> preserves I f"
  unfolding preserves_def by (rule kp.ens_quiet)

lemma pr_bind [preserves]: "preserves I f \<Longrightarrow> (\<And>x. preserves I (g x)) \<Longrightarrow> preserves I (bindIO f g)"
  unfolding preserves_def by (rule kp.ens_bind)

lemma pr_wrap [preserves]: "preserves I f \<Longrightarrow> preserves I (wrapIO h f)"
  unfolding preserves_def by (rule ensures_wrap)

lemma pr_os [preserves]: "preserves I f \<Longrightarrow> preserves I (osIO f)"
  unfolding preserves_def by (rule ens_osIO)

lemma pr_try [preserves]: "preserves I f \<Longrightarrow> preserves I (tryIO f)"
  by (rule preservesI) (auto simp: preserves_def intro: kp.ens_try)

lemma pr_defer [preserves]: "preserves I f \<Longrightarrow> quiet c \<Longrightarrow> preserves I (deferIO c f)"
  unfolding preserves_def by (rule ens_defer_quiet)

lemma pr_for [preserves]: "(\<And>x. x \<in> set xs \<Longrightarrow> preserves I (f x)) \<Longrightarrow> preserves I (forIO f xs)"
  unfolding preserves_def by (rule kp.ens_for)

lemma pr_fold [preserves]: "(\<And>s x. x \<in> set xs \<Longrightarrow> preserves I (f s x)) \<Longrightarrow> preserves I (foldIO f s xs)"
  unfolding preserves_def by (rule kp.ens_fold)

lemma pr_cases [preserves]:
  "(b \<Longrightarrow> preserves I f) \<Longrightarrow> (\<not> b \<Longrightarrow> preserves I g) \<Longrightarrow> preserves I (if b then f else g)"
  "(x = None \<Longrightarrow> preserves I f) \<Longrightarrow> (\<And>y. x = Some y \<Longrightarrow> preserves I (h y)) \<Longrightarrow>
     preserves I (case x of None \<Rightarrow> f | Some y \<Rightarrow> h y)"
  "(\<And>a b. preserves I (k a b)) \<Longrightarrow> preserves I (case p of (a, b) \<Rightarrow> k a b)"
  "(\<And>e. r = Inl e \<Longrightarrow> preserves I (l e)) \<Longrightarrow> (\<And>y. r = Inr y \<Longrightarrow> preserves I (n y)) \<Longrightarrow>
     preserves I (case r of Inl e \<Rightarrow> l e | Inr y \<Rightarrow> n y)"
  "(\<And>y. y = z \<Longrightarrow> preserves I (o' y)) \<Longrightarrow> preserves I (let y = z in o' y)"
  by (simp_all split: option.split prod.split sum.split)

lemmas pr_quiet_steps [preserves] =
  pr_quiet [OF quiet_return] pr_quiet [OF quiet_throw] pr_quiet [OF quiet_lift] pr_quiet [OF quiet_Entropy]
  pr_quiet [OF quiet_Now] pr_quiet [OF quiet_ReadFile] pr_quiet [OF quiet_Stat] pr_quiet [OF quiet_Close]
  pr_quiet [OF quiet_libIO]

lemma pr_frame:
  assumes "ensures (\<lambda>_. True) (unchanged q) f (\<lambda>_ _. True)"
  shows "preserves (\<lambda>s. F (lookup s q)) f"
  by (rule preservesI) (rule unchanged_keeps [OF ens_pre [OF assms TrueI]])

lemma pr_prim: "(\<And>s s'. I s \<Longrightarrow> op s = Inr s' \<Longrightarrow> I s') \<Longrightarrow> preserves I (prim op)"
  unfolding preserves_def by (rule kp.ens_prim) (simp add: keeps_def)

lemma pr_seen:
  assumes "preserves I f" and "I (w_fs w)" and "w_seen w = []" and "f w = (r, w')"
  shows "I (w_fs w') \<and> (\<forall>s\<in>set (w_seen w'). I s)"
  using keeps_seen [OF assms(1) [unfolded preserves_def] assms(2) assms(2,3,4)] .

text \<open>Creating directories.\<close>

lemma pr_MkdirAll_step:
  assumes "\<And>p m s s'. I s \<Longrightarrow> op_create p (Dir m) s = Inr s' \<Longrightarrow> I s'"
  shows "preserves I (MkdirAll p m)"
  unfolding MkdirAll_def
proof (rule pr_for)
  fix k
  have "preserves I (\<lambda>w. prim (op_create (take k p) (Dir (m AND NOT u))) w)" for u
    using assms by (rule pr_prim)
  then have "preserves I (Mkdir (take k p) m)"
    unfolding preserves_def Mkdir_def [abs_def]
    using ensures_world [where f = "\<lambda>u. prim (op_create (take k p) (Dir (m AND NOT u)))" and g = w_umask] by blast
  then show "preserves I (mkdir_one m (take k p))"
    unfolding preserves_def ensures_def
    by (auto simp: mkdir_one_def kp.evolves_refl split: option.split node.split)
qed

lemma pr_MkdirAll:
  assumes "\<And>s. I s \<Longrightarrow> lookup s q \<noteq> None" and "\<And>s s'. I s \<Longrightarrow> lookup s' q = lookup s q \<Longrightarrow> I s'"
  shows "preserves I (MkdirAll p m)"
proof (rule pr_MkdirAll_step)
  fix p m s s' assume s: "I s" "op_create p (Dir m) s = Inr s'"
  then have "lookup s' q = lookup s q" using assms(1) [OF s(1)] by (auto dest!: op_create_lookup)
  with s(1) show "I s'" by (rule assms(2))
qed

subsection \<open>Steps under a relation and a condition\<close>

text \<open>
  The same for any guarantee \<open>R\<close> and a condition \<open>P\<close> that holds between the steps of a run, but not
  necessarily in the states a failing step leaves.
\<close>

definition steps :: "(fs \<Rightarrow> bool) \<Rightarrow> (fs \<Rightarrow> fs \<Rightarrow> bool) \<Rightarrow> ('e, 'a) io \<Rightarrow> bool" where
  "steps P R f \<longleftrightarrow> guarantee R \<and> ensures P R f (\<lambda>_. P)"

named_theorems steps

lemma st_quiet: "guarantee R \<Longrightarrow> quiet f \<Longrightarrow> steps P R f"
  by (simp add: steps_def guarantee.ens_quiet)

lemma st_bind [steps]: "steps P R f \<Longrightarrow> (\<And>x. steps P R (g x)) \<Longrightarrow> steps P R (bindIO f g)"
  by (auto simp: steps_def intro: guarantee.ens_bind)

lemma st_wrap [steps]: "steps P R f \<Longrightarrow> steps P R (wrapIO h f)"
  by (simp add: steps_def ensures_wrap)

lemma st_os [steps]: "steps P R f \<Longrightarrow> steps P R (osIO f)"
  by (simp add: steps_def ens_osIO)

lemma st_for [steps]: "guarantee R \<Longrightarrow> (\<And>x. x \<in> set xs \<Longrightarrow> steps P R (f x)) \<Longrightarrow> steps P R (forIO f xs)"
  by (auto simp: steps_def intro: guarantee.ens_for)

lemma st_fold [steps]: "guarantee R \<Longrightarrow> (\<And>s x. x \<in> set xs \<Longrightarrow> steps P R (f s x)) \<Longrightarrow> steps P R (foldIO f s xs)"
  by (auto simp: steps_def intro: guarantee.ens_fold)

lemma st_cases [steps]:
  "(b \<Longrightarrow> steps P R f) \<Longrightarrow> (\<not> b \<Longrightarrow> steps P R g) \<Longrightarrow> steps P R (if b then f else g)"
  "(x = None \<Longrightarrow> steps P R f) \<Longrightarrow> (\<And>y. x = Some y \<Longrightarrow> steps P R (h y)) \<Longrightarrow>
     steps P R (case x of None \<Rightarrow> f | Some y \<Rightarrow> h y)"
  "(\<And>a b. steps P R (k a b)) \<Longrightarrow> steps P R (case p of (a, b) \<Rightarrow> k a b)"
  "(\<And>e. r = Inl e \<Longrightarrow> steps P R (l e)) \<Longrightarrow> (\<And>y. r = Inr y \<Longrightarrow> steps P R (n y)) \<Longrightarrow>
     steps P R (case r of Inl e \<Rightarrow> l e | Inr y \<Rightarrow> n y)"
  "(\<And>y. y = z \<Longrightarrow> steps P R (o' y)) \<Longrightarrow> steps P R (let y = z in o' y)"
  by (simp_all split: option.split prod.split sum.split)

lemmas st_quiet_steps [steps] =
  st_quiet [OF _ quiet_return] st_quiet [OF _ quiet_throw] st_quiet [OF _ quiet_lift] st_quiet [OF _ quiet_Entropy]
  st_quiet [OF _ quiet_Now] st_quiet [OF _ quiet_ReadFile] st_quiet [OF _ quiet_Stat] st_quiet [OF _ quiet_Close]
  st_quiet [OF _ quiet_libIO] st_quiet [OF _ quiet_try [OF quiet_ReadFile]]

lemma st_MkdirAll:
  assumes "guarantee R" and "\<And>p m s s'. P s \<Longrightarrow> op_create p (Dir m) s = Inr s' \<Longrightarrow> R s s' \<and> P s'"
  shows "steps P R (MkdirAll p m)"
  unfolding MkdirAll_def
proof (rule st_for [OF assms(1)])
  fix k
  have "ensures P R (\<lambda>w. prim (op_create (take k p) (Dir (m AND NOT u))) w) (\<lambda>_. P)" for u
    using assms by (auto intro: guarantee.ens_prim)
  then have "ensures P R (Mkdir (take k p) m) (\<lambda>_. P)"
    unfolding Mkdir_def [abs_def]
    using ensures_world [where f = "\<lambda>u. prim (op_create (take k p) (Dir (m AND NOT u)))" and g = w_umask] by blast
  then show "steps P R (mkdir_one m (take k p))"
    using assms(1) unfolding steps_def ensures_def
    by (auto simp: mkdir_one_def guarantee.evolves_refl split: option.split node.split)
qed

lemma st_seen:
  assumes "steps P R f" and "P (w_fs w)" and "w_seen w = []" and "f w = (r, w')"
  shows "R (w_fs w) (w_fs w') \<and> (\<forall>s\<in>set (w_seen w'). R (w_fs w) s)"
  using ensuresD(1) [of P R f _ w r w'] assms by (auto simp: steps_def evolves_def)

text \<open>A whole file written to a path, and nothing else.\<close>

lemma st_WriteFile:
  assumes "guarantee R"
    and step: "\<And>s s'. P s \<Longrightarrow> (\<And>q. q \<noteq> p \<Longrightarrow> lookup s' q = lookup s q) \<Longrightarrow> is_reg s' p \<Longrightarrow> R s s' \<and> P s'"
  shows "steps P R (WriteFile p d m)"
proof -
  have "ensures P R (\<lambda>w. bindIO (prim (op_open_trunc p (m AND NOT u)))
      (\<lambda>_. bindIO (WriteIO p d) (\<lambda>_. CloseIO)) w) (\<lambda>_. P)" for u
  proof (intro guarantee.ens_bind [OF assms(1), where M = "\<lambda>_. P"] guarantee.ens_prim [OF assms(1)]
      guarantee.ens_WriteIO [OF assms(1)])
    fix s s' assume "P s" "op_open_trunc p (m AND NOT u) s = Inr s'"
    then show "R s s' \<and> P s'" by (intro step) (auto simp: is_reg_def dest!: op_open_trunc_lookup)
  next
    fix s s' e assume "P s" "op_write p e s = Inr s'"
    then have "R s s' \<and> P s'" by (intro step) (auto simp: is_reg_def dest!: op_write_lookup)
    then show "R s s' \<and> (e = d \<longrightarrow> P s')" by simp
  next
    show "ensures P R CloseIO (\<lambda>_. P)" by (intro guarantee.ens_quiet [OF assms(1)] quiet)
  qed
  then have "ensures P R (\<lambda>w. (\<lambda>u. bindIO (prim (op_open_trunc p (m AND NOT u)))
      (\<lambda>_. bindIO (WriteIO p d) (\<lambda>_. CloseIO))) (w_umask w) w) (\<lambda>_. P)"
    by (rule ensures_world)
  then show ?thesis using assms(1) by (simp add: steps_def WriteFile_def [abs_def])
qed

end
