(* ===== verification/Fleet.thy ===== *)
theory Fleet
  imports Prelude
begin

section \<open>The cabinet inventory\<close>

text \<open>
  Package internal/fleet: the inventory of field cabinets and its structural validation. The
  partition a cabinet names is resolved later, by plan.AttachCabinets and by the issuer.
\<close>

record Cabinet =
  cab_ID :: string
  cab_Partition :: string
  cab_Filter :: string

record Inventory =
  inv_DOT :: string
  inv_Cabinets :: "Cabinet list"

datatype fleet_error =
    InventoryUnreadable | InventoryMalformed | InventoryDotEmpty
  | CabinetIdEmpty nat | CabinetPartitionEmpty string | DuplicateCabinet string

datatype inventory_file = NoInventory | BadInventory | InventoryRead Inventory
  \<comment> \<open>what os.ReadFile and json.Unmarshal make of the file\<close>

definition check_cabinet :: "unit gomap \<Rightarrow> nat \<times> Cabinet \<Rightarrow> fleet_error + unit gomap" where
  "check_cabinet seen ic =
     bindE (guardE (cab_ID (snd ic) = []) (CabinetIdEmpty (fst ic))) (\<lambda>_.
     bindE (guardE (cab_Partition (snd ic) = []) (CabinetPartitionEmpty (cab_ID (snd ic)))) (\<lambda>_.
     bindE (guardE (map_of seen (cab_ID (snd ic)) \<noteq> None) (DuplicateCabinet (cab_ID (snd ic)))) (\<lambda>_.
     Inr (AList.update (cab_ID (snd ic)) () seen))))"

definition LoadInventory :: "inventory_file \<Rightarrow> fleet_error + Inventory" where
  "LoadInventory f =
     (case f of
        NoInventory \<Rightarrow> Inl InventoryUnreadable
      | BadInventory \<Rightarrow> Inl InventoryMalformed
      | InventoryRead iv \<Rightarrow>
          bindE (guardE (inv_DOT iv = []) InventoryDotEmpty) (\<lambda>_.
          bindE (foldE check_cabinet [] (enumerate 0 (inv_Cabinets iv))) (\<lambda>_. Inr iv)))"

text \<open>The invariant that loading establishes and the plan and the issuer rely on.\<close>

definition wf_inventory :: "Inventory \<Rightarrow> bool" where
  "wf_inventory iv \<longleftrightarrow> inv_DOT iv \<noteq> [] \<and> distinct (map cab_ID (inv_Cabinets iv)) \<and>
     (\<forall>c\<in>set (inv_Cabinets iv). cab_ID c \<noteq> [] \<and> cab_Partition c \<noteq> [])"

definition cabinet_entry :: "nat \<times> Cabinet \<Rightarrow> (string \<times> unit) option" where
  "cabinet_entry ic = (if cab_ID (snd ic) = [] \<or> cab_Partition (snd ic) = [] then None else Some (cab_ID (snd ic), ()))"

lemma check_cabinets_iff:
  "(\<exists>m. foldE check_cabinet [] (enumerate n cs) = Inr m) \<longleftrightarrow>
     distinct (map cab_ID cs) \<and> (\<forall>c\<in>set cs. cab_ID c \<noteq> [] \<and> cab_Partition c \<noteq> [])"
proof -
  have step: "check_cabinet m x = Inr m' \<longleftrightarrow>
      (\<exists>k v. cabinet_entry x = Some (k, v) \<and> map_of m k = None \<and> m' = AList.update k v m)" for m x m'
    by (cases "map_of m (cab_ID (snd x))") (auto simp: check_cabinet_def cabinet_entry_def)
  have entries: "(\<exists>m. map cabinet_entry (enumerate n cs) = map Some m \<and> distinct (map fst m)) \<longleftrightarrow>
      (\<forall>x\<in>set (enumerate n cs). cabinet_entry x \<noteq> None) \<and>
      distinct (map (\<lambda>x. fst (the (cabinet_entry x))) (enumerate n cs))" (is "?L \<longleftrightarrow> ?R")
  proof
    assume ?L
    then obtain m where m: "map cabinet_entry (enumerate n cs) = map Some m" "distinct (map fst m)" by blast
    have "map (\<lambda>x. fst (the (cabinet_entry x))) (enumerate n cs) = map (\<lambda>y. fst (the y)) (map Some m)"
      unfolding m(1) [symmetric] by simp
    moreover have "cabinet_entry x \<noteq> None" if "x \<in> set (enumerate n cs)" for x
    proof -
      from that have "cabinet_entry x \<in> set (map cabinet_entry (enumerate n cs))" by simp
      then show ?thesis unfolding m(1) by auto
    qed
    ultimately show ?R using m(2) by (auto simp: comp_def)
  next
    assume R: ?R
    then show ?L
      by (intro exI [of _ "map (\<lambda>x. the (cabinet_entry x)) (enumerate n cs)"]) (auto simp: comp_def)
  qed
  have "distinct (map (\<lambda>x. fst (the (cabinet_entry x))) (enumerate n cs)) \<longleftrightarrow> distinct (map cab_ID cs)"
    if "\<forall>x\<in>set (enumerate n cs). cabinet_entry x \<noteq> None"
  proof -
    have "map (\<lambda>x. fst (the (cabinet_entry x))) (enumerate n cs) = map (\<lambda>x. cab_ID (snd x)) (enumerate n cs)"
      using that by (intro map_cong refl) (auto simp: cabinet_entry_def split: if_splits)
    then show ?thesis by (simp add: map_over_enumerate)
  qed
  moreover have "(\<forall>x\<in>set (enumerate n cs). cabinet_entry x \<noteq> None) \<longleftrightarrow>
      (\<forall>c\<in>set cs. cab_ID c \<noteq> [] \<and> cab_Partition c \<noteq> [])"
    by (subst ball_enumerate [of n cs, symmetric]) (auto simp: cabinet_entry_def)
  ultimately show ?thesis
    unfolding checked_index_alist [where step = check_cabinet and kv = cabinet_entry, OF step] entries by blast
qed

lemma LoadInventory_result: "LoadInventory f = Inr iv \<longleftrightarrow> f = InventoryRead iv \<and> wf_inventory iv"
  using check_cabinets_iff [of 0 "inv_Cabinets iv"]
  by (cases f) (auto simp: LoadInventory_def wf_inventory_def)

text \<open>An inventory for the example topology.\<close>

definition ex_inventory :: Inventory where
  "ex_inventory =
     \<lparr>inv_DOT = ''exdot'', inv_Cabinets =
       [\<lparr>cab_ID = ''c2'', cab_Partition = ''d7/0'', cab_Filter = ''vikasa.exdot.d7.*.speed''\<rparr>,
        \<lparr>cab_ID = ''c1'', cab_Partition = ''d7/0'', cab_Filter = []\<rparr>,
        \<lparr>cab_ID = ''c3'', cab_Partition = ''d7/1'', cab_Filter = []\<rparr>]\<rparr>"

lemma ex_inventory_wf: "wf_inventory ex_inventory"
  by (simp add: wf_inventory_def ex_inventory_def)

subsection \<open>Properties\<close>

text \<open>
  Loading an inventory: it is accepted, and returned as read, exactly when its DOT is not
  empty, every cabinet has an id and a partition, and no id occurs twice.
\<close>

theorem LoadInventory_accepts:
  "LoadInventory (InventoryRead iv) = Inr iv' \<longleftrightarrow>
     iv' = iv \<and> inv_DOT iv \<noteq> [] \<and> distinct (map cab_ID (inv_Cabinets iv)) \<and>
     list_all (\<lambda>c. cab_ID c \<noteq> [] \<and> cab_Partition c \<noteq> []) (inv_Cabinets iv)"
  by (auto simp: LoadInventory_result wf_inventory_def list_all_iff)

end
