(* ===== verification/CredHealth.thy ===== *)
theory CredHealth
  imports Go_Strings Fleet "HOL-Library.Word"
begin

section \<open>Credential health\<close>

text \<open>
  Package internal/credhealth and the parts of cmd/issue that act on it: which files of a
  credential bundle are time-bound artifacts, how their expiry is classified, the report of a scan
  with its exit code, the selection of cabinets to rotate and the escaping of metric labels.

  An instant is the number of nanoseconds since the epoch, a duration a 64-bit number of
  nanoseconds; \<open>time_sub\<close> is Go's saturating subtraction of instants. The claims of a JWT hold Unix
  times as int64, and \<open>time_Unix\<close> makes instants of them with the overflow of package time. The walk of the directory is
  the list of its entries in visiting order. The functions of github.com/nats-io/jwt and the PEM and
  X.509 decoders are parameters, the fields of \<open>artifact_lib\<close>: each gives its result on a file's
  content, or the error text. \<open>TrimSpace\<close> removes ASCII white space, which is all a JWT is
  surrounded by.
\<close>

datatype Status = StatusOK | StatusExpiring | StatusExpired | StatusNoExpiry | StatusError

record Record =
  r_Kind :: string
  r_Identity :: string
  r_Path :: string
  r_Issued :: "int option" \<comment> \<open>\<open>None\<close> is the zero time\<close>
  r_Expiry :: "int option"
  r_Status :: Status
  r_Err :: string

record Report =
  rp_Records :: "Record list"
  rp_Counts :: "Status \<Rightarrow> nat"

record jwt_claims =
  jc_Name :: string
  jc_Subject :: string
  jc_IssuedAt :: "64 word" \<comment> \<open>int64, read by \<open>sint\<close>\<close>
  jc_Expires :: "64 word"

record cert_meta =
  cm_CommonName :: string
  cm_NotBefore :: int
  cm_NotAfter :: int

record artifact_lib =
  ParseDecoratedJWT :: "string \<Rightarrow> string + string"
  jwt_Decode :: "string \<Rightarrow> string + jwt_claims"
  pem_Decode :: "string \<Rightarrow> (string \<times> string) option" \<comment> \<open>type and bytes of the first block\<close>
  ParseCertificate :: "string \<Rightarrow> string + cert_meta"

datatype walk_entry =
    WalkError string \<comment> \<open>an entry the walk cannot stat\<close>
  | WalkDirectory string
  | WalkFile string "string + string" \<comment> \<open>relative path; reading gives an error text or the content\<close>

datatype scan_error = ScanStat string | ScanNotDirectory | ScanWalk string

subsection \<open>Classification\<close>

definition maxDuration :: int where "maxDuration = 2 ^ 63 - 1"

definition minDuration :: int where "minDuration = - (2 ^ 63)"

definition time_sub :: "int \<Rightarrow> int \<Rightarrow> int" where
  "time_sub t u = (if t - u > maxDuration then maxDuration
     else if t - u < minDuration then minDuration else t - u)"

definition second :: int where "second = 1000000000"

text \<open>
  Package time counts the seconds of an instant from year 1 in an int64. \<^theory_text>\<open>time.Unix(sec, 0)\<close> adds the
  offset of the Unix epoch to its argument, and that addition wraps around.
\<close>

definition unixToInternal :: "64 word" where "unixToInternal = 62135596800"

definition time_Unix :: "64 word \<Rightarrow> int" where
  "time_Unix sec = (sint (sec + unixToInternal) - sint unixToInternal) * second"

definition zero_time :: int where
  \<comment> \<open>the first instant of year 1, the zero value of \<^theory_text>\<open>time.Time\<close>\<close>
  "zero_time = - 62135596800 * second"

definition classify :: "int option \<Rightarrow> int \<Rightarrow> int \<Rightarrow> Status" where
  "classify expiry now warn =
     (case expiry of
        None \<Rightarrow> StatusNoExpiry
      | Some e \<Rightarrow>
          if \<not> now < e then StatusExpired
          else if time_sub e now \<le> warn then StatusExpiring
          else StatusOK)"

subsection \<open>Records\<close>

definition error_record :: "string \<Rightarrow> string \<Rightarrow> string \<Rightarrow> Record" where
  "error_record kind rel err =
     \<lparr>r_Kind = kind, r_Identity = [], r_Path = rel, r_Issued = None, r_Expiry = None,
      r_Status = StatusError, r_Err = err\<rparr>"

definition jwtRecord ::
    "artifact_lib \<Rightarrow> string + string \<Rightarrow> string \<Rightarrow> string \<Rightarrow> int \<Rightarrow> int \<Rightarrow> Record" where
  "jwtRecord lib file rel kind now warn =
     (case bindE file (\<lambda>data.
           bindE (ParseDecoratedJWT lib data) (\<lambda>token.
           jwt_Decode lib (TrimSpace token))) of
        Inl err \<Rightarrow> error_record kind rel err
      | Inr cd \<Rightarrow>
          let expiry = (if jc_Expires cd \<noteq> 0 then Some (time_Unix (jc_Expires cd)) else None) in
          \<lparr>r_Kind = kind,
           r_Identity = (if jc_Name cd = [] then jc_Subject cd else jc_Name cd),
           r_Path = rel,
           r_Issued = (if jc_IssuedAt cd \<noteq> 0 then Some (time_Unix (jc_IssuedAt cd)) else None),
           r_Expiry = expiry, r_Status = classify expiry now warn, r_Err = []\<rparr>)"

definition certRecord ::
    "artifact_lib \<Rightarrow> string + string \<Rightarrow> string \<Rightarrow> string \<Rightarrow> int \<Rightarrow> int \<Rightarrow> Record" where
  "certRecord lib file rel kind now warn =
     (case bindE file (\<lambda>data.
           case pem_Decode lib data of
             None \<Rightarrow> Inl ''invalid certificate PEM''
           | Some blk \<Rightarrow>
               if fst blk \<noteq> ''CERTIFICATE'' then Inl ''invalid certificate PEM''
               else ParseCertificate lib (snd blk)) of
        Inl err \<Rightarrow> error_record kind rel err
      | Inr cert \<Rightarrow>
          \<lparr>r_Kind = kind, r_Identity = cm_CommonName cert, r_Path = rel,
           r_Issued = Some (cm_NotBefore cert), r_Expiry = Some (cm_NotAfter cert),
           r_Status = classify (Some (cm_NotAfter cert)) now warn, r_Err = []\<rparr>)"

definition recordFor ::
    "artifact_lib \<Rightarrow> string \<Rightarrow> string + string \<Rightarrow> int \<Rightarrow> int \<Rightarrow> Record option" where
  "recordFor lib rel data now warn =
     (if rel = ''operator.jwt'' then Some (jwtRecord lib data rel ''operator'' now warn)
      else if HasPrefix rel ''resolver/'' \<and> HasSuffix rel ''.jwt''
      then Some (jwtRecord lib data rel ''account'' now warn)
      else if rel = ''ca/cabinet-ca.crt'' then Some (certRecord lib data rel ''ca-cert'' now warn)
      else if HasPrefix rel ''cabinets/'' \<and> HasSuffix rel ''.creds''
      then Some (jwtRecord lib data rel ''user'' now warn)
      else if HasPrefix rel ''cabinets/'' \<and> HasSuffix rel ''.crt''
      then Some (certRecord lib data rel ''cert'' now warn)
      else None)"

subsection \<open>Scan\<close>

fun walk_step :: "artifact_lib \<Rightarrow> int \<Rightarrow> int \<Rightarrow> Record list \<Rightarrow> walk_entry \<Rightarrow> scan_error + Record list" where
  "walk_step lib now warn records (WalkError err) = Inl (ScanWalk err)"
| "walk_step lib now warn records (WalkDirectory d) = Inr records"
| "walk_step lib now warn records (WalkFile rel data) =
     (case recordFor lib rel data now warn of
        None \<Rightarrow> Inr records
      | Some rec \<Rightarrow> Inr (records @ [rec]))"

definition record_order :: "Record \<Rightarrow> string \<times> string \<times> string" where
  "record_order r = (r_Kind r, r_Identity r, r_Path r)"

datatype bundle_dir = StatFails string | NotDirectory | BundleDir "walk_entry list"
  \<comment> \<open>what os.Stat and filepath.WalkDir find at the path\<close>

definition count_statuses :: "Record list \<Rightarrow> Status \<Rightarrow> nat" where
  \<comment> \<open>\<^theory_text>\<open>for _, r := range records { counts[r.Status]++ }\<close>; a missing key reads as 0\<close>
  "count_statuses rs = foldl (\<lambda>counts r. counts(r_Status r := counts (r_Status r) + 1)) (\<lambda>_. 0) rs"

definition Scan :: "artifact_lib \<Rightarrow> bundle_dir \<Rightarrow> int \<Rightarrow> int \<Rightarrow> scan_error + Report" where
  "Scan lib d now warn =
     (case d of
        StatFails err \<Rightarrow> Inl (ScanStat err)
      | NotDirectory \<Rightarrow> Inl ScanNotDirectory
      | BundleDir entries \<Rightarrow>
          bindE (foldE (walk_step lib now warn) [] entries) (\<lambda>records.
            let sorted_records = sort_key record_order records in
            Inr \<lparr>rp_Records = sorted_records,
                 rp_Counts = count_statuses sorted_records\<rparr>))"

definition Healthy :: "Report \<Rightarrow> bool" where
  "Healthy r \<longleftrightarrow> rp_Counts r StatusExpired = 0 \<and> rp_Counts r StatusExpiring = 0 \<and> rp_Counts r StatusError = 0"

definition ExitCode :: "Report \<Rightarrow> nat" where
  "ExitCode r = (if Healthy r then 0 else 1)"

subsection \<open>Selecting cabinets to rotate\<close>

fun select_step ::
    "string list \<Rightarrow> string list \<times> string list \<times> string list \<Rightarrow> Record \<Rightarrow> string list \<times> string list \<times> string list" where
  "select_step inInv (seen, selected, skipped) r =
     (if r_Kind r \<noteq> ''user'' \<and> r_Kind r \<noteq> ''cert'' then (seen, selected, skipped)
      else if r_Status r \<noteq> StatusExpiring \<and> r_Status r \<noteq> StatusExpired then (seen, selected, skipped)
      else if r_Identity r = [] then (seen, selected, skipped)
      else if r_Identity r \<in> set seen then (seen, selected, skipped)
      else if r_Identity r \<in> set inInv then (r_Identity r # seen, selected @ [r_Identity r], skipped)
      else (r_Identity r # seen, selected, skipped @ [r_Identity r]))"

definition selectExpiring ::
    "artifact_lib \<Rightarrow> bundle_dir \<Rightarrow> int \<Rightarrow> int \<Rightarrow> Inventory option \<Rightarrow> scan_error + (string list \<times> string list)" where
  "selectExpiring lib d window now iv =
     bindE (Scan lib d now window) (\<lambda>report.
       let inInv = (case iv of None \<Rightarrow> [] | Some i \<Rightarrow> map cab_ID (inv_Cabinets i));
           (seen, selected, skipped) = foldl (select_step inInv) ([], [], []) (rp_Records report)
       in Inr (sort selected, sort skipped))"

definition unionStrings :: "string list \<Rightarrow> string list \<Rightarrow> string list" where
  "unionStrings a b = sortedKeys (fold (\<lambda>s. AList.update s ()) (a @ b) [])"

subsection \<open>Metric labels\<close>

definition escape_char :: "char \<Rightarrow> string" where
  "escape_char c = (if c = CHR 0x5C then [CHR 0x5C, CHR 0x5C]
     else if c = CHR 0x22 then [CHR 0x5C, CHR 0x22]
     else if c = newline then [CHR 0x5C, CHR ''n''] else [c])"

definition escapeLabel :: "string \<Rightarrow> string" where
  "escapeLabel s = concat (map escape_char s)"

subsection \<open>What the classification and the records are\<close>

text \<open>The artifacts the scan knows: the kind of a path, and whether it holds a JWT.\<close>

definition artifact :: "string \<Rightarrow> (string \<times> bool) option" where
  "artifact rel =
     (if rel = ''operator.jwt'' then Some (''operator'', True)
      else if HasPrefix rel ''resolver/'' \<and> HasSuffix rel ''.jwt'' then Some (''account'', True)
      else if rel = ''ca/cabinet-ca.crt'' then Some (''ca-cert'', False)
      else if HasPrefix rel ''cabinets/'' \<and> HasSuffix rel ''.creds'' then Some (''user'', True)
      else if HasPrefix rel ''cabinets/'' \<and> HasSuffix rel ''.crt'' then Some (''cert'', False)
      else None)"

text \<open>
  The instant a Unix time stands for in the program: its own, unless the seconds since year 1 exceed an
  int64, when it is 2 to the 64 seconds earlier, long before the present.
\<close>

definition unix_instant :: "int \<Rightarrow> int" where
  "unix_instant sec = (if sec \<le> 2 ^ 63 - 1 - 62135596800 then sec else sec - 2 ^ 64) * second"

lemma time_Unix_instant: "time_Unix sec = unix_instant (sint sec)"
proof -
  have range: "- (2 ^ 63) \<le> sint sec" "sint sec < 2 ^ 63"
    using sint_greater_eq [of sec] sint_less [of sec] by simp_all
  have offset: "sint unixToInternal = 62135596800" by (simp add: unixToInternal_def)
  have "sint (sec + unixToInternal) = (sint sec + 62135596800 + 2 ^ 63) mod 2 ^ 64 - 2 ^ 63"
    by (simp add: sint_word_ariths offset signed_take_bit_eq_take_bit_shift take_bit_eq_mod)
  also have "\<dots> = (if sint sec \<le> 2 ^ 63 - 1 - 62135596800 then sint sec else sint sec - 2 ^ 64) + 62135596800"
  proof (cases "sint sec \<le> 2 ^ 63 - 1 - 62135596800")
    case True
    with range have "(sint sec + 62135596800 + 2 ^ 63) mod 2 ^ 64 = sint sec + 62135596800 + 2 ^ 63"
      by (intro mod_pos_pos_trivial) simp_all
    with True show ?thesis by simp
  next
    case False
    have "(sint sec + 62135596800 + 2 ^ 63) mod 2 ^ 64 = (sint sec + 62135596800 + 2 ^ 63 - 2 ^ 64) mod 2 ^ 64"
      by (rule minus_mod_self2 [symmetric])
    also have "\<dots> = sint sec + 62135596800 + 2 ^ 63 - 2 ^ 64"
      using False range by (intro mod_pos_pos_trivial) simp_all
    finally show ?thesis using False by simp
  qed
  finally show ?thesis by (simp add: time_Unix_def unix_instant_def offset)
qed

text \<open>So the latest expiries an int64 can hold count as expired at every instant since 1970.\<close>

lemma latest_expiry_expired:
  assumes "2 ^ 63 - 1 - 62135596800 < sint sec" and "0 \<le> now"
  shows "classify (Some (time_Unix sec)) now warn = StatusExpired"
proof -
  have "sint sec < 2 ^ 63" using sint_less [of sec] by simp
  then have "time_Unix sec < 0" using assms(1) by (simp add: time_Unix_instant unix_instant_def second_def)
  with assms(2) show ?thesis by (simp add: classify_def)
qed

text \<open>The identity and the expiry a file's content carries; \<open>None\<close> when it cannot be read as its kind.\<close>

definition jwt_facts :: "artifact_lib \<Rightarrow> string + string \<Rightarrow> (string \<times> int option) option" where
  "jwt_facts lib fd =
     (case bindE fd (\<lambda>data. bindE (ParseDecoratedJWT lib data) (\<lambda>token. jwt_Decode lib (TrimSpace token))) of
        Inl _ \<Rightarrow> None
      | Inr cd \<Rightarrow> Some (if jc_Name cd = [] then jc_Subject cd else jc_Name cd,
          if jc_Expires cd \<noteq> 0 then Some (unix_instant (sint (jc_Expires cd))) else None))"

definition cert_facts :: "artifact_lib \<Rightarrow> string + string \<Rightarrow> (string \<times> int option) option" where
  "cert_facts lib fd =
     (case fd of
        Inl _ \<Rightarrow> None
      | Inr data \<Rightarrow>
          (case pem_Decode lib data of
             None \<Rightarrow> None
           | Some blk \<Rightarrow>
               if fst blk \<noteq> ''CERTIFICATE'' then None
               else (case ParseCertificate lib (snd blk) of
                       Inl _ \<Rightarrow> None
                     | Inr cert \<Rightarrow> Some (cm_CommonName cert, Some (cm_NotAfter cert)))))"

definition facts :: "artifact_lib \<Rightarrow> bool \<Rightarrow> string + string \<Rightarrow> (string \<times> int option) option" where
  "facts lib is_jwt fd = (if is_jwt then jwt_facts lib fd else cert_facts lib fd)"

definition status_of :: "(string \<times> int option) option \<Rightarrow> int \<Rightarrow> int \<Rightarrow> Status" where
  "status_of f now warn = (case f of None \<Rightarrow> StatusError | Some (name, e) \<Rightarrow> classify e now warn)"

lemma jwtRecord_facts:
  "r_Kind (jwtRecord lib fd rel kind now warn) = kind"
  "r_Path (jwtRecord lib fd rel kind now warn) = rel"
  "r_Identity (jwtRecord lib fd rel kind now warn) =
     (case jwt_facts lib fd of None \<Rightarrow> [] | Some (name, e) \<Rightarrow> name)"
  "r_Status (jwtRecord lib fd rel kind now warn) = status_of (jwt_facts lib fd) now warn"
  by (cases "bindE fd (\<lambda>data. bindE (ParseDecoratedJWT lib data) (\<lambda>token. jwt_Decode lib (TrimSpace token)))";
      simp only: jwtRecord_def jwt_facts_def time_Unix_instant; simp add: error_record_def status_of_def Let_def)+

lemma certRecord_facts:
  "r_Kind (certRecord lib fd rel kind now warn) = kind"
  "r_Path (certRecord lib fd rel kind now warn) = rel"
  "r_Identity (certRecord lib fd rel kind now warn) =
     (case cert_facts lib fd of None \<Rightarrow> [] | Some (name, e) \<Rightarrow> name)"
  "r_Status (certRecord lib fd rel kind now warn) = status_of (cert_facts lib fd) now warn"
  by (auto simp: certRecord_def cert_facts_def error_record_def status_of_def bindE_def
      split: sum.split option.split)

lemma recordFor_artifact:
  "recordFor lib rel fd now warn = map_option (\<lambda>(kind, is_jwt).
     if is_jwt then jwtRecord lib fd rel kind now warn else certRecord lib fd rel kind now warn) (artifact rel)"
  by (simp add: recordFor_def artifact_def)

lemma recordFor_SomeD:
  assumes "recordFor lib rel fd now warn = Some r"
  obtains kind is_jwt where "artifact rel = Some (kind, is_jwt)" "r_Kind r = kind" "r_Path r = rel"
    "r_Identity r = (case facts lib is_jwt fd of None \<Rightarrow> [] | Some (name, e) \<Rightarrow> name)"
    "r_Status r = status_of (facts lib is_jwt fd) now warn"
proof -
  from assms obtain kind is_jwt where *: "artifact rel = Some (kind, is_jwt)"
    "r = (if is_jwt then jwtRecord lib fd rel kind now warn else certRecord lib fd rel kind now warn)"
    by (auto simp: recordFor_artifact)
  show thesis
    by (rule that [OF *(1)]) (simp_all add: *(2) facts_def jwtRecord_facts certRecord_facts)
qed

lemma classify_eq_OK:
  "warn < maxDuration \<Longrightarrow>
     classify e now warn = StatusOK \<longleftrightarrow> (\<exists>t. e = Some t \<and> now < t \<and> now + warn < t)"
  by (cases e) (auto simp: classify_def time_sub_def maxDuration_def minDuration_def)

lemma classify_NoExpiry [simp]: "classify e now warn = StatusNoExpiry \<longleftrightarrow> e = None"
  by (cases e) (simp_all add: classify_def)

lemma classify_not_Error [simp]: "classify e now warn \<noteq> StatusError"
  by (cases e) (simp_all add: classify_def)

text \<open>What the scan should report as needing no attention.\<close>

definition sound_file :: "artifact_lib \<Rightarrow> int \<Rightarrow> int \<Rightarrow> string \<Rightarrow> string + string \<Rightarrow> bool" where
  "sound_file lib now warn rel fd =
     (case artifact rel of
        None \<Rightarrow> True
      | Some (kind, is_jwt) \<Rightarrow>
          (case facts lib is_jwt fd of
             None \<Rightarrow> False
           | Some (name, None) \<Rightarrow> True
           | Some (name, Some t) \<Rightarrow> now < t \<and> now + warn < t))"

lemma sound_file_record:
  assumes "warn < maxDuration"
  shows "sound_file lib now warn rel fd \<longleftrightarrow>
     (\<forall>r. recordFor lib rel fd now warn = Some r \<longrightarrow> r_Status r = StatusOK \<or> r_Status r = StatusNoExpiry)"
proof (cases "artifact rel")
  case (Some p)
  obtain kind is_jwt where p: "p = (kind, is_jwt)" by (cases p)
  have "(\<exists>r. recordFor lib rel fd now warn = Some r \<and> r_Status r = status_of (facts lib is_jwt fd) now warn)"
    using Some p by (auto simp: recordFor_artifact facts_def jwtRecord_facts certRecord_facts)
  then have "(\<forall>r. recordFor lib rel fd now warn = Some r \<longrightarrow> r_Status r = StatusOK \<or> r_Status r = StatusNoExpiry) \<longleftrightarrow>
      status_of (facts lib is_jwt fd) now warn \<in> {StatusOK, StatusNoExpiry}"
    by auto
  also have "\<dots> \<longleftrightarrow> sound_file lib now warn rel fd"
    using Some p classify_eq_OK [OF assms] by (auto simp: sound_file_def status_of_def split: option.split)
  finally show ?thesis ..
qed (simp add: sound_file_def recordFor_artifact)

subsection \<open>The scan as a whole\<close>

fun entry_record :: "artifact_lib \<Rightarrow> int \<Rightarrow> int \<Rightarrow> walk_entry \<Rightarrow> Record option" where
  "entry_record lib now warn (WalkFile rel fd) = recordFor lib rel fd now warn"
| "entry_record lib now warn _ = None"

fun is_walk_error :: "walk_entry \<Rightarrow> bool" where
  "is_walk_error (WalkError err) = True"
| "is_walk_error _ = False"

definition records_of :: "artifact_lib \<Rightarrow> walk_entry list \<Rightarrow> int \<Rightarrow> int \<Rightarrow> Record list" where
  "records_of lib es now warn = List.map_filter (entry_record lib now warn) es"

lemma walk_entries:
  "foldE (walk_step lib now warn) acc es = Inr rs \<longleftrightarrow>
     list_all (\<lambda>e. \<not> is_walk_error e) es \<and> rs = acc @ records_of lib es now warn"
proof (induction es arbitrary: acc)
  case (Cons e es)
  then show ?case
  proof (cases e)
    case (WalkFile rel fd)
    with Cons show ?thesis
      by (cases "recordFor lib rel fd now warn") (auto simp: records_of_def map_filter_simps)
  qed (auto simp: records_of_def map_filter_simps)
qed (auto simp: records_of_def map_filter_simps)

lemma count_statuses_eq: "count_statuses rs s = length (filter (\<lambda>r. r_Status r = s) rs)"
  by (induction rs rule: rev_induct) (auto simp: count_statuses_def)

lemma Scan_result:
  "Scan lib d now warn = Inr rep \<longleftrightarrow>
     (\<exists>es. d = BundleDir es \<and> list_all (\<lambda>e. \<not> is_walk_error e) es \<and>
        rep = \<lparr>rp_Records = sort_key record_order (records_of lib es now warn),
               rp_Counts = count_statuses (sort_key record_order (records_of lib es now warn))\<rparr>)"
  by (cases d) (auto simp: Scan_def Let_def walk_entries)

lemma set_records_of:
  "r \<in> set (records_of lib es now warn) \<longleftrightarrow>
     (\<exists>rel fd. WalkFile rel fd \<in> set es \<and> recordFor lib rel fd now warn = Some r)"
proof -
  have mf: "r \<in> set (List.map_filter f es) \<longleftrightarrow> (\<exists>e\<in>set es. f e = Some r)" for f :: "walk_entry \<Rightarrow> Record option"
    by (induction es) (auto simp: map_filter_simps split: option.split)
  have "entry_record lib now warn e = Some r \<longleftrightarrow>
      (\<exists>rel fd. e = WalkFile rel fd \<and> recordFor lib rel fd now warn = Some r)" for e
    by (cases e) simp_all
  then have "(\<exists>e\<in>set es. entry_record lib now warn e = Some r) \<longleftrightarrow>
      (\<exists>rel fd. WalkFile rel fd \<in> set es \<and> recordFor lib rel fd now warn = Some r)"
    by (simp only:) blast
  then show ?thesis by (simp only: records_of_def mf)
qed

lemma Healthy_iff:
  assumes "Scan lib (BundleDir es) now warn = Inr rep" and "warn < maxDuration"
  shows "Healthy rep \<longleftrightarrow> (\<forall>rel fd. WalkFile rel fd \<in> set es \<longrightarrow> sound_file lib now warn rel fd)"
proof -
  have "Healthy rep \<longleftrightarrow> (\<forall>r\<in>set (records_of lib es now warn). r_Status r = StatusOK \<or> r_Status r = StatusNoExpiry)"
  proof -
    have "(s \<noteq> StatusExpired \<and> s \<noteq> StatusExpiring \<and> s \<noteq> StatusError) \<longleftrightarrow> s = StatusOK \<or> s = StatusNoExpiry" for s
      by (cases s) simp_all
    then show ?thesis
      using assms(1) by (auto simp: Scan_result Healthy_def count_statuses_eq filter_empty_conv)
  qed
  then show ?thesis
    unfolding sound_file_record [OF assms(2)] by (metis set_records_of)
qed

subsection \<open>The selection\<close>

definition due :: "Record \<Rightarrow> bool" where
  "due r \<longleftrightarrow> (r_Kind r = ''user'' \<or> r_Kind r = ''cert'') \<and>
     (r_Status r = StatusExpiring \<or> r_Status r = StatusExpired) \<and> r_Identity r \<noteq> []"

lemma select_step_cases:
  "select_step inInv (seen, sel, skip) r =
     (if \<not> due r \<or> r_Identity r \<in> set seen then (seen, sel, skip)
      else if r_Identity r \<in> set inInv then (r_Identity r # seen, sel @ [r_Identity r], skip)
      else (r_Identity r # seen, sel, skip @ [r_Identity r]))"
  by (auto simp: due_def)

lemma select_loop:
  assumes "foldl (select_step inInv) (seen, sel, skip) rs = (seen', sel', skip')"
    and "distinct (sel @ skip)" and "set seen = set (sel @ skip)"
    and "set sel \<subseteq> set inInv" and "set skip \<inter> set inInv = {}"
  shows "distinct sel' \<and> distinct skip' \<and>
     set sel' = set sel \<union> {r_Identity r | r. r \<in> set rs \<and> due r \<and> r_Identity r \<in> set inInv} \<and>
     set skip' = set skip \<union> {r_Identity r | r. r \<in> set rs \<and> due r \<and> r_Identity r \<notin> set inInv}"
  using assms
proof (induction rs arbitrary: seen sel skip)
  case (Cons r rs)
  consider "\<not> due r \<or> r_Identity r \<in> set seen"
    | "due r" "r_Identity r \<notin> set seen" "r_Identity r \<in> set inInv"
    | "due r" "r_Identity r \<notin> set seen" "r_Identity r \<notin> set inInv"
    by blast
  then show ?case
  proof cases
    case 1
    then have step: "select_step inInv (seen, sel, skip) r = (seen, sel, skip)"
      by (simp only: select_step_cases if_True)
    from Cons.IH [of seen sel skip] Cons.prems
    have "distinct sel' \<and> distinct skip' \<and>
       set sel' = set sel \<union> {r_Identity r | r. r \<in> set rs \<and> due r \<and> r_Identity r \<in> set inInv} \<and>
       set skip' = set skip \<union> {r_Identity r | r. r \<in> set rs \<and> due r \<and> r_Identity r \<notin> set inInv}"
      by (simp only: foldl_Cons step)
    with 1 Cons.prems(3-5) show ?thesis by auto
  next
    case 2
    then have step: "select_step inInv (seen, sel, skip) r = (r_Identity r # seen, sel @ [r_Identity r], skip)"
      by (simp only: select_step_cases) simp
    have "distinct sel' \<and> distinct skip' \<and>
       set sel' = set (sel @ [r_Identity r]) \<union> {r_Identity r | r. r \<in> set rs \<and> due r \<and> r_Identity r \<in> set inInv} \<and>
       set skip' = set skip \<union> {r_Identity r | r. r \<in> set rs \<and> due r \<and> r_Identity r \<notin> set inInv}"
      using 2 Cons.prems by (intro Cons.IH [of "r_Identity r # seen"]) (simp_all only: foldl_Cons step, auto)
    with 2 show ?thesis by auto
  next
    case 3
    then have step: "select_step inInv (seen, sel, skip) r = (r_Identity r # seen, sel, skip @ [r_Identity r])"
      by (simp only: select_step_cases) simp
    have "distinct sel' \<and> distinct skip' \<and>
       set sel' = set sel \<union> {r_Identity r | r. r \<in> set rs \<and> due r \<and> r_Identity r \<in> set inInv} \<and>
       set skip' = set (skip @ [r_Identity r]) \<union> {r_Identity r | r. r \<in> set rs \<and> due r \<and> r_Identity r \<notin> set inInv}"
      using 3 Cons.prems by (intro Cons.IH [of "r_Identity r # seen"]) (simp_all only: foldl_Cons step, auto)
    with 3 show ?thesis by auto
  qed
qed simp

text \<open>
  An identity is due within a window when some cabinet credential of the bundle names it and has
  expired or expires by the end of the window.
\<close>

definition due_identity :: "artifact_lib \<Rightarrow> walk_entry list \<Rightarrow> int \<Rightarrow> int \<Rightarrow> string \<Rightarrow> bool" where
  "due_identity lib es window now ident \<longleftrightarrow>
     (\<exists>rel fd kind is_jwt t. WalkFile rel fd \<in> set es \<and> artifact rel = Some (kind, is_jwt) \<and>
        kind \<in> {''user'', ''cert''} \<and> facts lib is_jwt fd = Some (ident, Some t) \<and>
        (t \<le> now \<or> t \<le> now + window))"

lemma classify_due:
  "window < maxDuration \<Longrightarrow>
     classify e now window = StatusExpiring \<or> classify e now window = StatusExpired \<longleftrightarrow>
     (\<exists>t. e = Some t \<and> (t \<le> now \<or> t \<le> now + window))"
  by (cases e) (auto simp: classify_def time_sub_def maxDuration_def minDuration_def)

lemma due_identities:
  assumes "window < maxDuration" and "ident \<noteq> []"
  shows "(\<exists>r\<in>set (records_of lib es now window). due r \<and> r_Identity r = ident) \<longleftrightarrow>
     due_identity lib es window now ident"
proof -
  have "due r \<and> r_Identity r = ident \<longleftrightarrow>
      (\<exists>t. kind \<in> {''user'', ''cert''} \<and> facts lib is_jwt fd = Some (ident, Some t) \<and> (t \<le> now \<or> t \<le> now + window))"
    if "r_Kind r = kind"
      "r_Identity r = (case facts lib is_jwt fd of None \<Rightarrow> [] | Some (name, e) \<Rightarrow> name)"
      "r_Status r = status_of (facts lib is_jwt fd) now window" for r kind is_jwt fd
    using assms(2) that classify_due [OF assms(1), of _ now]
    by (cases "facts lib is_jwt fd") (auto simp: due_def status_of_def)
  note main = this
  have "(\<exists>r. recordFor lib rel fd now window = Some r \<and> due r \<and> r_Identity r = ident) \<longleftrightarrow>
      (\<exists>kind is_jwt t. artifact rel = Some (kind, is_jwt) \<and> kind \<in> {''user'', ''cert''} \<and>
         facts lib is_jwt fd = Some (ident, Some t) \<and> (t \<le> now \<or> t \<le> now + window))" for rel fd
  proof (cases "artifact rel")
    case (Some p)
    obtain kind is_jwt where p: "p = (kind, is_jwt)" by (cases p)
    with Some obtain r where r: "recordFor lib rel fd now window = Some r"
      by (simp add: recordFor_artifact)
    then have "r_Kind r = kind \<and>
        r_Identity r = (case facts lib is_jwt fd of None \<Rightarrow> [] | Some (name, e) \<Rightarrow> name) \<and>
        r_Status r = status_of (facts lib is_jwt fd) now window"
      using Some p by (elim recordFor_SomeD) simp
    with main [of r kind is_jwt fd] r Some p show ?thesis by simp
  qed (simp add: recordFor_artifact)
  note single = this
  have "(\<exists>r\<in>set (records_of lib es now window). due r \<and> r_Identity r = ident) \<longleftrightarrow>
      (\<exists>rel fd. WalkFile rel fd \<in> set es \<and>
         (\<exists>r. recordFor lib rel fd now window = Some r \<and> due r \<and> r_Identity r = ident))"
    unfolding Bex_def set_records_of by blast
  then show ?thesis unfolding single due_identity_def by blast
qed

lemma sorted_distinct_set: "distinct xs \<Longrightarrow> sort xs = sorted_list_of_set (set xs)"
  by (metis sorted_list_of_set_sort_remdups distinct_remdups_id)

lemma selectExpiring_result:
  assumes "selectExpiring lib (BundleDir es) window now iv = Inr (sel, skip)"
  shows "\<exists>seen' sel' skip'. foldl (select_step (case iv of None \<Rightarrow> [] | Some i \<Rightarrow> map cab_ID (inv_Cabinets i)))
      ([], [], []) (sort_key record_order (records_of lib es now window)) = (seen', sel', skip') \<and>
      sel = sort sel' \<and> skip = sort skip'"
  using assms by (auto simp: selectExpiring_def Scan_result Let_def split: prod.splits)

lemma sorted_distinctI: "distinct xs \<Longrightarrow> set xs = A \<Longrightarrow> sort xs = sorted_list_of_set A"
  using sorted_distinct_set by blast

lemma walk_entries_value:
  "list_all (\<lambda>e. \<not> is_walk_error e) es \<Longrightarrow>
     foldE (walk_step lib now warn) [] es = Inr (records_of lib es now warn)"
  by (simp add: walk_entries)

subsection \<open>Reading a label back\<close>

text \<open>
  How a Prometheus text-format reader takes a label value up to its closing quote; the value and
  the rest of the line, or \<open>None\<close> for a value that is broken by a newline or a bad escape.
\<close>

fun read_label :: "string \<Rightarrow> (string \<times> string) option" where
  "read_label [] = None"
| "read_label (c # cs) =
     (if c = CHR 0x22 then Some ([], cs)
      else if c = newline then None
      else if c = CHR 0x5C then
        (case cs of
           [] \<Rightarrow> None
         | d # ds \<Rightarrow>
             if d = CHR 0x5C \<or> d = CHR 0x22 then map_option (\<lambda>(v, rest). (d # v, rest)) (read_label ds)
             else if d = CHR ''n'' then map_option (\<lambda>(v, rest). (newline # v, rest)) (read_label ds)
             else None)
      else map_option (\<lambda>(v, rest). (c # v, rest)) (read_label cs))"

subsection \<open>An example bundle\<close>

text \<open>A decoder for the examples: a JWT is \<open>name:expiry\<close> in seconds with one digit, a certificate likewise.\<close>

definition ex_lib :: artifact_lib where
  "ex_lib = \<lparr>ParseDecoratedJWT = Inr,
     jwt_Decode = (\<lambda>s. if length s < 2 then Inl ''bad token'' else
       Inr \<lparr>jc_Name = take (length s - 1) s, jc_Subject = ''U'', jc_IssuedAt = 1,
            jc_Expires = of_char (last s) - 48\<rparr>),
     pem_Decode = (\<lambda>s. if s = [] then None else Some (''CERTIFICATE'', s)),
     ParseCertificate = (\<lambda>s.
       Inr \<lparr>cm_CommonName = take (length s - 1) s, cm_NotBefore = 0,
            cm_NotAfter = (of_char (last s) - 48) * second\<rparr>)\<rparr>"

definition ex_bundle :: "walk_entry list" where
  "ex_bundle =
     [WalkDirectory ''.'', WalkFile ''ca/cabinet-ca.crt'' (Inr ''CA9''), WalkFile ''ca/cabinet-ca.key'' (Inr ''secret''),
      WalkFile ''cabinets/c1.creds'' (Inr ''c15''), WalkFile ''cabinets/c1.crt'' (Inr ''c16''),
      WalkFile ''cabinets/c9.creds'' (Inr ''c92''),
      WalkFile ''dmz/research.creds'' (Inr ''research1''),
      WalkFile ''operator.jwt'' (Inr ''op0''), WalkFile ''resolver/A.jwt'' (Inr ''CENTRAL0 '')]"

definition ex_sound_bundle :: "walk_entry list" where
  "ex_sound_bundle =
     [WalkFile ''cabinets/c1.creds'' (Inr ''c19''), WalkFile ''dmz/research.creds'' (Inr ''research1''),
      WalkFile ''operator.jwt'' (Inr ''op0'')]"

text \<open>The walk with every file that is no known artifact emptied.\<close>

definition blank_unknown :: "walk_entry \<Rightarrow> walk_entry" where
  "blank_unknown e = (case e of WalkFile rel fd \<Rightarrow>
     if artifact rel = None then WalkFile rel (Inr []) else WalkFile rel fd | _ \<Rightarrow> e)"

subsection \<open>Properties\<close>

text \<open>
  C24. What a healthy report promises. When the scan of a directory succeeds, the command exits
  with 0 exactly when every known artifact of the bundle could be read and decoded and either
  never expires or expires strictly after both the present and the end of the warning window, where
  the expiry of a JWT is the instant the program makes of its int64 claim (\<open>unix_instant\<close>). The window is below the largest duration, at which Go's saturating subtraction of times makes
  every finite expiry count as near.
\<close>

theorem Scan_exit_code:
  assumes "Scan lib (BundleDir es) now warn = Inr rep" and "warn < maxDuration"
  shows "ExitCode rep = 0 \<longleftrightarrow>
    (\<forall>rel fd kind is_jwt. WalkFile rel fd \<in> set es \<and> artifact rel = Some (kind, is_jwt) \<longrightarrow>
       (\<exists>name e. facts lib is_jwt fd = Some (name, e) \<and>
          (\<forall>t. e = Some t \<longrightarrow> now < t \<and> now + warn < t)))"
proof -
  have "sound_file lib now warn rel fd \<longleftrightarrow>
      (\<forall>kind is_jwt. artifact rel = Some (kind, is_jwt) \<longrightarrow>
         (\<exists>name e. facts lib is_jwt fd = Some (name, e) \<and> (\<forall>t. e = Some t \<longrightarrow> now < t \<and> now + warn < t)))" for rel fd
    by (auto simp: sound_file_def split: option.split)
  with Healthy_iff [OF assms] show ?thesis by (auto simp: ExitCode_def)
qed

theorem Scan_exit_code_witness:
  "\<exists>rep. Scan ex_lib (BundleDir ex_bundle) (3 * second) (2 * second) = Inr rep \<and> ExitCode rep = 1 \<and>
     (\<exists>rel fd kind is_jwt. WalkFile rel fd \<in> set ex_bundle \<and> artifact rel = Some (kind, is_jwt) \<and>
       \<not> (\<exists>name e. facts ex_lib is_jwt fd = Some (name, e) \<and>
          (\<forall>t. e = Some t \<longrightarrow> 3 * second < t \<and> 3 * second + 2 * second < t)))"
proof -
  have "case Scan ex_lib (BundleDir ex_bundle) (3 * second) (2 * second) of Inl _ \<Rightarrow> False | Inr rep \<Rightarrow> ExitCode rep = 1"
    by code_simp
  then obtain rep where scan: "Scan ex_lib (BundleDir ex_bundle) (3 * second) (2 * second) = Inr rep"
    and code: "ExitCode rep = 1"
    by (auto split: sum.splits)
  have "2 * second < maxDuration" by code_simp
  from Scan_exit_code [OF scan this] code scan show ?thesis by auto
qed

text \<open>
  C35. The scan reads only public artifacts, and no others: replacing the content of every file
  that is not a known artifact leaves its result as it is. Among these are all seeds and private
  keys (.nkey, .key) and, against the command's purpose, everything under dmz/: the expiring
  credentials of external consumers are never reported.
\<close>

theorem Scan_reads_public_artifacts:
  "Scan lib (BundleDir (map blank_unknown es)) now warn = Scan lib (BundleDir es) now warn \<and>
     artifact (rel @ ''.nkey'') = None \<and> artifact (rel @ ''.key'') = None \<and> artifact (''dmz/'' @ rel) = None"
proof -
  have step: "walk_step lib now warn rs (blank_unknown e) = walk_step lib now warn rs e" for rs e
    by (cases e) (simp_all add: blank_unknown_def recordFor_artifact)
  have "foldE (walk_step lib now warn) [] (map blank_unknown es) = foldE (walk_step lib now warn) [] es"
    by (simp add: foldE_map step)
  moreover have "\<not> HasSuffix (rel @ ''.nkey'') s \<and> \<not> HasSuffix (rel @ ''.key'') s"
    if "s \<in> {''.jwt'', ''.creds'', ''.crt''}" for s
    using that by (auto simp: HasSuffix_iff append_eq_append_conv2 Cons_eq_append_conv append_eq_Cons_conv)
  moreover have "rel @ ''.nkey'' \<noteq> ''operator.jwt'' \<and> rel @ ''.nkey'' \<noteq> ''ca/cabinet-ca.crt'' \<and>
      rel @ ''.key'' \<noteq> ''operator.jwt'' \<and> rel @ ''.key'' \<noteq> ''ca/cabinet-ca.crt''"
    by (auto simp: append_eq_Cons_conv)
  moreover have "artifact (''dmz/'' @ rel) = None"
    by (auto simp: artifact_def HasPrefix_iff)
  ultimately show ?thesis by (simp add: Scan_def artifact_def)
qed

text \<open>
  The report is a function of what the bundle contains: visiting its entries in another
  order, the paths being different, gives the same report, although the sort is not stable.
\<close>

theorem Scan_order_independent:
  assumes "mset es = mset es'" and "list_all (\<lambda>e. \<not> is_walk_error e) es"
    and "distinct (map r_Path (records_of lib es now warn))"
  shows "Scan lib (BundleDir es) now warn = Scan lib (BundleDir es') now warn"
proof -
  have "mset (records_of lib xs now warn) = image_mset the (filter_mset (\<lambda>x. x \<noteq> None) (image_mset (entry_record lib now warn) (mset xs)))" for xs
    by (induction xs) (auto simp: records_of_def map_filter_simps split: option.split)
  with assms(1) have "mset (records_of lib es now warn) = mset (records_of lib es' now warn)" by simp
  moreover have "distinct (map record_order (records_of lib es now warn))"
    using assms(3) by (auto simp: distinct_map inj_on_def record_order_def)
  ultimately have "sort_key record_order (records_of lib es now warn) = sort_key record_order (records_of lib es' now warn)"
    by (rule sk.srt_cong)
  moreover have "list_all (\<lambda>e. \<not> is_walk_error e) es'"
    using assms(1,2) by (metis list_all_iff set_mset_mset)
  ultimately show ?thesis using assms(2) by (simp add: Scan_def walk_entries_value)
qed

theorem Scan_order_independent_witness:
  "Scan ex_lib (BundleDir ex_bundle) 0 0 = Scan ex_lib (BundleDir (rev ex_bundle)) 0 0"
proof -
  have "list_all (\<lambda>e. \<not> is_walk_error e) ex_bundle" by code_simp
  moreover have "distinct (map r_Path (records_of ex_lib ex_bundle 0 0))" by code_simp
  ultimately show ?thesis by (intro Scan_order_independent) simp_all
qed

text \<open>
  C36. The rotation sweep selects exactly the cabinets that need it. The first result lists, sorted
  and without repetition, the inventory's cabinets with a credential or certificate in the bundle
  that has expired or expires within the window; the second lists in the same way the identities
  in that state that the inventory does not name. No other identity is in either. The expiry of a
  credential is the instant the program makes of its int64 claim (\<open>unix_instant\<close>).
\<close>

theorem selectExpiring_exact:
  assumes "selectExpiring lib (BundleDir es) window now iv = Inr (sel, skip)" and "window < maxDuration"
  shows "sorted sel \<and> distinct sel \<and> sorted skip \<and> distinct skip \<and>
    (\<forall>ident. ident \<in> set sel \<longleftrightarrow> ident \<noteq> [] \<and> due_identity lib es window now ident \<and>
       (\<exists>i c. iv = Some i \<and> c \<in> set (inv_Cabinets i) \<and> cab_ID c = ident)) \<and>
    (\<forall>ident. ident \<in> set skip \<longleftrightarrow> ident \<noteq> [] \<and> due_identity lib es window now ident \<and>
       \<not> (\<exists>i c. iv = Some i \<and> c \<in> set (inv_Cabinets i) \<and> cab_ID c = ident))"
proof -
  define ids where "ids = (case iv of None \<Rightarrow> [] | Some i \<Rightarrow> map cab_ID (inv_Cabinets i))"
  have ids: "ident \<in> set ids \<longleftrightarrow> (\<exists>i c. iv = Some i \<and> c \<in> set (inv_Cabinets i) \<and> cab_ID c = ident)" for ident
    by (auto simp: ids_def split: option.split)
  from selectExpiring_result [OF assms(1), folded ids_def] obtain seen' sel' skip' where
    loop: "foldl (select_step ids) ([], [], []) (sort_key record_order (records_of lib es now window)) = (seen', sel', skip')"
    and sorts: "sel = sort sel'" "skip = sort skip'" by blast
  from select_loop [OF loop] have "distinct sel'" "distinct skip'"
    and sets: "set sel' = {r_Identity r | r. r \<in> set (records_of lib es now window) \<and> due r \<and> r_Identity r \<in> set ids}"
      "set skip' = {r_Identity r | r. r \<in> set (records_of lib es now window) \<and> due r \<and> r_Identity r \<notin> set ids}"
    by simp_all
  have due: "(\<exists>r\<in>set (records_of lib es now window). due r \<and> r_Identity r = ident) \<longleftrightarrow>
      ident \<noteq> [] \<and> due_identity lib es window now ident" for ident
    using due_identities [OF assms(2), of ident lib es now] by (cases "ident = []") (auto simp: due_def)
  have member: "ident \<in> set sel \<longleftrightarrow> ident \<noteq> [] \<and> due_identity lib es window now ident \<and> ident \<in> set ids"
    "ident \<in> set skip \<longleftrightarrow> ident \<noteq> [] \<and> due_identity lib es window now ident \<and> ident \<notin> set ids" for ident
    using due [of ident] by (auto simp: sorts sets)
  have "sorted sel" "distinct sel" "sorted skip" "distinct skip"
    using \<open>distinct sel'\<close> \<open>distinct skip'\<close> by (simp_all add: sorts)
  then show ?thesis by (simp add: member ids)
qed

theorem selectExpiring_exact_witness:
  "selectExpiring ex_lib (BundleDir ex_bundle) (3 * second) (2 * second) (Some ex_inventory) = Inr ([''c1''], [''c9'']) \<and>
     due_identity ex_lib ex_bundle (3 * second) (2 * second) ''c1''"
proof -
  have run: "selectExpiring ex_lib (BundleDir ex_bundle) (3 * second) (2 * second) (Some ex_inventory) = Inr ([''c1''], [''c9''])"
    and "3 * second < maxDuration"
    by code_simp+
  from selectExpiring_exact [OF this] run show ?thesis by auto
qed

text \<open>
  The identities to rotate by request and by expiry are merged into one sorted list without
  repetition that contains exactly the identities of both.
\<close>

theorem unionStrings_exact: "unionStrings a b = sorted_list_of_set (set a \<union> set b)"
proof -
  have "distinct (map fst (fold (\<lambda>s. AList.update s ()) xs []))" for xs :: "string list"
    using gm.ok_fold_put [of "[]" "\<lambda>s. s" "\<lambda>_. ()" xs] by simp
  moreover have "set (map fst (fold (\<lambda>s. AList.update s ()) xs [])) = set xs" for xs :: "string list"
    using gm.keys_fold_put [of "[]" "\<lambda>s. s" "\<lambda>_. ()" xs] by simp
  ultimately have "sort (map fst (fold (\<lambda>s. AList.update s ()) (a @ b) [])) = sorted_list_of_set (set (a @ b))"
    by (metis sorted_distinct_set)
  then show ?thesis by (simp add: unionStrings_def sortedKeys_def)
qed

text \<open>
  A metric label survives its text form: whatever the identity or the path of an artifact
  contains, a reader of the escaped value stops at the closing quote the exporter wrote, not
  before, and gets the value back. An artifact cannot break out of its label.
\<close>

theorem escapeLabel_roundtrip: "read_label (escapeLabel s @ CHR 0x22 # rest) = Some (s, rest)"
proof (induction s)
  case (Cons c s)
  consider "c = CHR 0x5C" | "c = CHR 0x22" | "c = newline" | "c \<noteq> CHR 0x5C" "c \<noteq> CHR 0x22" "c \<noteq> newline" by blast
  then show ?case using Cons
    by cases (simp_all add: escapeLabel_def escape_char_def newline_def)
qed (simp add: escapeLabel_def)

end
