(* ===== verification/Pki.thy ===== *)
theory Pki
  imports Effects CredHealth
begin

section \<open>The certificate authority of the cabinets\<close>

text \<open>
  Package internal/pki: client keys and signing requests, the bundled self-signed certificate
  authority behind the interface \<open>Signer\<close>, and its creation on disk. Keys, signing requests and
  certificates are the values of crypto/ecdsa, crypto/x509 and encoding/pem, whose functions are
  the fields of \<open>pki_lib\<close>: a private key, a public key and a DER encoding are strings that only
  these functions interpret, and a function that draws from rand.Reader takes the bytes drawn. The
  zeroing of keys in memory (\<open>Wipe\<close>) has no effect that a later step or the tree could show and
  has no counterpart.
\<close>

datatype key_usage = DigitalSignature | CertSign | CRLSign

datatype ext_key_usage = ExtClientAuth

record cert_template =
  ct_SerialNumber :: int
  ct_CommonName :: string
  ct_NotBefore :: int
  ct_NotAfter :: int
  ct_KeyUsage :: "key_usage list"
  ct_ExtKeyUsage :: "ext_key_usage list"
  ct_BasicConstraintsValid :: bool
  ct_IsCA :: bool

datatype cert_parent = ItsTemplate | SignedBy string \<comment> \<open>the DER of the parent\<close>

record csr =
  csr_CommonName :: string
  csr_PublicKey :: string

record pki_lib = artifact_lib +
  pem_Encode :: "string \<Rightarrow> string \<Rightarrow> string"
  GenerateKey :: "string \<Rightarrow> string"
  PublicKeyOf :: "string \<Rightarrow> string"
  MarshalPKCS8PrivateKey :: "string \<Rightarrow> string + string"
  ParsePKCS8PrivateKey :: "string \<Rightarrow> string + string option" \<comment> \<open>\<open>None\<close>: not an ECDSA key\<close>
  CreateCertificateRequest :: "string \<Rightarrow> string \<Rightarrow> string \<Rightarrow> string + string"
  ParseCertificateRequest :: "string \<Rightarrow> string + csr"
  CheckSignature :: "string \<Rightarrow> string + unit"
  CreateCertificate :: "string \<Rightarrow> cert_template \<Rightarrow> cert_parent \<Rightarrow> string \<Rightarrow> string \<Rightarrow> string + string"
  rand_Int :: "string \<Rightarrow> int \<Rightarrow> int"

datatype pki_error =
    GenerateClientKey cause | MarshalClientKey cause | CreateCSR string cause
  | ParseCSR cause | CSRSignature cause | CNMismatch string string | SerialError cause
  | SignCert string cause
  | ReadCACert path cause | ReadCAKey path cause | PartialCA path path
  | GenerateCAKey cause | CreateCACert cause | MarshalCAKey cause | MkdirCA cause
  | WriteCACert cause | WriteCAKey cause | ParseNewCA cause
  | CACertPEMInvalid | ParseCACert cause | KeyPEMInvalid | ParseKey cause | KeyNotECDSA

record SelfSignedCA =
  ca_cert :: string \<comment> \<open>DER\<close>
  ca_key :: string

definition hour :: int where "hour = 3600 * second"

definition caValidity :: int where "caValidity = 10 * 365 * 24 * hour"

definition leafValidity :: int where "leafValidity = 90 * 24 * hour"

definition clockSkew :: int where "clockSkew = 5 * 60 * second"

subsection \<open>Keys, requests and leaf certificates\<close>

definition NewClientKey :: "pki_lib \<Rightarrow> (pki_error, string) io" where
  "NewClientKey lib =
     bindIO (wrapIO GenerateClientKey (osIO Entropy)) (\<lambda>r.
     bindIO (wrapIO MarshalClientKey (libIO (MarshalPKCS8PrivateKey lib (GenerateKey lib r)))) (\<lambda>der.
     returnIO (pem_Encode lib ''PRIVATE KEY'' der)))"

definition parseECKey :: "pki_lib \<Rightarrow> string \<Rightarrow> pki_error + string" where
  "parseECKey lib keyPEM =
     (case pem_Decode lib keyPEM of
        None \<Rightarrow> Inl KeyPEMInvalid
      | Some blk \<Rightarrow>
          if fst blk \<noteq> ''PRIVATE KEY'' then Inl KeyPEMInvalid
          else case ParsePKCS8PrivateKey lib (snd blk) of
            Inl err \<Rightarrow> Inl (ParseKey (LibCause err))
          | Inr None \<Rightarrow> Inl KeyNotECDSA
          | Inr (Some ec) \<Rightarrow> Inr ec)"

definition ClientCSR :: "pki_lib \<Rightarrow> string \<Rightarrow> string \<Rightarrow> (pki_error, string) io" where
  "ClientCSR lib i keyPEM =
     bindIO (liftIO (parseECKey lib keyPEM)) (\<lambda>key.
     bindIO (wrapIO (CreateCSR i) (osIO Entropy)) (\<lambda>r.
     wrapIO (CreateCSR i) (libIO (CreateCertificateRequest lib r i key))))"

definition randSerial :: "pki_lib \<Rightarrow> (pki_error, int) io" where
  "randSerial lib =
     bindIO (wrapIO SerialError (osIO Entropy)) (\<lambda>r. returnIO (rand_Int lib r (2 ^ 128)))"

definition create_cert ::
    "pki_lib \<Rightarrow> cert_template \<Rightarrow> cert_parent \<Rightarrow> string \<Rightarrow> string \<Rightarrow> (cause, string) io" where
  \<comment> \<open>\<^theory_text>\<open>x509.CreateCertificate(rand.Reader, ...)\<close>\<close>
  "create_cert lib tmpl parent pub key =
     bindIO (osIO Entropy) (\<lambda>r. libIO (CreateCertificate lib r tmpl parent pub key))"

definition leaf_template :: "int \<Rightarrow> string \<Rightarrow> int \<Rightarrow> cert_template" where
  "leaf_template serial i now =
     \<lparr>ct_SerialNumber = serial, ct_CommonName = i, ct_NotBefore = now, ct_NotAfter = now + leafValidity,
      ct_KeyUsage = [DigitalSignature], ct_ExtKeyUsage = [ExtClientAuth],
      ct_BasicConstraintsValid = False, ct_IsCA = False\<rparr>"

definition SignClientCert :: "pki_lib \<Rightarrow> SelfSignedCA \<Rightarrow> string \<Rightarrow> string \<Rightarrow> (pki_error, string) io" where
  "SignClientCert lib ca csrDER i =
     bindIO (wrapIO ParseCSR (libIO (ParseCertificateRequest lib csrDER))) (\<lambda>csr.
     bindIO (wrapIO CSRSignature (libIO (CheckSignature lib csrDER))) (\<lambda>_.
     if csr_CommonName csr \<noteq> i then throwIO (CNMismatch (csr_CommonName csr) i)
     else
     bindIO (randSerial lib) (\<lambda>serial.
     bindIO Now (\<lambda>t.
     let now = t - clockSkew in
     bindIO (wrapIO (SignCert (csr_CommonName csr))
         (create_cert lib (leaf_template serial i now) (SignedBy (ca_cert ca)) (csr_PublicKey csr) (ca_key ca))) (\<lambda>der.
     returnIO (pem_Encode lib ''CERTIFICATE'' der))))))"

subsection \<open>The authority on disk\<close>

definition parseCA :: "pki_lib \<Rightarrow> string \<Rightarrow> string \<Rightarrow> pki_error + SelfSignedCA" where
  "parseCA lib certPEM keyPEM =
     (case pem_Decode lib certPEM of
        None \<Rightarrow> Inl CACertPEMInvalid
      | Some blk \<Rightarrow>
          if fst blk \<noteq> ''CERTIFICATE'' then Inl CACertPEMInvalid
          else case ParseCertificate lib (snd blk) of
            Inl err \<Rightarrow> Inl (ParseCACert (LibCause err))
          | Inr _ \<Rightarrow> bindE (parseECKey lib keyPEM) (\<lambda>key. Inr \<lparr>ca_cert = snd blk, ca_key = key\<rparr>))"

definition ca_template :: "int \<Rightarrow> int \<Rightarrow> cert_template" where
  "ca_template serial now =
     \<lparr>ct_SerialNumber = serial, ct_CommonName = ''vikasa-cabinet-ca'', ct_NotBefore = now,
      ct_NotAfter = now + caValidity, ct_KeyUsage = [CertSign, CRLSign], ct_ExtKeyUsage = [],
      ct_BasicConstraintsValid = True, ct_IsCA = True\<rparr>"

definition mint_ca :: "pki_lib \<Rightarrow> path \<Rightarrow> path \<Rightarrow> (pki_error, SelfSignedCA \<times> bool) io" where
  \<comment> \<open>the part of \<^theory_text>\<open>LoadOrCreateCA\<close> after its switch\<close>
  "mint_ca lib certPath keyPath =
     bindIO (wrapIO GenerateCAKey (osIO Entropy)) (\<lambda>r.
     let key = GenerateKey lib r in
     bindIO (randSerial lib) (\<lambda>serial.
     bindIO Now (\<lambda>t.
     let now = t - clockSkew in
     bindIO (wrapIO CreateCACert (create_cert lib (ca_template serial now) ItsTemplate (PublicKeyOf lib key) key)) (\<lambda>der.
     bindIO (wrapIO MarshalCAKey (libIO (MarshalPKCS8PrivateKey lib key))) (\<lambda>keyDER.
     let outCertPEM = pem_Encode lib ''CERTIFICATE'' der;
         outKeyPEM = pem_Encode lib ''PRIVATE KEY'' keyDER in
     bindIO (wrapIO MkdirCA (osIO (MkdirAll (butlast certPath) 0x1C0))) (\<lambda>_.
     bindIO (wrapIO WriteCACert (osIO (WriteFile certPath outCertPEM 0x1A4))) (\<lambda>_.
     bindIO (wrapIO WriteCAKey (osIO (WriteFile keyPath outKeyPEM 0x180))) (\<lambda>_.
     bindIO (wrapIO ParseNewCA (libIO (ParseCertificate lib der))) (\<lambda>_.
     returnIO (\<lparr>ca_cert = der, ca_key = key\<rparr>, True))))))))))"

definition LoadOrCreateCA :: "pki_lib \<Rightarrow> path \<Rightarrow> path \<Rightarrow> (pki_error, SelfSignedCA \<times> bool) io" where
  "LoadOrCreateCA lib certPath keyPath =
     bindIO (tryIO (ReadFile certPath)) (\<lambda>cert.
     bindIO (tryIO (ReadFile keyPath)) (\<lambda>key.
     case cert of
       Inl certErr \<Rightarrow>
         if certErr \<noteq> ErrNotExist then throwIO (ReadCACert certPath (OsCause certErr))
         else (case key of
             Inl keyErr \<Rightarrow>
               if keyErr \<noteq> ErrNotExist then throwIO (ReadCAKey keyPath (OsCause keyErr))
               else mint_ca lib certPath keyPath
           | Inr _ \<Rightarrow> throwIO (PartialCA keyPath certPath))
     | Inr certPEM \<Rightarrow>
         (case key of
             Inl keyErr \<Rightarrow>
               if keyErr \<noteq> ErrNotExist then throwIO (ReadCAKey keyPath (OsCause keyErr))
               else throwIO (PartialCA certPath keyPath)
           | Inr keyPEM \<Rightarrow> bindIO (liftIO (parseCA lib certPEM keyPEM)) (\<lambda>ca. returnIO (ca, False)))))"

subsection \<open>Lemmas\<close>

lemma quiet_ClientCSR [quiet]: "quiet (ClientCSR lib i k)"
  unfolding ClientCSR_def by (intro quiet)

lemma quiet_NewClientKey [quiet]: "quiet (NewClientKey lib)"
  unfolding NewClientKey_def by (intro quiet)

lemma quiet_randSerial [quiet]: "quiet (randSerial lib)"
  unfolding randSerial_def by (intro quiet)

lemma quiet_create_cert [quiet]: "quiet (create_cert lib t p pub key)"
  unfolding create_cert_def by (intro quiet)

lemma quiet_SignClientCert [quiet]: "quiet (SignClientCert lib ca d i)"
  unfolding SignClientCert_def by (intro quiet)

text \<open>
  The interface Signer: a signer refuses a request whose name differs from the identity asked
  for, and does not touch the tree.
\<close>

locale client_signer =
  fixes sign :: "string \<Rightarrow> string \<Rightarrow> (pki_error, string) io"
    and names :: "string \<Rightarrow> string \<Rightarrow> bool"
  assumes refuses: "sign csr i w = (Inr pem, w') \<Longrightarrow> names csr i"
    and leaves_tree: "quiet (sign csr i)"

definition csr_names :: "pki_lib \<Rightarrow> string \<Rightarrow> string \<Rightarrow> bool" where
  "csr_names lib d i \<longleftrightarrow> (\<exists>csr. ParseCertificateRequest lib d = Inr csr \<and> csr_CommonName csr = i)"

lemma SignClientCert_names: "SignClientCert lib ca d i w = (Inr pem, w') \<Longrightarrow> csr_names lib d i"
  unfolding SignClientCert_def csr_names_def
  by (erule bindIO_InrE)+ (auto simp: wrapIO_Inr libIO_Inr throwIO_def split: if_splits)

interpretation ca: client_signer "SignClientCert lib ca" "csr_names lib" for lib ca
  by unfold_locales (auto intro: SignClientCert_names quiet)

lemma LoadOrCreateCA_run:
  "LoadOrCreateCA lib c k w =
     (let cert = (if w_fault w (w_tick w) then Inl ErrIO else op_read c (w_fs w));
          key = (if w_fault w (w_tick (tick w)) then Inl ErrIO else op_read k (w_fs w)) in
      (case cert of
       Inl certErr \<Rightarrow>
         if certErr \<noteq> ErrNotExist then throwIO (ReadCACert c (OsCause certErr))
         else (case key of
             Inl keyErr \<Rightarrow>
               if keyErr \<noteq> ErrNotExist then throwIO (ReadCAKey k (OsCause keyErr))
               else mint_ca lib c k
           | Inr _ \<Rightarrow> throwIO (PartialCA k c))
     | Inr certPEM \<Rightarrow>
         (case key of
             Inl keyErr \<Rightarrow>
               if keyErr \<noteq> ErrNotExist then throwIO (ReadCAKey k (OsCause keyErr))
               else throwIO (PartialCA c k)
           | Inr keyPEM \<Rightarrow> bindIO (liftIO (parseCA lib certPEM keyPEM)) (\<lambda>ca. returnIO (ca, False))))
      (tick (tick w)))"
  by (simp add: LoadOrCreateCA_def bindIO_def tryIO_def ReadFile_run Let_def cong: sum.case_cong if_cong)

text \<open>
  C25. Once a certificate or a key is on disk, no run replaces or adds one, whatever fails: the pair
  is loaded, or the run ends in an error that names the missing half.
\<close>

theorem LoadOrCreateCA_never_reroots:
  assumes "is_reg (w_fs w) certPath \<or> is_reg (w_fs w) keyPath"
    and "LoadOrCreateCA lib certPath keyPath w = (r, w')"
  shows "w_fs w' = w_fs w \<and> w_seen w' = w_seen w \<and> (\<forall>ca. r \<noteq> Inr (ca, True)) \<and>
    (\<forall>ca. r = Inr (ca, False) \<longrightarrow> is_reg (w_fs w) certPath \<and> is_reg (w_fs w) keyPath)"
  using assms
  by (auto simp: LoadOrCreateCA_run Let_def throwIO_def bindIO_def liftIO_def returnIO_def op_read_def is_reg_def
      split: if_splits option.splits node.splits sum.splits)


text \<open>The encodings are inverse to each other.\<close>

definition pki_codecs :: "pki_lib \<Rightarrow> bool" where
  "pki_codecs lib \<longleftrightarrow> (\<forall>t\<in>{''CERTIFICATE'', ''PRIVATE KEY''}. \<forall>b. pem_Decode lib (pem_Encode lib t b) = Some (t, b)) \<and>
     (\<forall>key d. MarshalPKCS8PrivateKey lib key = Inr d \<longrightarrow> ParsePKCS8PrivateKey lib d = Inr (Some key))"

lemma parseECKey_encoded:
  "pki_codecs lib \<Longrightarrow> MarshalPKCS8PrivateKey lib key = Inr d \<Longrightarrow>
     parseECKey lib (pem_Encode lib ''PRIVATE KEY'' d) = Inr key"
  by (simp add: pki_codecs_def parseECKey_def)

lemma parseCA_encoded:
  "pki_codecs lib \<Longrightarrow> MarshalPKCS8PrivateKey lib key = Inr d \<Longrightarrow> ParseCertificate lib der = Inr c \<Longrightarrow>
     parseCA lib (pem_Encode lib ''CERTIFICATE'' der) (pem_Encode lib ''PRIVATE KEY'' d) =
       Inr \<lparr>ca_cert = der, ca_key = key\<rparr>"
  using parseECKey_encoded [of lib key d] by (simp add: parseCA_def pki_codecs_def)

definition ca_stored :: "pki_lib \<Rightarrow> path \<Rightarrow> path \<Rightarrow> SelfSignedCA \<Rightarrow> fs \<Rightarrow> bool" where
  "ca_stored lib certPath keyPath ca s \<longleftrightarrow>
     (\<exists>cert key. op_read certPath s = Inr cert \<and> op_read keyPath s = Inr key \<and> parseCA lib cert key = Inr ca)"

lemma mint_ca_stored:
  assumes "pki_codecs lib" and "c \<noteq> k" and run: "mint_ca lib c k w = (Inr (ca, b), w')"
  shows "ca_stored lib c k ca (w_fs w')" and b
proof -
  from run obtain key der keyDER meta v v1 v2 where
    key: "MarshalPKCS8PrivateKey lib key = Inr keyDER" and meta: "ParseCertificate lib der = Inr meta"
    and wr: "WriteFile c (pem_Encode lib ''CERTIFICATE'' der) 0x1A4 v = (Inr (), v1)"
      "WriteFile k (pem_Encode lib ''PRIVATE KEY'' keyDER) 0x180 v1 = (Inr (), v2)"
    and res: "ca = \<lparr>ca_cert = der, ca_key = key\<rparr>" b "w' = v2"
    unfolding mint_ca_def Let_def
    by (elim bindIO_InrE) (auto simp: wrapIO_Inr osIO_Inr libIO_Inr returnIO_def)
  have "\<exists>m. lookup (w_fs v1) c = Some (Reg m (pem_Encode lib ''CERTIFICATE'' der))"
    using ensuresD(2) [OF frame_WriteFile [OF assms(2)] TrueI wr(1)] by simp
  then have "\<exists>m. lookup (w_fs v2) c = Some (Reg m (pem_Encode lib ''CERTIFICATE'' der))"
    and "\<exists>m. lookup (w_fs v2) k = Some (Reg m (pem_Encode lib ''PRIVATE KEY'' keyDER))"
    using ensuresD [OF frame_WriteFile [OF assms(2) [symmetric]] TrueI wr(2)]
    by (simp_all add: evolves_def unchanged_def)
  then show "ca_stored lib c k ca (w_fs w')" and b
    using parseCA_encoded [OF assms(1) key meta] res by (auto simp: ca_stored_def op_read_Inr)
qed

lemma LoadOrCreateCA_stored:
  assumes "pki_codecs lib" and "c \<noteq> k" and "LoadOrCreateCA lib c k w = (Inr (ca, b), w')"
  shows "ca_stored lib c k ca (w_fs w')"
  using assms(3) mint_ca_stored(1) [OF assms(1,2)]
  by (auto simp: LoadOrCreateCA_run Let_def throwIO_def bindIO_def liftIO_def returnIO_def ca_stored_def
      split: if_splits sum.splits)

lemma LoadOrCreateCA_loads:
  "ca_stored lib c k ca (w_fs w) \<Longrightarrow> w_fault w = (\<lambda>_. False) \<Longrightarrow>
     LoadOrCreateCA lib c k w = (Inr (ca, False), tick (tick w))"
  by (auto simp: ca_stored_def LoadOrCreateCA_run bindIO_def liftIO_def returnIO_def)

text \<open>
  C26. The authority that a run hands out, loaded or created, is the one every later run loads as long
  as the two files are as it left them.
\<close>

theorem LoadOrCreateCA_reloads:
  assumes "pki_codecs lib" and "certPath \<noteq> keyPath"
    and "LoadOrCreateCA lib certPath keyPath w = (Inr (ca, created), w')"
    and "w_fs v = w_fs w'" and "w_fault v = (\<lambda>_. False)"
  shows "fst (LoadOrCreateCA lib certPath keyPath v) = Inr (ca, False)"
  using LoadOrCreateCA_loads [of lib certPath keyPath ca v] LoadOrCreateCA_stored [OF assms(1-3)] assms(4,5)
  by simp


subsection \<open>A library and runs of it\<close>

text \<open>A library in which every value encodes itself, for the witnesses.\<close>

definition ex_pki :: pki_lib where
  "ex_pki = \<lparr>ParseDecoratedJWT = Inr, jwt_Decode = (\<lambda>t. Inr \<lparr>jc_Name = t, jc_Subject = t, jc_IssuedAt = 0, jc_Expires = 0\<rparr>),
     pem_Decode = (\<lambda>p. Some (if hd p = CHR ''C'' then ''CERTIFICATE'' else ''PRIVATE KEY'', tl p)),
     ParseCertificate = (\<lambda>d. Inr \<lparr>cm_CommonName = d, cm_NotBefore = 0, cm_NotAfter = 0\<rparr>),
     pem_Encode = (\<lambda>t b. (if t = ''CERTIFICATE'' then CHR ''C'' else CHR ''P'') # b),
     GenerateKey = (\<lambda>r. r), PublicKeyOf = (\<lambda>k. k), MarshalPKCS8PrivateKey = Inr,
     ParsePKCS8PrivateKey = (\<lambda>d. Inr (Some d)),
     CreateCertificateRequest = (\<lambda>r cn key. Inr cn),
     ParseCertificateRequest = (\<lambda>d. Inr \<lparr>csr_CommonName = d, csr_PublicKey = d\<rparr>),
     CheckSignature = (\<lambda>d. Inr ()), CreateCertificate = (\<lambda>r t p pub key. Inr (ct_CommonName t)),
     rand_Int = (\<lambda>r n. 5)\<rparr>"


definition ex_ca_world :: "fs \<Rightarrow> world" where
  "ex_ca_world s = \<lparr>w_fs = s, w_seen = [], w_tick = 0, w_fault = (\<lambda>_. False), w_short = (\<lambda>_. 0),
     w_rand = (\<lambda>n. ''k''), w_umask = 0x12, w_clock = (\<lambda>_. 0)\<rparr>"

definition ex_crt :: path where "ex_crt = [''ca'', ''cabinet-ca.crt'']"

definition ex_key :: path where "ex_key = [''ca'', ''cabinet-ca.key'']"

lemma ex_codecs: "pki_codecs ex_pki"
  by (simp add: pki_codecs_def ex_pki_def)

lemma LoadOrCreateCA_never_reroots_witness:
  "let w = ex_ca_world [(ex_crt, Reg 0x1A4 ''C''), ([''ca''], Dir 0x1C0)];
       (r, w') = LoadOrCreateCA ex_pki ex_crt ex_key w in
   r = Inl (PartialCA ex_crt ex_key) \<and> w_fs w' = w_fs w \<and> w_seen w' = w_seen w"
proof -
  let ?w = "ex_ca_world [(ex_crt, Reg 0x1A4 ''C''), ([''ca''], Dir 0x1C0)]"
  have reg: "is_reg (w_fs ?w) ex_crt" by code_simp
  have run: "fst (LoadOrCreateCA ex_pki ex_crt ex_key ?w) = Inl (PartialCA ex_crt ex_key)" by code_simp
  obtain r w' where rw: "LoadOrCreateCA ex_pki ex_crt ex_key ?w = (r, w')" by fastforce
  from LoadOrCreateCA_never_reroots [OF disjI1 [OF reg] rw] run rw show ?thesis
    by (simp add: Let_def)
qed

lemma LoadOrCreateCA_reloads_witness:
  "let w = ex_ca_world []; (r, w') = LoadOrCreateCA ex_pki ex_crt ex_key w in
   r = Inr (\<lparr>ca_cert = ''vikasa-cabinet-ca'', ca_key = ''k''\<rparr>, True) \<and>
   fst (LoadOrCreateCA ex_pki ex_crt ex_key (ex_ca_world (w_fs w'))) =
     Inr (\<lparr>ca_cert = ''vikasa-cabinet-ca'', ca_key = ''k''\<rparr>, False)"
proof -
  let ?w = "ex_ca_world []"
  have run: "fst (LoadOrCreateCA ex_pki ex_crt ex_key ?w) = Inr (\<lparr>ca_cert = ''vikasa-cabinet-ca'', ca_key = ''k''\<rparr>, True)"
    by code_simp
  obtain r w' where rw: "LoadOrCreateCA ex_pki ex_crt ex_key ?w = (r, w')" by fastforce
  with run have rw': "LoadOrCreateCA ex_pki ex_crt ex_key ?w = (Inr (\<lparr>ca_cert = ''vikasa-cabinet-ca'', ca_key = ''k''\<rparr>, True), w')"
    by simp
  have "ex_crt \<noteq> ex_key" "w_fs (ex_ca_world (w_fs w')) = w_fs w'" "w_fault (ex_ca_world (w_fs w')) = (\<lambda>_. False)"
    by (simp_all add: ex_crt_def ex_key_def ex_ca_world_def)
  from LoadOrCreateCA_reloads [OF ex_codecs this(1) rw' this(2,3)] rw' show ?thesis
    by (simp add: Let_def)
qed

end
