(* ===== verification/Json.thy ===== *)
theory Json
  imports Go_Strings
begin

section \<open>JSON records of strings\<close>

text \<open>
  What the audit logs use of Go's package encoding/json: \<open>Marshal\<close> of a struct whose fields are
  strings, and \<open>Unmarshal\<close> of any text into such a struct. Strings are byte strings; the bytes of
  valid UTF-8 pass through unchanged. Go's encoder also replaces invalid UTF-8 and escapes U+2028 and
  U+2029, and its decoder refuses more than 10000 nested values; neither is modelled, and a record of
  names from a JSON file, keys and time stamps reads back the same without them. The parser takes fuel for its recursion; twice the length of the text is
  enough, since two nested calls consume a byte (\<open>Parse_fuel\<close>).
\<close>

definition quote :: char where "quote = CHR 0x22"

definition backslash :: char where "backslash = CHR 0x5C"

subsection \<open>Encoding\<close>

definition hex_digit :: "nat \<Rightarrow> char" where
  "hex_digit n = (if n < 10 then char_of (48 + n) else char_of (87 + n))"

definition json_escape :: "char \<Rightarrow> string" where
  "json_escape c =
     (let n = of_char c :: nat in
      if c = quote \<or> c = backslash then [backslash, c]
      else if n = 8 then [backslash, CHR ''b'']
      else if n = 12 then [backslash, CHR ''f'']
      else if n = 10 then [backslash, CHR ''n'']
      else if n = 13 then [backslash, CHR ''r'']
      else if n = 9 then [backslash, CHR ''t'']
      else if n < 32 \<or> c = CHR ''<'' \<or> c = CHR ''>'' \<or> c = CHR ''&''
      then [backslash, CHR ''u'', CHR ''0'', CHR ''0'', hex_digit (n div 16), hex_digit (n mod 16)]
      else [c])"

definition json_string :: "string \<Rightarrow> string" where
  "json_string v = quote # concat (map json_escape v) @ [quote]"

definition json_member :: "string \<times> string \<Rightarrow> string" where
  "json_member kv = json_string (fst kv) @ '':'' @ json_string (snd kv)"

definition Marshal :: "string gomap \<Rightarrow> string" where
  "Marshal kvs = ''{'' @ join '','' (map json_member kvs) @ ''}''"

subsection \<open>Parsing\<close>

datatype json =
    JNull | JBool bool | JNum string | JStr string | JArr "json list" | JObj "(string \<times> json) list"

definition json_space :: "char \<Rightarrow> bool" where
  "json_space c \<longleftrightarrow> c \<in> set [CHR '' '', CHR 0x09, CHR 0x0A, CHR 0x0D]"

definition skip_ws :: "string \<Rightarrow> string" where
  "skip_ws s = dropWhile json_space s"

definition digit :: "char \<Rightarrow> bool" where
  "digit c \<longleftrightarrow> CHR ''0'' \<le> c \<and> c \<le> CHR ''9''"

definition hex_value :: "char \<Rightarrow> nat option" where
  "hex_value c =
     (if digit c then Some (of_char c - 48)
      else if CHR ''a'' \<le> c \<and> c \<le> CHR ''f'' then Some (of_char c - 87)
      else if CHR ''A'' \<le> c \<and> c \<le> CHR ''F'' then Some (of_char c - 55)
      else None)"

fun hex4 :: "string \<Rightarrow> (nat \<times> string) option" where
  "hex4 (a # b # c # d # s) =
     (case (hex_value a, hex_value b, hex_value c, hex_value d) of
        (Some i, Some j, Some k, Some l) \<Rightarrow> Some (((i * 16 + j) * 16 + k) * 16 + l, s)
      | _ \<Rightarrow> None)"
| "hex4 _ = None"

definition utf8 :: "nat \<Rightarrow> string" where
  "utf8 n =
     (if n < 0x80 then [char_of n]
      else if n < 0x800 then [char_of (0xC0 + n div 64), char_of (0x80 + n mod 64)]
      else if n < 0x10000 then
        [char_of (0xE0 + n div 4096), char_of (0x80 + n div 64 mod 64), char_of (0x80 + n mod 64)]
      else
        [char_of (0xF0 + n div 262144), char_of (0x80 + n div 4096 mod 64),
         char_of (0x80 + n div 64 mod 64), char_of (0x80 + n mod 64)])"

definition simple_escape :: "char \<Rightarrow> char option" where
  "simple_escape e =
     (if e = quote \<or> e = backslash \<or> e = CHR ''/'' then Some e
      else if e = CHR ''b'' then Some (CHR 0x08)
      else if e = CHR ''f'' then Some (CHR 0x0C)
      else if e = CHR ''n'' then Some (CHR 0x0A)
      else if e = CHR ''r'' then Some (CHR 0x0D)
      else if e = CHR ''t'' then Some (CHR 0x09)
      else None)"

text \<open>A low surrogate escape at the front of the text.\<close>

fun low_surrogate :: "string \<Rightarrow> (nat \<times> string) option" where
  "low_surrogate (a # b # s) =
     (if a = backslash \<and> b = CHR ''u'' then
        (case hex4 s of
           None \<Rightarrow> None
         | Some (u, t) \<Rightarrow> if 0xDC00 \<le> u \<and> u < 0xE000 then Some (u, t) else None)
      else None)"
| "low_surrogate _ = None"

text \<open>The rune of a \<open>\u\<close> escape whose four digits have been read, and the text after it.\<close>

definition escaped_rune :: "nat \<Rightarrow> string \<Rightarrow> string \<times> string" where
  "escaped_rune u t =
     (if 0xD800 \<le> u \<and> u < 0xE000 then
        (case (if u < 0xDC00 then low_surrogate t else None) of
           Some (l, t') \<Rightarrow> (utf8 (0x10000 + (u - 0xD800) * 1024 + (l - 0xDC00)), t')
         | None \<Rightarrow> (utf8 0xFFFD, t))
      else (utf8 u, t))"

definition escape_piece :: "char \<Rightarrow> string \<Rightarrow> (string \<times> string) option" where
  \<comment> \<open>what follows a backslash\<close>
  "escape_piece e s =
     (if e = CHR ''u'' then map_option (\<lambda>(u, t). escaped_rune u t) (hex4 s)
      else map_option (\<lambda>c. ([c], s)) (simple_escape e))"

lemma hex4_length: "hex4 s = Some (u, t) \<Longrightarrow> length t < length s"
  by (induction s rule: hex4.induct) (auto split: option.splits)

lemma low_surrogate_length: "low_surrogate s = Some (u, t) \<Longrightarrow> length t < length s"
  by (induction s rule: low_surrogate.induct) (auto split: if_splits option.splits dest!: hex4_length)

lemma escape_piece_length: "escape_piece e s = Some (p, t) \<Longrightarrow> length t \<le> length s"
  by (auto simp: escape_piece_def escaped_rune_def split: if_splits option.splits
      dest!: hex4_length low_surrogate_length)

function json_text :: "string \<Rightarrow> (string \<times> string) option" where
  \<comment> \<open>the string after its opening quote, and the rest\<close>
  "json_text [] = None"
| "json_text (c # s) =
     (if c = quote then Some ([], s)
      else if of_char c < (32 :: nat) then None
      else if c \<noteq> backslash then map_option (\<lambda>(v, r). (c # v, r)) (json_text s)
      else case s of
        [] \<Rightarrow> None
      | e # s' \<Rightarrow>
          (case escape_piece e s' of
             None \<Rightarrow> None
           | Some pt \<Rightarrow> map_option (\<lambda>(v, r). (fst pt @ v, r)) (json_text (snd pt))))"
  by pat_completeness auto
termination
  by (relation "measure length") (auto dest: escape_piece_length)

definition exact :: "string \<Rightarrow> json \<Rightarrow> string \<Rightarrow> (json \<times> string) option" where
  "exact l j s = (if HasPrefix s l then Some (j, drop (length l) s) else None)"

definition digits1 :: "string \<Rightarrow> (string \<times> string) option" where
  \<comment> \<open>one digit or more\<close>
  "digits1 s = (if takeWhile digit s = [] then None else Some (takeWhile digit s, dropWhile digit s))"

definition json_number :: "string \<Rightarrow> (json \<times> string) option" where
  "json_number s =
     (let (sign, s1) = (case s of c # t \<Rightarrow> if c = CHR ''-'' then ([c], t) else ([], s) | [] \<Rightarrow> ([], s)) in
      case (case s1 of c # t \<Rightarrow> if c = CHR ''0'' then Some ([c], t) else digits1 s1 | [] \<Rightarrow> None) of
        None \<Rightarrow> None
      | Some (int_part, s2) \<Rightarrow>
          (case (case s2 of c # t \<Rightarrow> if c = CHR ''.'' then map_option (\<lambda>(d, r). (c # d, r)) (digits1 t)
                    else Some ([], s2) | [] \<Rightarrow> Some ([], s2)) of
             None \<Rightarrow> None
           | Some (frac, s3) \<Rightarrow>
               (case (case s3 of
                    c # t \<Rightarrow>
                      if c = CHR ''e'' \<or> c = CHR ''E'' then
                        (case t of
                           d # t' \<Rightarrow> if d = CHR ''+'' \<or> d = CHR ''-''
                             then map_option (\<lambda>(x, r). (c # d # x, r)) (digits1 t')
                             else map_option (\<lambda>(x, r). (c # x, r)) (digits1 t)
                         | [] \<Rightarrow> None)
                      else Some ([], s3)
                  | [] \<Rightarrow> Some ([], s3)) of
                  None \<Rightarrow> None
                | Some (ex, s4) \<Rightarrow> Some (JNum (sign @ int_part @ frac @ ex), s4))))"

definition first_char :: "string \<Rightarrow> char option" where
  "first_char s = (case s of [] \<Rightarrow> None | c # _ \<Rightarrow> Some c)"

fun json_value :: "nat \<Rightarrow> string \<Rightarrow> (json \<times> string) option"
  and json_elements :: "nat \<Rightarrow> string \<Rightarrow> (json list \<times> string) option"
  and json_members :: "nat \<Rightarrow> string \<Rightarrow> ((string \<times> json) list \<times> string) option" where
  "json_value 0 s = None"
| "json_value (Suc n) s =
     (case skip_ws s of
        [] \<Rightarrow> None
      | c # t \<Rightarrow>
          if c = quote then map_option (\<lambda>(v, r). (JStr v, r)) (json_text t)
          else if c = CHR ''{'' then
            (if first_char (skip_ws t) = Some (CHR ''}'') then Some (JObj [], tl (skip_ws t))
             else map_option (\<lambda>(ms, r). (JObj ms, r)) (json_members n t))
          else if c = CHR ''['' then
            (if first_char (skip_ws t) = Some (CHR '']'') then Some (JArr [], tl (skip_ws t))
             else map_option (\<lambda>(es, r). (JArr es, r)) (json_elements n t))
          else if c = CHR ''n'' then exact ''null'' JNull (c # t)
          else if c = CHR ''t'' then exact ''true'' (JBool True) (c # t)
          else if c = CHR ''f'' then exact ''false'' (JBool False) (c # t)
          else json_number (c # t))"
| "json_elements 0 s = None"
| "json_elements (Suc n) s =
     (case json_value n s of
        None \<Rightarrow> None
      | Some (j, r) \<Rightarrow>
          if first_char (skip_ws r) = Some (CHR '','')
          then map_option (\<lambda>(js, q). (j # js, q)) (json_elements n (tl (skip_ws r)))
          else if first_char (skip_ws r) = Some (CHR '']'') then Some ([j], tl (skip_ws r))
          else None)"
| "json_members 0 s = None"
| "json_members (Suc n) s =
     (if first_char (skip_ws s) \<noteq> Some quote then None
      else case json_text (tl (skip_ws s)) of
        None \<Rightarrow> None
      | Some (k, r) \<Rightarrow>
          if first_char (skip_ws r) \<noteq> Some (CHR '':'') then None
          else case json_value n (tl (skip_ws r)) of
            None \<Rightarrow> None
          | Some (v, q) \<Rightarrow>
              if first_char (skip_ws q) = Some (CHR '','')
              then map_option (\<lambda>(ms, z). ((k, v) # ms, z)) (json_members n (tl (skip_ws q)))
              else if first_char (skip_ws q) = Some (CHR ''}'') then Some ([(k, v)], tl (skip_ws q))
              else None)"

definition Parse :: "string \<Rightarrow> json option" where
  "Parse s =
     (case json_value (Suc (2 * length s)) s of
        None \<Rightarrow> None
      | Some (j, r) \<Rightarrow> if skip_ws r = [] then Some j else None)"

subsection \<open>Decoding into a struct of strings\<close>

text \<open>
  The field a key selects: the tag of that name, or the first tag that equals it up to letter
  case. A value that is no string is an error of the whole call, null leaves the field.
\<close>

definition field_of :: "string list \<Rightarrow> string \<Rightarrow> string option" where
  "field_of tags k = (if k \<in> set tags then Some k else List.find (\<lambda>t. ToLower t = ToLower k) tags)"

definition set_member ::
    "string list \<Rightarrow> (string \<Rightarrow> string) \<times> bool \<Rightarrow> string \<times> json \<Rightarrow> (string \<Rightarrow> string) \<times> bool" where
  "set_member tags st kv =
     (case field_of tags (fst kv) of
        None \<Rightarrow> st
      | Some t \<Rightarrow>
          (case snd kv of
             JStr v \<Rightarrow> ((fst st)(t := v), snd st)
           | JNull \<Rightarrow> st
           | _ \<Rightarrow> (fst st, False)))"

definition UnmarshalStrings :: "string list \<Rightarrow> string \<Rightarrow> (string \<Rightarrow> string) option" where
  "UnmarshalStrings tags s =
     (case Parse s of
        None \<Rightarrow> None
      | Some JNull \<Rightarrow> Some (\<lambda>_. [])
      | Some (JObj ms) \<Rightarrow>
          (case foldl (set_member tags) (\<lambda>_. [], True) ms of (f, ok) \<Rightarrow> if ok then Some f else None)
      | Some _ \<Rightarrow> None)"

subsection \<open>What is written is read back\<close>

lemma hex_value_digit: "k < 16 \<Longrightarrow> hex_value (hex_digit k) = Some k"
proof -
  have "list_all (\<lambda>k. hex_value (hex_digit k) = Some k) [0..<16]" by code_simp
  then show "k < 16 \<Longrightarrow> ?thesis" by (simp add: list_all_iff)
qed

lemma json_text_step:
  assumes "json_escape c = [c]" and "c \<noteq> quote" and "c \<noteq> backslash" and "32 \<le> (of_char c :: nat)"
  shows "json_text (json_escape c @ s) = map_option (\<lambda>(v, r). (c # v, r)) (json_text s)"
  using assms by simp

lemma quote_backslash: "quote \<noteq> backslash"
  by (simp add: quote_def backslash_def)

lemma json_text_escaped:
  "escape_piece e t = Some (p, s) \<Longrightarrow>
     json_text (backslash # e # t) = map_option (\<lambda>(v, r). (p @ v, r)) (json_text s)"
  using quote_backslash by (simp add: backslash_def)

lemma escape_piece_u:
  assumes "(of_char c :: nat) < 128"
  shows "escape_piece (CHR ''u'') (CHR ''0'' # CHR ''0'' # hex_digit (of_char c div 16) # hex_digit (of_char c mod 16) # s) =
    Some ([c], s)"
proof -
  have "hex_value (CHR ''0'') = Some 0" by code_simp
  moreover have "hex_value (hex_digit (of_char c div 16)) = Some (of_char c div 16)"
    using assms by (intro hex_value_digit) auto
  moreover have "hex_value (hex_digit (of_char c mod 16)) = Some (of_char c mod 16)"
    by (rule hex_value_digit) simp
  ultimately show ?thesis
    using assms by (simp add: escape_piece_def escaped_rune_def utf8_def)
qed

text \<open>The control characters with an escape of their own.\<close>

lemma short_escapes:
  "list_all (\<lambda>(n, e). json_escape (char_of n) = [backslash, e] \<and> escape_piece e [] = Some ([char_of n], []))
     [(8, CHR ''b''), (12, CHR ''f''), (10, CHR ''n''), (13, CHR ''r''), (9 :: nat, CHR ''t'')]"
  by code_simp

lemma escape_piece_rest:
  "e \<noteq> CHR ''u'' \<Longrightarrow> escape_piece e [] = Some (p, []) \<Longrightarrow> escape_piece e s = Some (p, s)"
  by (auto simp: escape_piece_def)

lemma json_text_escape:
  "json_text (json_escape c @ s) = map_option (\<lambda>(v, r). (c # v, r)) (json_text s)"
proof -
  let ?n = "of_char c :: nat"
  have u: "json_text (backslash # CHR ''u'' # CHR ''0'' # CHR ''0'' # hex_digit (?n div 16) # hex_digit (?n mod 16) # s) =
      map_option (\<lambda>(v, r). (c # v, r)) (json_text s)" if "?n < 128"
    using json_text_escaped [OF escape_piece_u [OF that]] by simp
  have ctl: ?thesis if "?n = k" "(k, e) \<in> set [(8, CHR ''b''), (12, CHR ''f''), (10, CHR ''n''), (13, CHR ''r''), (9 :: nat, CHR ''t'')]" for k e
  proof -
    have c: "c = char_of k" using that(1) by auto
    have "e \<noteq> CHR ''u''" using that(2) by auto
    moreover have "json_escape c = [backslash, e]" "escape_piece e [] = Some ([c], [])"
      using short_escapes that(2) unfolding c list_all_iff by fastforce+
    ultimately show ?thesis using json_text_escaped [OF escape_piece_rest] by simp
  qed
  have html: "?n < 128" if "c = CHR ''<'' \<or> c = CHR ''>'' \<or> c = CHR ''&''" using that by auto
  consider "c = quote \<or> c = backslash" | "?n = 8" | "?n = 12" | "?n = 10" | "?n = 13" | "?n = 9"
    | "c \<noteq> quote" "c \<noteq> backslash" "?n \<notin> {8, 12, 10, 13, 9}" "?n < 32 \<or> c = CHR ''<'' \<or> c = CHR ''>'' \<or> c = CHR ''&''"
    | "c \<noteq> quote" "c \<noteq> backslash" "\<not> (?n < 32 \<or> c = CHR ''<'' \<or> c = CHR ''>'' \<or> c = CHR ''&'')"
    by blast
  then show ?thesis
  proof cases
    case 1
    then have "escape_piece c s = Some ([c], s)"
      by (auto simp: escape_piece_def simple_escape_def quote_def backslash_def)
    with 1 json_text_escaped show ?thesis by (auto simp: json_escape_def)
  next
    case 7
    with u html show ?thesis by (auto simp: json_escape_def Let_def)
  next
    case 8
    then have "json_escape c = [c]" by (auto simp: json_escape_def Let_def)
    with 8 show ?thesis by (simp add: json_text_step)
  qed (use ctl in \<open>simp_all\<close>)
qed

lemma json_text_string: "json_text (concat (map json_escape v) @ quote # s) = Some (v, s)"
  by (induction v) (simp_all add: json_text_escape)


lemma skip_ws_Cons: "\<not> json_space c \<Longrightarrow> skip_ws (c # s) = c # s"
  by (simp add: skip_ws_def)

lemma no_space:
  "\<not> json_space quote" "\<not> json_space CHR '':''" "\<not> json_space CHR '',''"
  "\<not> json_space CHR ''{''" "\<not> json_space CHR ''}''"
  by code_simp+

lemma first_char_Cons [simp]: "first_char (c # s) = Some c"
  by (simp add: first_char_def)

lemma json_value_string: "json_value (Suc n) (json_string v @ s) = Some (JStr v, s)"
  by (simp add: json_string_def skip_ws_Cons no_space json_text_string)

lemma json_members_member:
  "json_members (Suc (Suc n)) (json_member (k, v) @ c # s) =
     (if first_char (skip_ws (c # s)) = Some (CHR '','')
      then map_option (\<lambda>(ms, z). ((k, JStr v) # ms, z)) (json_members (Suc n) (tl (skip_ws (c # s))))
      else if first_char (skip_ws (c # s)) = Some (CHR ''}'') then Some ([(k, JStr v)], tl (skip_ws (c # s)))
      else None)"
proof -
  have start: "skip_ws (json_member (k, v) @ c # s) = quote # concat (map json_escape k) @ quote # CHR '':'' # json_string v @ c # s"
    by (simp add: json_member_def json_string_def skip_ws_Cons no_space)
  have colon: "skip_ws (CHR '':'' # json_string v @ c # s) = CHR '':'' # json_string v @ c # s"
    by (rule skip_ws_Cons [OF no_space(2)])
  show ?thesis
    unfolding json_members.simps(2) [of "Suc n"] start
    by (simp add: json_text_string colon json_value_string del: json_value.simps json_members.simps)
qed

lemma json_members_comma:
  "json_members (Suc (Suc n)) (json_member (k, v) @ CHR '','' # s) =
     map_option (\<lambda>(ms, z). ((k, JStr v) # ms, z)) (json_members (Suc n) s)"
  unfolding json_members_member by (simp add: skip_ws_Cons no_space del: json_members.simps)

lemma json_members_brace:
  "json_members (Suc (Suc n)) (json_member (k, v) @ CHR ''}'' # s) = Some ([(k, JStr v)], s)"
  unfolding json_members_member by (simp add: skip_ws_Cons no_space)

lemma json_members_encoded:
  "kvs \<noteq> [] \<Longrightarrow> length kvs < n \<Longrightarrow>
     json_members n (join '','' (map json_member kvs) @ CHR ''}'' # s) = Some (map (\<lambda>kv. (fst kv, JStr (snd kv))) kvs, s)"
proof (induction kvs arbitrary: n)
  case (Cons kv kvs)
  define m where "m = n - 2"
  with Cons.prems(2) have n: "n = Suc (Suc m)" by simp
  obtain k v where kv: "kv = (k, v)" by (cases kv)
  show ?case
  proof (cases "kvs = []")
    case True
    then show ?thesis using json_members_brace [of m k v s] by (simp add: n kv del: json_members.simps)
  next
    case False
    with Cons n have "json_members (Suc m) (join '','' (map json_member kvs) @ CHR ''}'' # s) =
        Some (map (\<lambda>kv. (fst kv, JStr (snd kv))) kvs, s)"
      by (intro Cons.IH) auto
    moreover have "join '','' (map json_member (kv # kvs)) @ CHR ''}'' # s =
        json_member (k, v) @ CHR '','' # join '','' (map json_member kvs) @ CHR ''}'' # s"
      using False by (simp add: join_Cons kv)
    ultimately show ?thesis
      using json_members_comma [of m k v "join '','' (map json_member kvs) @ CHR ''}'' # s"]
      by (simp add: n kv del: json_members.simps)
  qed
qed simp

lemma join_member_Cons:
  "kvs \<noteq> [] \<Longrightarrow> \<exists>t. join '','' (map json_member kvs) = quote # t"
  by (cases kvs; cases "tl kvs") (auto simp: json_member_def json_string_def)

lemma length_members: "length kvs \<le> length (join '','' (map json_member kvs))"
proof (induction kvs)
  case (Cons kv kvs)
  then show ?case by (cases "kvs = []") (auto simp: join_Cons json_member_def json_string_def)
qed simp

lemma Parse_Marshal: "Parse (Marshal kvs) = Some (JObj (map (\<lambda>kv. (fst kv, JStr (snd kv))) kvs))"
proof -
  let ?m = "join '','' (map json_member kvs)"
  have "json_value (Suc (2 * length (Marshal kvs))) (Marshal kvs) = Some (JObj (map (\<lambda>kv. (fst kv, JStr (snd kv))) kvs), [])"
  proof (cases "kvs = []")
    case True
    then show ?thesis by (simp add: Marshal_def skip_ws_Cons no_space quote_def numeral_eq_Suc)
  next
    case False
    obtain t where t: "?m = quote # t" using join_member_Cons [OF False] by blast
    have "json_members (2 * length (Marshal kvs)) (?m @ [CHR ''}'']) = Some (map (\<lambda>kv. (fst kv, JStr (snd kv))) kvs, [])"
      using json_members_encoded [OF False, of _ "[]"] length_members [of kvs] by (simp add: Marshal_def del: json_members.simps)
    then show ?thesis
      by (simp add: Marshal_def skip_ws_Cons no_space t del: json_members.simps) (simp add: quote_def del: json_members.simps)
  qed
  then show ?thesis by (simp add: Parse_def skip_ws_def)
qed

lemma set_members_strings:
  "set (map fst kvs) \<subseteq> set tags \<Longrightarrow>
     foldl (set_member tags) (f, True) (map (\<lambda>kv. (fst kv, JStr (snd kv))) kvs) =
       (\<lambda>t. case map_of (rev kvs) t of None \<Rightarrow> f t | Some v \<Rightarrow> v, True)"
proof (induction kvs arbitrary: f)
  case (Cons kv kvs)
  then have "set_member tags (f, True) (fst kv, JStr (snd kv)) = (f(fst kv := snd kv), True)"
    by (simp add: set_member_def field_of_def)
  with Cons show ?case
    by (auto simp: fun_eq_iff map_add_def split: option.split)
qed simp

lemma Unmarshal_Marshal:
  assumes "set (map fst kvs) \<subseteq> set tags" and "distinct (map fst kvs)"
  shows "UnmarshalStrings tags (Marshal kvs) = Some (\<lambda>t. case map_of kvs t of None \<Rightarrow> [] | Some v \<Rightarrow> v)"
proof -
  have "map_of (rev kvs) = map_of kvs" using assms(2) by (intro map_of_eqI) (auto simp: rev_map [symmetric] map_of_eq_Some_iff)
  then show ?thesis
    using set_members_strings [OF assms(1), of "\<lambda>_. []"] by (simp add: UnmarshalStrings_def Parse_Marshal)
qed

text \<open>An encoded record is one line.\<close>

lemma hex_digit_line: "k < 16 \<Longrightarrow> hex_digit k \<noteq> newline"
proof -
  have "list_all (\<lambda>k. hex_digit k \<noteq> newline) [0..<16]" by code_simp
  then show "k < 16 \<Longrightarrow> ?thesis" by (simp add: list_all_iff)
qed

lemma json_escape_line: "newline \<notin> set (json_escape c)"
proof (cases "c = newline")
  case True
  moreover have "list_all (\<lambda>x. x \<noteq> newline) (json_escape newline)" by code_simp
  ultimately show ?thesis by (auto simp: list_all_iff)
next
  case False
  have "hex_digit (of_char c div 16) \<noteq> newline" "hex_digit (of_char c mod 16) \<noteq> newline"
    by (intro hex_digit_line; simp add: less_mult_imp_div_less)+
  moreover have "backslash \<noteq> newline" by code_simp
  ultimately show ?thesis using False by (auto simp: json_escape_def Let_def newline_def)
qed

lemma Marshal_line: "newline \<notin> set (Marshal kvs)"
proof -
  have str: "newline \<notin> set (json_string v)" for v
    using json_escape_line by (auto simp: json_string_def quote_def newline_def)
  have "newline \<notin> set (join '','' (map json_member kvs))"
  proof (induction kvs)
    case (Cons kv kvs)
    then show ?case
      using str by (cases "kvs = []") (auto simp: join_Cons json_member_def newline_def)
  qed simp
  then show ?thesis by (simp add: Marshal_def newline_def)
qed

subsection \<open>The fuel is enough\<close>

lemma json_text_length: "json_text s = Some (v, r) \<Longrightarrow> length r < length s"
proof (induction s arbitrary: v r rule: json_text.induct)
  case (2 c s)
  show ?case
  proof (cases "c \<noteq> backslash \<or> c = quote \<or> of_char c < (32 :: nat)")
    case True
    with 2 show ?thesis by (auto split: if_splits)
  next
    case False
    with "2.prems" obtain e s' p t u where s: "s = e # s'" "escape_piece e s' = Some (p, t)" "json_text t = Some (u, r)"
      by (auto split: if_splits list.splits option.splits)
    with "2.IH"(2) False have "length r < length t" by auto
    also have "\<dots> \<le> length s'" using s(2) by (rule escape_piece_length)
    finally show ?thesis using s(1) by simp
  qed
qed simp

lemma skip_ws_length: "length (skip_ws s) \<le> length s"
  by (simp add: skip_ws_def length_dropWhile_le)

lemma digits1_length: "digits1 s = Some (d, r) \<Longrightarrow> length r \<le> length s"
  by (auto simp: digits1_def length_dropWhile_le split: if_splits)

lemma exact_length: "exact l j s = Some (k, r) \<Longrightarrow> length r \<le> length s"
  by (auto simp: exact_def split: if_splits)


lemma json_number_length: "json_number s = Some (j, r) \<Longrightarrow> length r \<le> length s"
proof -
  have sub: "\<exists>p. a = p @ b \<Longrightarrow> length b \<le> length a" for a b :: string by auto
  have dig: "digits1 a = Some (d, b) \<Longrightarrow> length b \<le> length a" for a d b by (rule digits1_length)
  show "json_number s = Some (j, r) \<Longrightarrow> ?thesis"
    unfolding json_number_def Let_def
    by (auto split: list.splits if_splits option.splits prod.splits dest!: dig)
qed

lemma after_char: "first_char (skip_ws r) = Some c \<Longrightarrow> length (tl (skip_ws r)) < length r"
  using skip_ws_length [of r] by (cases "skip_ws r") (auto simp: first_char_def)

lemma after_space: "skip_ws s = c # t \<Longrightarrow> length t < length s"
  using skip_ws_length [of s] by simp

lemma json_length:
  "(\<forall>s j r. json_value n s = Some (j, r) \<longrightarrow> length r \<le> length s) \<and>
   (\<forall>s es r. json_elements n s = Some (es, r) \<longrightarrow> length r \<le> length s) \<and>
   (\<forall>s ms r. json_members n s = Some (ms, r) \<longrightarrow> length r \<le> length s)"
proof (induction n)
  case (Suc n)
  have IH: "json_value n s = Some (j, r) \<Longrightarrow> length r \<le> length s"
      "json_elements n s = Some (es, r) \<Longrightarrow> length r \<le> length s"
      "json_members n s = Some (ms, r) \<Longrightarrow> length r \<le> length s" for s j r es ms
    using Suc by blast+
  have v: "length r \<le> length s" if run: "json_value (Suc n) s = Some (j, r)" for s j r
  proof -
    obtain c t where ct: "skip_ws s = c # t" using run by (auto split: list.splits)
    have "length r \<le> length t \<or> length r \<le> length (c # t)"
      using run
      by (auto simp: ct split: if_splits dest: after_char json_text_length IH(2,3) exact_length json_number_length)
    then show ?thesis using after_space [OF ct] by auto
  qed
  have e: "length r \<le> length s" if run: "json_elements (Suc n) s = Some (es, r)" for s es r
    using run by (auto split: if_splits option.splits dest!: after_char IH)
  have m: "length r \<le> length s" if run: "json_members (Suc n) s = Some (ms, r)" for s ms r
    using run by (auto split: if_splits option.splits dest!: after_char IH json_text_length)
  show ?case using v e m by blast
qed simp


lemma json_shorter:
  "json_value n s = Some (j, r) \<Longrightarrow> length r \<le> length s"
  "json_elements n s = Some (es, r) \<Longrightarrow> length r \<le> length s"
  "json_members n s = Some (ms, r) \<Longrightarrow> length r \<le> length s"
  using json_length [of n] by blast+

text \<open>Beyond twice the length the fuel does not matter, and more fuel keeps a result.\<close>

lemma json_fuel:
  "(\<forall>s m. 2 * length s < n \<longrightarrow> 2 * length s < m \<longrightarrow> json_value n s = json_value m s) \<and>
   (\<forall>s m. 2 * length s + 1 < n \<longrightarrow> 2 * length s + 1 < m \<longrightarrow> json_elements n s = json_elements m s) \<and>
   (\<forall>s m. 2 * length s < n \<longrightarrow> 2 * length s < m \<longrightarrow> json_members n s = json_members m s)"
proof (induction n)
  case (Suc n)
  have IH: "2 * length s < n \<Longrightarrow> 2 * length s < m \<Longrightarrow> json_value n s = json_value m s"
      "2 * length s + 1 < n \<Longrightarrow> 2 * length s + 1 < m \<Longrightarrow> json_elements n s = json_elements m s"
      "2 * length s < n \<Longrightarrow> 2 * length s < m \<Longrightarrow> json_members n s = json_members m s" for s m
    using Suc by blast+
  have v: "json_value (Suc n) s = json_value m s" if "2 * length s < Suc n" "2 * length s < m" for s m
  proof -
    from that(2) obtain m' where m: "m = Suc m'" by (cases m) auto
    show ?thesis
    proof (cases "skip_ws s")
      case (Cons c t)
      have "length t < length s" by (rule after_space [OF Cons])
      then have "json_elements n t = json_elements m' t" "json_members n t = json_members m' t"
        using that m by (auto intro!: IH)
      then show ?thesis by (simp add: m Cons)
    qed (simp add: m)
  qed
  have e: "json_elements (Suc n) s = json_elements m s" if "2 * length s + 1 < Suc n" "2 * length s + 1 < m" for s m
  proof -
    from that(2) obtain m' where m: "m = Suc m'" by (cases m) auto
    have val: "json_value n s = json_value m' s" using that m by (intro IH) auto
    show ?thesis
    proof (cases "json_value m' s")
      case (Some jr)
      obtain j r where jr: "jr = (j, r)" by (cases jr)
      have "json_elements n (tl (skip_ws r)) = json_elements m' (tl (skip_ws r))"
        if "first_char (skip_ws r) = Some (CHR '','')"
        using after_char [OF that] json_shorter(1) [OF Some [unfolded jr]] m \<open>2 * length s + 1 < Suc n\<close> \<open>2 * length s + 1 < m\<close>
        by (intro IH) auto
      then show ?thesis by (simp add: m val Some jr)
    qed (simp add: m val)
  qed
  have o: "json_members (Suc n) s = json_members m s" if "2 * length s < Suc n" "2 * length s < m" for s m
  proof -
    from that(2) obtain m' where m: "m = Suc m'" by (cases m) auto
    show ?thesis
    proof (cases "json_text (tl (skip_ws s))")
      case (Some kr)
      obtain k r where kr: "kr = (k, r)" by (cases kr)
      have val: "json_value n (tl (skip_ws r)) = json_value m' (tl (skip_ws r))"
        if "first_char (skip_ws s) = Some quote" "first_char (skip_ws r) = Some (CHR '':'')"
        using after_char [OF that(1)] after_char [OF that(2)] json_text_length [OF Some [unfolded kr]] m
          \<open>2 * length s < Suc n\<close> \<open>2 * length s < m\<close>
        by (intro IH) auto
      have "json_members n (tl (skip_ws q)) = json_members m' (tl (skip_ws q))"
        if "first_char (skip_ws s) = Some quote" "first_char (skip_ws r) = Some (CHR '':'')"
          "json_value m' (tl (skip_ws r)) = Some (j, q)" "first_char (skip_ws q) = Some (CHR '','')" for j q
        using after_char [OF that(1)] after_char [OF that(2)] after_char [OF that(4)] json_shorter(1) [OF that(3)]
          json_text_length [OF Some [unfolded kr]] m \<open>2 * length s < Suc n\<close> \<open>2 * length s < m\<close>
        by (intro IH) auto
      with val show ?thesis by (auto simp: m Some kr split: option.split)
    qed (simp add: m)
  qed
  show ?case using v e o by blast
qed simp

lemma json_more_fuel:
  "(\<forall>s x. json_value n s = Some x \<longrightarrow> json_value (Suc n) s = Some x) \<and>
   (\<forall>s x. json_elements n s = Some x \<longrightarrow> json_elements (Suc n) s = Some x) \<and>
   (\<forall>s x. json_members n s = Some x \<longrightarrow> json_members (Suc n) s = Some x)"
proof (induction n)
  case (Suc n)
  have IH: "json_value n s = Some v \<Longrightarrow> json_value (Suc n) s = Some v"
      "json_elements n s = Some e \<Longrightarrow> json_elements (Suc n) s = Some e"
      "json_members n s = Some o' \<Longrightarrow> json_members (Suc n) s = Some o'" for s v e o'
    using Suc by blast+
  note del = json_value.simps json_elements.simps json_members.simps
  have v: "json_value (Suc (Suc n)) s = Some x" if "json_value (Suc n) s = Some x" for s x
    using that unfolding json_value.simps(2) [of "Suc n" s] json_value.simps(2) [of n s]
    by (auto split: list.splits if_splits simp del: del dest: IH)
  have e: "json_elements (Suc (Suc n)) s = Some x" if "json_elements (Suc n) s = Some x" for s x
    using that unfolding json_elements.simps(2) [of "Suc n" s] json_elements.simps(2) [of n s]
    by (auto split: option.splits if_splits simp del: del simp: IH dest: IH)
  have o: "json_members (Suc (Suc n)) s = Some x" if "json_members (Suc n) s = Some x" for s x
    using that unfolding json_members.simps(2) [of "Suc n" s] json_members.simps(2) [of n s]
    by (auto split: option.splits if_splits simp del: del simp: IH dest: IH)
  show ?case using v e o by blast
qed simp

text \<open>What the parser accepts with any fuel, \<open>Parse\<close> accepts with the fuel it takes.\<close>

theorem Parse_fuel:
  "Parse s = Some j \<longleftrightarrow> (\<exists>n r. json_value n s = Some (j, r) \<and> skip_ws r = [])"
proof
  assume "\<exists>n r. json_value n s = Some (j, r) \<and> skip_ws r = []"
  then obtain n r where run: "json_value n s = Some (j, r)" "skip_ws r = []" by blast
  have "json_value (n + k) s = Some (j, r)" for k
    by (induction k) (use run(1) json_more_fuel in auto)
  from this [of "Suc (2 * length s)"] have "json_value (Suc (2 * length s)) s = Some (j, r)"
    using conjunct1 [OF json_fuel [of "Suc (2 * length s)"], rule_format, of s "n + Suc (2 * length s)"] by simp
  with run(2) show "Parse s = Some j" by (simp add: Parse_def)
next
  assume "Parse s = Some j"
  then show "\<exists>n r. json_value n s = Some (j, r) \<and> skip_ws r = []"
    unfolding Parse_def
    by (cases "json_value (Suc (2 * length s)) s")
      (force split: if_splits prod.splits simp del: json_value.simps)+
qed

end
