(* ===== verification/Revocations.thy ===== *)
theory Revocations
  imports Pki Json
begin

section \<open>Retired credentials and their revocation\<close>

text \<open>
  The part of internal/issuance/issuance.go around the three append-only audit logs: reading the
  public identifiers of a credential before a rotation overwrites it, appending one JSON line to a
  log, and reading the log of retired credentials back for the account JWTs. The functions of
  github.com/nats-io/nkeys and github.com/nats-io/jwt are fields of \<open>nats_lib\<close>, as are the
  rendering and parsing of RFC 3339 time stamps; a key pair is a string that only nkeys
  interprets, and the claims of a JWT are the calls the code makes on them, in order.
\<close>

datatype key_kind = OperatorKey | AccountKey | UserKey

record user_claims =
  uc_Subject :: string
  uc_Name :: string
  uc_IssuerAccount :: string
  uc_PubAllow :: "string list"
  uc_PubDeny :: "string list"
  uc_SubAllow :: "string list"
  uc_SubDeny :: "string list"
  uc_Expires :: int

record operator_claims =
  oc_Subject :: string
  oc_Name :: string
  oc_SigningKeys :: "string list"

record import_claim =
  ic_Name :: string
  ic_Subject :: string
  ic_Account :: string

datatype revocation = RevokeNow string | RevokeAt string int

record account_claims =
  acl_Subject :: string
  acl_Name :: string
  acl_SigningKeys :: "string list"
  acl_Exports :: "(string \<times> string) list" \<comment> \<open>name and subject\<close>
  acl_Imports :: "import_claim list"
  acl_MemoryStorage :: "int option" \<comment> \<open>\<open>None\<close>: as jwt.NewAccountClaims sets it\<close>
  acl_DiskStorage :: "int option"
  acl_Revocations :: "revocation list"

record nats_lib = pki_lib +
  CreateKey :: "key_kind \<Rightarrow> string \<Rightarrow> string"
  FromSeed :: "string \<Rightarrow> string + string"
  PublicKey :: "string \<Rightarrow> string + string"
  Seed :: "string \<Rightarrow> string + string"
  EncodeOperator :: "operator_claims \<Rightarrow> string \<Rightarrow> int \<Rightarrow> string + string"
  EncodeAccount :: "account_claims \<Rightarrow> string \<Rightarrow> int \<Rightarrow> string + string"
  EncodeUser :: "user_claims \<Rightarrow> string \<Rightarrow> int \<Rightarrow> string + string"
  FormatUserConfig :: "string \<Rightarrow> string \<Rightarrow> string + string"
  DecodeUserClaims :: "string \<Rightarrow> string + user_claims"
  DecodeOperatorClaims :: "string \<Rightarrow> string + operator_claims"
  DecodeAccountClaims :: "string \<Rightarrow> string + account_claims"
  CertSerialHex :: "string \<Rightarrow> string" \<comment> \<open>of a DER that parses\<close>
  FormatRFC3339 :: "int \<Rightarrow> string"
  ParseRFC3339 :: "string \<Rightarrow> int option"

datatype (plugins only: code size) issue_error =
    NilModel | RotationWithoutInventory | UnknownAccountSK
  | MkdirFailed path cause | StatFailed path cause | NotOwnerOnly path mode
  | OperatorKeyFailed issue_error | OperatorPub cause | OperatorSKFailed issue_error | OperatorSKPub cause
  | CaptureOperatorSK issue_error | EncodeOperatorJWT cause | WriteOperatorJWT cause
  | AccountKeyFailed string issue_error | AccountPub cause | CaptureAccountSK string issue_error
  | AccountSKFailed string issue_error | AccountSKPub string cause
  | InventoryDotMismatch string string | CabinetsWithoutTopology | RotateUnknownCabinet
  | IssuePartitionIndex | CAFailed pki_error
  | FilterRequired string | IssuePartitionUndefined string string | IssueFilterOutside string string string
  | AccountNotInModel string string | CaptureCabinet string issue_error | RecordRetired string issue_error
  | CabinetKeyFailed string issue_error | UserPub cause | EncodeUserJWT string cause | UserSeed cause
  | FormatCreds string cause | WriteCreds cause | LeafKeyFailed string issue_error | CSRFailed string pki_error
  | CertFailed string pki_error | WriteCert cause
  | UnsafeConsumerName string | NoPublishDeny string | ConsumerKeyFailed string issue_error
  | LoadRevocations issue_error | ImportsUnknownAccount string string | EncodeAccountJWT string cause
  | WriteAccountJWT cause | WriteIndex cause | WriteResolverConf cause
  | ParseSeed path cause | ReadSeed path os_error | CreateKeyFailed cause | SeedFailed cause | WriteSeed path cause
  | ReadLeafKey path os_error | NewLeafKey pki_error | WriteLeafKey path cause
  | ParseArtifact path cause | DecodeArtifact path cause | ReadArtifact path os_error | BadCertPEM path
  | AuditMkdir path cause | AuditOpen path cause | AuditAppend path cause

subsection \<open>Records of retired credentials\<close>

record retiredRecord =
  rr_Cabinet :: string
  rr_District :: string
  rr_Account :: string
  rr_OldUserPub :: string
  rr_OldCertSerial :: string
  rr_RotatedAt :: string

definition retired_members :: "retiredRecord \<Rightarrow> string gomap" where
  \<comment> \<open>the fields with their JSON tags\<close>
  "retired_members r =
     [(''cabinet'', rr_Cabinet r), (''district'', rr_District r), (''account'', rr_Account r),
      (''old_user_pubkey'', rr_OldUserPub r), (''old_cert_serial'', rr_OldCertSerial r),
      (''rotated_at'', rr_RotatedAt r)]"

definition retired_tags :: "string list" where
  "retired_tags = [''cabinet'', ''district'', ''account'', ''old_user_pubkey'', ''old_cert_serial'', ''rotated_at'']"

definition read_old :: "path \<Rightarrow> (string \<Rightarrow> (issue_error, string) io) \<Rightarrow> (issue_error, string) io" where
  \<comment> \<open>\<^theory_text>\<open>switch data, err := os.ReadFile(p); { case err == nil: ... case !errors.Is(err, ErrNotExist): ... }\<close>\<close>
  "read_old p f =
     bindIO (tryIO (ReadFile p)) (\<lambda>r.
       case r of
         Inr data \<Rightarrow> f data
       | Inl err \<Rightarrow> if err \<noteq> ErrNotExist then throwIO (ReadArtifact p err) else returnIO [])"

definition old_user_pub :: "nats_lib \<Rightarrow> path \<Rightarrow> string \<Rightarrow> (issue_error, string) io" where
  "old_user_pub lib credsPath data =
     bindIO (wrapIO (ParseArtifact credsPath) (libIO (ParseDecoratedJWT lib data))) (\<lambda>tok.
     bindIO (wrapIO (DecodeArtifact credsPath) (libIO (DecodeUserClaims lib tok))) (\<lambda>uc.
     returnIO (uc_Subject uc)))"

definition old_cert_serial :: "nats_lib \<Rightarrow> path \<Rightarrow> string \<Rightarrow> (issue_error, string) io" where
  "old_cert_serial lib crtPath data =
     (case pem_Decode lib data of
        None \<Rightarrow> throwIO (BadCertPEM crtPath)
      | Some blk \<Rightarrow>
          if fst blk \<noteq> ''CERTIFICATE'' then throwIO (BadCertPEM crtPath)
          else bindIO (wrapIO (ParseArtifact crtPath) (libIO (ParseCertificate lib (snd blk)))) (\<lambda>_.
            returnIO (CertSerialHex lib (snd blk))))"

definition captureRetired ::
    "nats_lib \<Rightarrow> path \<Rightarrow> string \<Rightarrow> string \<Rightarrow> string \<Rightarrow> int \<Rightarrow> (issue_error, retiredRecord option) io" where
  "captureRetired lib distDir cabinet district account now =
     (let credsPath = Join distDir (cabinet @ ''.creds'') in
      bindIO (read_old credsPath (old_user_pub lib credsPath)) (\<lambda>pub.
      let crtPath = Join distDir (cabinet @ ''.crt'') in
      bindIO (read_old crtPath (old_cert_serial lib crtPath)) (\<lambda>serial.
      if pub = [] \<and> serial = [] then returnIO None
      else returnIO (Some \<lparr>rr_Cabinet = cabinet, rr_District = district, rr_Account = account,
        rr_OldUserPub = pub, rr_OldCertSerial = serial, rr_RotatedAt = FormatRFC3339 lib now\<rparr>))))"

subsection \<open>The audit logs\<close>

definition appendJSONLine :: "path \<Rightarrow> string gomap \<Rightarrow> (issue_error, unit) io" where
  "appendJSONLine p v =
     bindIO (wrapIO (AuditMkdir (butlast p)) (osIO (MkdirAll (butlast p) 0x1C0))) (\<lambda>_.
     let line = Marshal v in
     bindIO (wrapIO (AuditOpen p) (osIO (OpenAppend p 0x1A4))) (\<lambda>_.
     deferIO CloseIO (wrapIO (AuditAppend p) (osIO (AppendIO p (line @ [newline]))))))"

definition retiredLogFile :: string where "retiredLogFile = ''retired.jsonl''"

definition retiredOperatorSKLogFile :: string where "retiredOperatorSKLogFile = ''retired-operator-sk.jsonl''"

definition retiredAccountSKLogFile :: string where "retiredAccountSKLogFile = ''retired-account-sk.jsonl''"

definition auditLogPath :: "path \<Rightarrow> string \<Rightarrow> path" where
  "auditLogPath dir name = Join (Join dir ''revocations'') name"

definition appendAuditRecord :: "path \<Rightarrow> string \<Rightarrow> string gomap \<Rightarrow> (issue_error, unit) io" where
  "appendAuditRecord dir name rec = appendJSONLine (auditLogPath dir name) rec"

definition retiredSK_members :: "string \<Rightarrow> string \<Rightarrow> string gomap" where
  "retiredSK_members oldPub rotatedAt = [(''old_operator_sk_pubkey'', oldPub), (''rotated_at'', rotatedAt)]"

definition captureRetiredOperatorSK :: "nats_lib \<Rightarrow> path \<Rightarrow> int \<Rightarrow> (issue_error, unit) io" where
  "captureRetiredOperatorSK lib dir now =
     (let p = Join dir ''operator.jwt'' in
      bindIO (tryIO (ReadFile p)) (\<lambda>r.
        case r of
          Inl err \<Rightarrow> if err = ErrNotExist then returnIO () else throwIO (ReadArtifact p err)
        | Inr data \<Rightarrow>
            (case DecodeOperatorClaims lib data of
               Inl derr \<Rightarrow> returnIO () \<comment> \<open>a warning on standard error\<close>
             | Inr oc \<Rightarrow>
                 forIO (\<lambda>pub. appendAuditRecord dir retiredOperatorSKLogFile
                   (retiredSK_members pub (FormatRFC3339 lib now))) (oc_SigningKeys oc))))"

definition retiredAccountSK_members :: "string \<Rightarrow> string \<Rightarrow> string \<Rightarrow> string gomap" where
  "retiredAccountSK_members account oldPub rotatedAt =
     [(''account'', account), (''old_account_sk_pubkey'', oldPub), (''rotated_at'', rotatedAt)]"

definition captureRetiredAccountSK :: "nats_lib \<Rightarrow> path \<Rightarrow> string \<Rightarrow> string \<Rightarrow> int \<Rightarrow> (issue_error, unit) io" where
  "captureRetiredAccountSK lib dir account accountPub now =
     (let p = Join (Join dir ''resolver'') (accountPub @ ''.jwt'') in
      bindIO (tryIO (ReadFile p)) (\<lambda>r.
        case r of
          Inl err \<Rightarrow> if err = ErrNotExist then returnIO () else throwIO (ReadArtifact p err)
        | Inr data \<Rightarrow>
            (case DecodeAccountClaims lib data of
               Inl derr \<Rightarrow> returnIO () \<comment> \<open>a warning on standard error\<close>
             | Inr ac \<Rightarrow>
                 forIO (\<lambda>pub. appendAuditRecord dir retiredAccountSKLogFile
                   (retiredAccountSK_members account pub (FormatRFC3339 lib now))) (acl_SigningKeys ac))))"

subsection \<open>Reading the log back\<close>

record revokedEntry =
  re_Pub :: string
  re_At :: int

definition revoked_entry :: "nats_lib \<Rightarrow> string \<Rightarrow> string \<Rightarrow> revokedEntry" where
  "revoked_entry lib pub rotatedAt =
     \<lparr>re_Pub = pub, re_At = (case ParseRFC3339 lib rotatedAt of Some t \<Rightarrow> t | None \<Rightarrow> zero_time)\<rparr>"

definition load_line :: "nats_lib \<Rightarrow> revokedEntry list gomap \<Rightarrow> string \<Rightarrow> revokedEntry list gomap" where
  "load_line lib out raw =
     (let line = TrimSpace raw in
      if line = [] then out
      else case UnmarshalStrings retired_tags line of
        None \<Rightarrow> out
      | Some rec \<Rightarrow>
          if rec ''old_user_pubkey'' = [] then out
          else let acct = rec ''account'' in
            AList.update acct ((case map_of out acct of None \<Rightarrow> [] | Some es \<Rightarrow> es) @
              [revoked_entry lib (rec ''old_user_pubkey'') (rec ''rotated_at'')]) out)"

definition load_log :: "nats_lib \<Rightarrow> string \<Rightarrow> revokedEntry list gomap" where
  "load_log lib data = foldl (load_line lib) [] (split_char newline data)"

definition loadRevocations :: "nats_lib \<Rightarrow> path \<Rightarrow> (issue_error, revokedEntry list gomap) io" where
  "loadRevocations lib p =
     bindIO (tryIO (ReadFile p)) (\<lambda>r.
       case r of
         Inl err \<Rightarrow> if err = ErrNotExist then returnIO [] else throwIO (ReadArtifact p err)
       | Inr data \<Rightarrow> returnIO (load_log lib data))"

subsection \<open>The log as a function of its records\<close>

definition retired_line :: "string gomap \<Rightarrow> string" where
  "retired_line v = Marshal v @ [newline]"

definition revoked_for :: "nats_lib \<Rightarrow> string \<Rightarrow> string \<Rightarrow> revokedEntry list" where
  "revoked_for lib data acct = (case map_of (load_log lib data) acct of None \<Rightarrow> [] | Some es \<Rightarrow> es)"

definition whole_lines :: "string \<Rightarrow> bool" where
  "whole_lines data \<longleftrightarrow> data = [] \<or> last data = newline"

lemma TrimSpace_Marshal: "TrimSpace (Marshal kvs) = Marshal kvs"
proof -
  have "\<not> white_space CHR ''{''" "\<not> white_space CHR ''}''" by code_simp+
  then show ?thesis by (simp add: TrimSpace_def Marshal_def)
qed

lemma retired_fields:
  "UnmarshalStrings retired_tags (Marshal (retired_members r)) =
     Some (\<lambda>t. case map_of (retired_members r) t of None \<Rightarrow> [] | Some v \<Rightarrow> v)"
  by (rule Unmarshal_Marshal) (simp_all add: retired_tags_def retired_members_def)

lemma load_line_blank [simp]: "load_line lib out [] = out"
  by (simp add: load_line_def TrimSpace_def)

lemma load_line_record:
  "load_line lib out (Marshal (retired_members r)) =
     (if rr_OldUserPub r = [] then out
      else AList.update (rr_Account r) ((case map_of out (rr_Account r) of None \<Rightarrow> [] | Some es \<Rightarrow> es) @
        [revoked_entry lib (rr_OldUserPub r) (rr_RotatedAt r)]) out)"
proof -
  have "Marshal (retired_members r) \<noteq> []" by (simp add: Marshal_def)
  then show ?thesis
    by (simp add: load_line_def TrimSpace_Marshal retired_fields Let_def) (simp add: retired_members_def)
qed

lemma split_whole_lines:
  "whole_lines old \<Longrightarrow> newline \<notin> set l \<Longrightarrow>
     \<exists>ls. split_char newline old = ls @ [[]] \<and> split_char newline (old @ l) = ls @ [l] \<and>
       split_char newline (old @ l @ [newline]) = ls @ [l, []]"
proof (cases "old = []")
  case True
  then show "newline \<notin> set l \<Longrightarrow> ?thesis"
    by (intro exI [of _ "[]"]) (simp add: split_char_no_sep split_char_append [of newline l "[]", simplified])
next
  case False
  moreover assume "whole_lines old" "newline \<notin> set l"
  ultimately obtain a where "old = a @ [newline]"
    by (metis append_butlast_last_id whole_lines_def)
  with \<open>newline \<notin> set l\<close> show ?thesis
    using split_char_append [of newline l "[]"]
    by (simp add: split_char_append split_char_no_sep)
qed

lemma load_log_append:
  assumes "whole_lines old"
  shows "load_log lib (old @ retired_line (retired_members r)) = load_line lib (load_log lib old) (Marshal (retired_members r))"
  using split_whole_lines [OF assms Marshal_line [of "retired_members r"]]
  by (auto simp: load_log_def retired_line_def)

lemma revoked_for_append:
  assumes "whole_lines old" and "rr_OldUserPub r \<noteq> []"
  shows "revoked_for lib (old @ retired_line (retired_members r)) acct =
    revoked_for lib old acct @
      (if acct = rr_Account r then [revoked_entry lib (rr_OldUserPub r) (rr_RotatedAt r)] else [])"
  using assms(2) by (simp add: revoked_for_def load_log_append [OF assms(1)] load_line_record update_conv')

text \<open>A torn line at the end takes nothing away from the lines before it.\<close>

lemma load_line_grows:
  "set (case map_of out acct of None \<Rightarrow> [] | Some es \<Rightarrow> es) \<subseteq>
     set (case map_of (load_line lib out l) acct of None \<Rightarrow> [] | Some es \<Rightarrow> es)"
  by (auto simp: load_line_def Let_def update_conv' split: option.split)

lemma revoked_for_torn:
  assumes "whole_lines old" and "newline \<notin> set l"
  shows "set (revoked_for lib old acct) \<subseteq> set (revoked_for lib (old @ l) acct)"
proof -
  obtain ls where "split_char newline old = ls @ [[]]" "split_char newline (old @ l) = ls @ [l]"
    using split_whole_lines [OF assms] by blast
  then show ?thesis
    using load_line_grows [of "foldl (load_line lib) [] ls" acct lib l] by (simp add: revoked_for_def load_log_def)
qed

subsection \<open>Appending\<close>

definition content :: "fs \<Rightarrow> path \<Rightarrow> string" where
  "content s p = (case lookup s p of Some (Reg m c) \<Rightarrow> c | _ \<Rightarrow> [])"

lemma frame_audit:
  assumes "p \<noteq> q" and "\<not> prefix q (butlast p)"
  shows "ensures P (unchanged q) (appendJSONLine p v) (\<lambda>_ _. True)"
proof -
  have "ensures P (unchanged q) (MkdirAll (butlast p) 0x1C0) (\<lambda>_ _. True)"
    using assms(2) by (intro ens_pre [OF frame_MkdirAll]) (metis take_is_prefix, simp)
  then show ?thesis
    unfolding appendJSONLine_def Let_def
    by (intro uc.ens_bind [where M = "\<lambda>_ _. True"] ensures_wrap ens_osIO ens_defer_quiet quiet
        frame_OpenAppend frame_AppendIO assms)
qed


text \<open>In every state of an append the log is what it was, with a part of the line after it.\<close>

lemma audit_content:
  assumes "p \<noteq> []"
  shows "ensures (\<lambda>s. content s p = c0) (keeps (\<lambda>s. \<exists>k. content s p = c0 @ take k (retired_line v)))
    (appendJSONLine p v) (\<lambda>_ s. content s p = c0 @ retired_line v)"
proof -
  let ?I = "\<lambda>s. \<exists>k. content s p = c0 @ take k (retired_line v)"
  have "\<not> prefix p (butlast p)"
    using assms by (metis append_butlast_last_id not_Cons_self2 prefix_order.antisym prefixI self_append_conv)
  then have mk: "ensures (\<lambda>s. content s p = c0) (unchanged p) (MkdirAll (butlast p) 0x1C0) (\<lambda>_ _. True)"
    by (intro ens_pre [OF frame_MkdirAll]) (metis take_is_prefix, simp)
  have I: "?I = (\<lambda>s. (\<lambda>n. \<exists>k. (case n of Some (Reg m c) \<Rightarrow> c | _ \<Rightarrow> []) = c0 @ take k (retired_line v)) (lookup s p))"
    by (simp add: content_def)
  have 1: "ensures (\<lambda>s. content s p = c0) (keeps ?I) (wrapIO (AuditMkdir (butlast p)) (osIO (MkdirAll (butlast p) 0x1C0)))
      (\<lambda>_ s. content s p = c0)"
    unfolding I
    using ensures_frame [OF mk, where I = "\<lambda>n. (case n of Some (Reg m c) \<Rightarrow> c | _ \<Rightarrow> []) = c0"]
    by (intro ensures_wrap ens_osIO unchanged_keeps) (simp add: content_def ensures_def)
  have 2: "ensures (\<lambda>s. content s p = c0) (keeps ?I) (wrapIO (AuditOpen p) (osIO (OpenAppend p 0x1A4)))
      (\<lambda>_ s. content s p = c0 \<and> is_reg s p)"
    by (intro ensures_wrap ens_osIO kp.ens_OpenAppend)
      (auto simp: keeps_def content_def is_reg_def is_dir_def dest!: op_open_append_lookup split: option.splits node.splits)
  have 3: "ensures (\<lambda>s. content s p = c0 \<and> is_reg s p) (keeps ?I)
      (deferIO CloseIO (wrapIO (AuditAppend p) (osIO (AppendIO p (Marshal v @ [newline])))))
      (\<lambda>_ s. content s p = c0 @ retired_line v)"
  proof (intro ens_defer_quiet ensures_wrap ens_osIO quiet)
    show "ensures (\<lambda>s. content s p = c0 \<and> is_reg s p) (keeps ?I) (AppendIO p (Marshal v @ [newline]))
        (\<lambda>_ s. content s p = c0 @ retired_line v)"
      by (rule kp.ens_AppendIO) (auto simp: keeps_def content_def is_reg_def retired_line_def dest!: op_append_lookup
          split: option.splits node.splits)
  qed
  show ?thesis unfolding appendJSONLine_def Let_def
    by (rule kp.ens_bind [OF 1 kp.ens_bind [OF 2 3]])
qed


lemma auditLogPath_eq:
  "plain_name name \<Longrightarrow> auditLogPath dir name = dir @ ''revocations'' # split_char CHR ''/'' name"
proof -
  have "plain_name ''revocations''" "split_char CHR ''/'' ''revocations'' = [''revocations'']" by code_simp+
  then show "plain_name name \<Longrightarrow> ?thesis" by (simp add: auditLogPath_def Join_plain)
qed

lemma retired_log_path: "auditLogPath dir retiredLogFile = dir @ [''revocations'', ''retired.jsonl'']"
proof -
  have "plain_name retiredLogFile" "split_char CHR ''/'' retiredLogFile = [''retired.jsonl'']" by code_simp+
  then show ?thesis by (simp add: auditLogPath_eq)
qed

lemma loadRevocations_content:
  assumes "loadRevocations lib p w = (Inr m, w')"
  shows "m = load_log lib (content (w_fs w) p)"
proof -
  have empty: "load_log lib [] = []" by (simp add: load_log_def)
  show ?thesis
    using assms
    by (auto simp: loadRevocations_def bindIO_def tryIO_def ReadFile_run returnIO_def throwIO_def content_def
        op_read_def empty split: if_splits option.splits node.splits)
qed

lemma whole_lines_append: "whole_lines (old @ retired_line v)"
  by (simp add: whole_lines_def retired_line_def)

definition entries :: "revokedEntry list gomap \<Rightarrow> string \<Rightarrow> revokedEntry list" where
  "entries m acct = (case map_of m acct of None \<Rightarrow> [] | Some es \<Rightarrow> es)"

text \<open>
  C27. A record that was appended to a log of whole lines is read back, after everything the log held
  before, as an entry of its account, and the log consists of whole lines again.
\<close>

theorem append_then_revoked:
  assumes "whole_lines (content (w_fs w) (auditLogPath dir retiredLogFile))" and "rr_OldUserPub r \<noteq> []"
    and "appendAuditRecord dir retiredLogFile (retired_members r) w = (Inr (), w')"
    and "loadRevocations lib (auditLogPath dir retiredLogFile) w' = (Inr after, v)"
  shows "whole_lines (content (w_fs w') (auditLogPath dir retiredLogFile)) \<and>
    entries after acct =
      entries (load_log lib (content (w_fs w) (auditLogPath dir retiredLogFile))) acct @
      (if acct = rr_Account r then [revoked_entry lib (rr_OldUserPub r) (rr_RotatedAt r)] else [])"
proof -
  let ?p = "auditLogPath dir retiredLogFile"
  have "?p \<noteq> []" by (simp add: retired_log_path)
  then have "content (w_fs w') ?p = content (w_fs w) ?p @ retired_line (retired_members r)"
    using ensuresD(2) [OF audit_content [of ?p "content (w_fs w) ?p" "retired_members r"] _ assms(3) [unfolded appendAuditRecord_def]]
    by simp
  then show ?thesis
    using revoked_for_append [OF assms(1,2)] loadRevocations_content [OF assms(4)]
    by (simp add: whole_lines_append entries_def revoked_for_def)
qed


subsection \<open>Runs of an example library\<close>

definition ex_nats :: nats_lib where
  "ex_nats = pki_lib.extend ex_pki
     (nats_lib.fields
       (\<lambda>k r. (case k of OperatorKey \<Rightarrow> CHR ''O'' | AccountKey \<Rightarrow> CHR ''A'' | UserKey \<Rightarrow> CHR ''U'') # r)
       Inr (\<lambda>kp. Inr (CHR ''P'' # kp)) Inr
       (\<lambda>c kp t. Inr (oc_Subject c)) (\<lambda>c kp t. Inr (acl_Subject c)) (\<lambda>c kp t. Inr (uc_Subject c))
       (\<lambda>tok seed. Inr (tok @ newline # seed))
       (\<lambda>tok. Inr \<lparr>uc_Subject = takeWhile (\<lambda>c. c \<noteq> newline) tok, uc_Name = [], uc_IssuerAccount = [], uc_PubAllow = [],
          uc_PubDeny = [], uc_SubAllow = [], uc_SubDeny = [], uc_Expires = 0\<rparr>)
       (\<lambda>tok. Inr \<lparr>oc_Subject = tok, oc_Name = [], oc_SigningKeys = [tok]\<rparr>)
       (\<lambda>tok. Inl ''malformed'') (\<lambda>d. ''5'') (\<lambda>t. ''T'') (\<lambda>s. if s = ''T'' then Some 7 else None))"

definition ex_retired :: "string \<Rightarrow> retiredRecord" where
  "ex_retired pub = \<lparr>rr_Cabinet = ''cab-1'', rr_District = ''d'', rr_Account = ''DISTRICT_D'', rr_OldUserPub = pub,
     rr_OldCertSerial = ''5'', rr_RotatedAt = ''T''\<rparr>"

lemma append_then_revoked_witness:
  "let w = ex_ca_world []; p = auditLogPath [] retiredLogFile;
       (r, w') = appendAuditRecord [] retiredLogFile (retired_members (ex_retired ''U1'')) w in
   r = Inr () \<and> entries (load_log ex_nats (content (w_fs w') p)) ''DISTRICT_D'' = [\<lparr>re_Pub = ''U1'', re_At = 7\<rparr>]"
proof -
  let ?w = "ex_ca_world []" let ?p = "auditLogPath [] retiredLogFile"
  let ?run = "appendAuditRecord [] retiredLogFile (retired_members (ex_retired ''U1'')) ?w"
  have run: "fst ?run = Inr ()" by code_simp
  obtain r w' where rw: "?run = (r, w')" by fastforce
  with run have rw': "?run = (Inr (), w')" by simp
  have "\<not> isl (fst (loadRevocations ex_nats ?p (snd ?run)))" by code_simp
  then obtain m v where load: "loadRevocations ex_nats ?p w' = (Inr m, v)"
    using rw by (cases "loadRevocations ex_nats ?p w'"; cases "fst (loadRevocations ex_nats ?p w')") auto
  have start: "whole_lines (content (w_fs ?w) ?p)" "rr_OldUserPub (ex_retired ''U1'') \<noteq> []" by code_simp+
  have old: "entries (load_log ex_nats (content (w_fs ?w) ?p)) ''DISTRICT_D'' @
      (if ''DISTRICT_D'' = rr_Account (ex_retired ''U1'')
       then [revoked_entry ex_nats (rr_OldUserPub (ex_retired ''U1'')) (rr_RotatedAt (ex_retired ''U1''))] else []) =
      [\<lparr>re_Pub = ''U1'', re_At = 7\<rparr>]" by code_simp
  from append_then_revoked [OF start rw' load, of "''DISTRICT_D''"] old loadRevocations_content [OF load] rw'
  show ?thesis by simp
qed

text \<open>
  A log that ends in a torn line is not one of whole lines: the next record is appended to the
  torn line, both are skipped, and the second credential is never revoked although its record was
  written without an error.
\<close>

lemma torn_append_loses_next:
  "let w = (ex_ca_world [])\<lparr>w_fault := (\<lambda>n. n = 2), w_short := (\<lambda>_. 10)\<rparr>;
       (r1, w1) = appendAuditRecord [] retiredLogFile (retired_members (ex_retired ''U1'')) w;
       (r2, w2) = appendAuditRecord [] retiredLogFile (retired_members (ex_retired ''U2'')) w1 in
   isl r1 \<and> r2 = Inr () \<and>
   load_log ex_nats (content (w_fs w2) (auditLogPath [] retiredLogFile)) = []"
  by code_simp

end
