(* ===== verification/Naming.thy ===== *)
theory Naming
  imports Go_Strings
begin

section \<open>Naming and subject-space conventions\<close>

text \<open>
  Package internal/naming: the names of streams, accounts and DNS records derived from the ids
  of a topology, and the subject-space boundary test that the generator (plan.AttachCabinets)
  and the issuer (issuance.mintCabinets) share. The abstract specification of the boundary test
  is NATS subject matching over the tokens of a subject.
\<close>

subsection \<open>The boundary test and the subject grammar\<close>

definition UnderPrefix :: "string \<Rightarrow> string \<Rightarrow> bool" where
  "UnderPrefix subject pfx =
     (case CutSuffix pfx ''.>'' of
        Some base \<Rightarrow> HasPrefix subject (base @ ''.'')
      | None \<Rightarrow> subject = pfx)"

definition subject_byte :: "char \<Rightarrow> bool" where
  "subject_byte r \<longleftrightarrow>
     CHR ''a'' \<le> r \<and> r \<le> CHR ''z'' \<or> CHR ''A'' \<le> r \<and> r \<le> CHR ''Z'' \<or>
     CHR ''0'' \<le> r \<and> r \<le> CHR ''9'' \<or> r = CHR ''_'' \<or> r = CHR ''-''"

fun valid_tokens :: "string list \<Rightarrow> bool" where
  \<comment> \<open>the loop over the tokens; the tail is empty exactly at the last index\<close>
  "valid_tokens [] = True"
| "valid_tokens (tok # rest) =
     (if tok = [] then False
      else if tok = ''*'' then valid_tokens rest
      else if tok = ''>'' then (if rest \<noteq> [] then False else valid_tokens rest)
      else if list_all subject_byte tok then valid_tokens rest else False)"

definition ValidSubjectString :: "string \<Rightarrow> bool" where
  "ValidSubjectString s =
     (if s = [] then False else valid_tokens (split_char (CHR ''.'') s))"

subsection \<open>Derived names\<close>

definition Sanitize :: "string \<Rightarrow> string" where
  "Sanitize s = ReplaceByte (CHR ''-'') (CHR ''_'') (ReplaceByte (CHR ''/'') (CHR ''_'') (ToUpper s))"

definition DistrictAccountName :: "string \<Rightarrow> string" where
  "DistrictAccountName districtID = ''DISTRICT_'' @ Sanitize districtID"

definition OperatorName :: "string \<Rightarrow> string" where
  "OperatorName dot = ''VIKASA_'' @ Sanitize dot"

definition PartitionStreamName :: "string \<Rightarrow> string \<Rightarrow> string \<Rightarrow> string" where
  "PartitionStreamName dot district partID =
     ''VIKASA_'' @ Sanitize dot @ ''_'' @ Sanitize district @ ''_'' @ Sanitize partID"

definition CentralStreamName :: "string \<Rightarrow> string" where
  "CentralStreamName dot = ''VIKASA_'' @ Sanitize dot @ ''_CENTRAL''"

definition CentralShardStreamName :: "string \<Rightarrow> string \<Rightarrow> string \<Rightarrow> string" where
  "CentralShardStreamName dot district partID =
     ''VIKASA_'' @ Sanitize dot @ ''_CENTRAL_'' @ Sanitize district @ ''_'' @ Sanitize partID"

definition DMZStreamName :: "string \<Rightarrow> string" where
  "DMZStreamName dot = ''VIKASA_'' @ Sanitize dot @ ''_DMZ''"

definition BufferStreamName :: string where
  "BufferStreamName = ''VIKASA_BUFFER''"

definition RootSpace :: string where
  "RootSpace = ''vikasa.>''"

definition DefaultSubjectPrefix :: "string \<Rightarrow> string \<Rightarrow> string" where
  "DefaultSubjectPrefix dot districtID = ''vikasa.'' @ dot @ ''.'' @ districtID @ ''.>''"

definition SubjectSpace :: "string \<Rightarrow> string \<Rightarrow> string option \<Rightarrow> string" where
  "SubjectSpace dot districtID declared =
     (case declared of Some p \<Rightarrow> p | None \<Rightarrow> DefaultSubjectPrefix dot districtID)"

definition Anchor :: "string \<Rightarrow> string" where
  "Anchor dot = ''vikasa.'' @ dot @ ''.''"

definition ShareSpace :: "string \<Rightarrow> string" where
  "ShareSpace dot = ''vikasa.'' @ dot @ ''.share.''"

definition PeerSpace :: "string \<Rightarrow> string" where
  "PeerSpace dot = ''vikasa.peer.'' @ dot @ ''.''"

definition LeafDNSName :: "string \<Rightarrow> string \<Rightarrow> string" where
  "LeafDNSName dot partitionID =
     (let partDNS = ReplaceByte (CHR ''/'') (CHR ''-'') (ToLower partitionID)
      in ''leaf-'' @ ToLower dot @ ''-'' @ partDNS @ ''.nats.vikasa.'' @ ToLower dot)"

definition CentralAccountName :: string where
  "CentralAccountName = ''CENTRAL''"

definition DMZAccountName :: string where
  "DMZAccountName = ''DMZ''"

definition SystemAccountName :: string where
  "SystemAccountName = ''SYSTEM''"

definition FilterUnderDistrict ::
    "string \<Rightarrow> string \<Rightarrow> string option \<Rightarrow> string \<Rightarrow> string \<times> bool" where
  "FilterUnderDistrict dot districtID declared filter_subject =
     (let space = SubjectSpace dot districtID declared
      in (space, UnderPrefix filter_subject space))"

subsection \<open>Specification: NATS subject matching\<close>

definition tokens :: "string \<Rightarrow> string list" where
  "tokens s = split_char (CHR ''.'') s"

fun nats_match :: "string list \<Rightarrow> string list \<Rightarrow> bool" where
  \<comment> \<open>\<open>*\<close> stands for one token, a final \<open>>\<close> for one or more\<close>
  "nats_match [] [] = True"
| "nats_match (p # ps) (t # ts) =
     (if p = ''>'' \<and> ps = [] then True else (p = ''*'' \<or> p = t) \<and> nats_match ps ts)"
| "nats_match [] (t # ts) = False"
| "nats_match (p # ps) [] = False"

lemma nats_match_not_Nil: "ps \<noteq> [] \<Longrightarrow> nats_match ps ts \<Longrightarrow> ts \<noteq> []"
  by (cases ps; cases ts) auto

lemma nats_match_tail: "fs \<noteq> [] \<Longrightarrow> nats_match (bs @ fs) ts \<Longrightarrow> nats_match (bs @ [''>'']) ts"
proof (induction bs arbitrary: ts)
  case Nil
  then show ?case by (cases ts) (auto dest: nats_match_not_Nil)
next
  case (Cons b bs)
  then show ?case by (cases ts) auto
qed

definition literal_tokens :: "string list \<Rightarrow> bool" where
  "literal_tokens ts \<longleftrightarrow> ''*'' \<notin> set ts \<and> ''>'' \<notin> set ts"

lemma nats_match_literal_prefix:
  "literal_tokens bs \<Longrightarrow> nats_match (bs @ fs) ts \<longleftrightarrow> (\<exists>r. ts = bs @ r \<and> nats_match fs r)"
proof (induction bs arbitrary: ts)
  case (Cons b bs)
  then show ?case by (cases ts) (auto simp: literal_tokens_def)
qed simp

lemma nats_match_rest: "nats_match [''>''] ts \<longleftrightarrow> ts \<noteq> []"
  by (cases ts) auto

lemma tokens_dot: "tokens (a @ ''.'' @ b) = tokens a @ tokens b"
  by (simp add: tokens_def split_char_append)

lemma tokens_dot_Cons: "tokens (a @ CHR ''.'' # b) = tokens a @ tokens b"
  by (simp add: tokens_def split_char_append)

lemma tokens_not_Nil [simp]: "tokens s \<noteq> []"
  by (simp add: tokens_def)

lemma tokens_wildcard [simp]: "tokens ''>'' = [''>'']"
  by (simp add: tokens_def)

lemma tokens_inj: "tokens s = tokens t \<longleftrightarrow> s = t"
  by (auto simp: tokens_def dest: split_char_inj)

lemma tokens_rest: "tokens (b @ ''.>'') = tokens b @ [''>'']"
  using tokens_dot [of b "''>''"] by (simp add: tokens_def)

lemma tokens_extend: "tokens s = tokens b @ r \<Longrightarrow> r \<noteq> [] \<Longrightarrow> \<exists>x. s = b @ ''.'' @ x \<and> tokens x = r"
proof -
  assume *: "tokens s = tokens b @ r" "r \<noteq> []"
  then have "\<forall>t\<in>set r. CHR ''.'' \<notin> set t"
    by (metis Un_iff set_append split_char_pieces tokens_def)
  with * have r: "tokens (join ''.'' r) = r"
    by (simp add: tokens_def split_join)
  then have "tokens (b @ ''.'' @ join ''.'' r) = tokens s"
    using * by (simp add: tokens_dot_Cons)
  then show ?thesis using r by (auto simp: tokens_inj)
qed

lemma UnderPrefix_space: "UnderPrefix s (b @ ''.>'') \<longleftrightarrow> (\<exists>x. s = b @ ''.'' @ x)"
  by (simp add: UnderPrefix_def CutSuffix_eq_Some [THEN iffD2, OF refl] HasPrefix_iff)

lemma UnderPrefix_exact: "\<not> HasSuffix p ''.>'' \<Longrightarrow> UnderPrefix s p \<longleftrightarrow> s = p"
  by (simp add: UnderPrefix_def CutSuffix_def)

lemma UnderPrefix_cases:
  obtains b where "p = b @ ''.>''" "UnderPrefix s p \<longleftrightarrow> (\<exists>x. s = b @ ''.'' @ x)"
        | "\<not> HasSuffix p ''.>''" "UnderPrefix s p \<longleftrightarrow> s = p"
  using UnderPrefix_exact UnderPrefix_space by (metis HasSuffix_iff)


subsection \<open>The boundary contract and its users\<close>

text \<open>
  What plan.AttachCabinets and issuance.mintCabinets rely on when they let a filter through: a
  filter under a space selects nothing that the space does not select, so a set of filters each
  checked against the space stays inside it, and boundaries nest.
\<close>

locale subject_boundary =
  fixes under :: "string \<Rightarrow> string \<Rightarrow> bool"
  assumes under_refl: "under p p"
    and under_trans: "under f p \<Longrightarrow> under p q \<Longrightarrow> under f q"
    and under_sound: "under f p \<Longrightarrow> nats_match (tokens f) ts \<Longrightarrow> nats_match (tokens p) ts"
begin

lemma grants_confined:
  "\<forall>f\<in>set fs. under f p \<Longrightarrow> \<exists>f\<in>set fs. nats_match (tokens f) ts \<Longrightarrow> nats_match (tokens p) ts"
  using under_sound by blast

lemma nested_grants_confined:
  "under p q \<Longrightarrow> \<forall>f\<in>set fs. under f p \<Longrightarrow> \<exists>f\<in>set fs. nats_match (tokens f) ts \<Longrightarrow>
     nats_match (tokens q) ts"
  using under_sound by blast

end

lemma UnderPrefix_refl: "UnderPrefix p p"
  by (cases rule: UnderPrefix_cases [of p p]) auto

lemma space_extends: "b @ ''.>'' = c @ ''.'' @ y \<Longrightarrow> b = c \<or> (\<exists>z. b = c @ ''.'' @ z)"
proof (cases y rule: rev_cases)
  case (snoc y' d)
  moreover assume "b @ ''.>'' = c @ ''.'' @ y"
  ultimately have "(b @ ''.'') @ ''>'' = (c @ ''.'' @ y') @ [d]" by simp
  then have eq: "b @ ''.'' = c @ ''.'' @ y'" by (simp only: append1_eq_conv)
  show ?thesis
  proof (cases y' rule: rev_cases)
    case Nil
    with eq show ?thesis by simp
  next
    case (snoc z e)
    with eq have "b @ ''.'' = (c @ ''.'' @ z) @ [e]" by simp
    then have "b = c @ ''.'' @ z" by (simp only: append1_eq_conv)
    then show ?thesis by blast
  qed
next
  case Nil
  moreover assume "b @ ''.>'' = c @ ''.'' @ y"
  ultimately have "last (b @ ''.>'') = last (c @ ''.'')" by simp
  then show ?thesis by simp
qed

lemma UnderPrefix_trans:
  assumes "UnderPrefix f p" and "UnderPrefix p q"
  shows "UnderPrefix f q"
proof (cases rule: UnderPrefix_cases [of q p])
  case (1 c)
  with assms obtain y where p: "p = c @ ''.'' @ y" by auto
  show ?thesis
  proof (cases rule: UnderPrefix_cases [of p f])
    case (1 b)
    with assms obtain x where f: "f = b @ ''.'' @ x" by auto
    from p 1 have e: "b @ ''.>'' = c @ ''.'' @ y" by simp
    then have "b = c \<or> (\<exists>z. b = c @ ''.'' @ z)" by (rule space_extends)
    with f \<open>q = c @ ''.>''\<close> show ?thesis by (auto simp: UnderPrefix_space)
  next
    case 2
    with assms show ?thesis by simp
  qed
next
  case 2
  with assms show ?thesis by simp
qed

lemma UnderPrefix_match:
  assumes "UnderPrefix f p" and "nats_match (tokens f) ts"
  shows "nats_match (tokens p) ts"
proof (cases rule: UnderPrefix_cases [of p f])
  case (1 b)
  with assms(1) obtain x where "f = b @ ''.'' @ x" by auto
  with assms(2) have "nats_match (tokens b @ tokens x) ts"
    by (simp add: tokens_dot_Cons)
  then have "nats_match (tokens b @ [''>'']) ts"
    by (rule nats_match_tail [OF tokens_not_Nil])
  then show ?thesis by (simp only: 1(1) tokens_rest)
next
  case 2
  with assms show ?thesis by simp
qed

interpretation bd: subject_boundary UnderPrefix
  by unfold_locales (auto intro: UnderPrefix_refl UnderPrefix_trans UnderPrefix_match)

subsection \<open>The subject grammar\<close>

definition subject_token :: "string \<Rightarrow> bool" where
  "subject_token t \<longleftrightarrow> t = ''*'' \<or> t \<noteq> [] \<and> list_all subject_byte t"

lemma subject_token_not_rest: "\<not> subject_token ''>''"
  by (simp add: subject_token_def subject_byte_def)

lemma valid_tokens_iff:
  "ts \<noteq> [] \<Longrightarrow> valid_tokens ts \<longleftrightarrow>
     (\<forall>t\<in>set (butlast ts). subject_token t) \<and> (last ts = ''>'' \<or> subject_token (last ts))"
proof (induction ts)
  case (Cons t ts)
  then show ?case
    by (cases "ts = []") (auto simp: subject_token_def subject_byte_def)
qed simp

lemma valid_tokens_bytes:
  "valid_tokens ts \<Longrightarrow> t \<in> set ts \<Longrightarrow> c \<in> set t \<Longrightarrow> subject_byte c \<or> c = CHR ''*'' \<or> c = CHR ''>''"
  by (induction ts) (auto split: if_splits simp: list_all_iff)

lemma ValidSubjectString_bytes:
  assumes "ValidSubjectString s" and "c \<in> set s"
  shows "subject_byte c \<or> c \<in> {CHR ''.'', CHR ''*'', CHR ''>''}"
proof -
  from assms have v: "valid_tokens (split_char (CHR ''.'') s)"
    by (simp add: ValidSubjectString_def split: if_splits)
  from assms(2) have "c = CHR ''.'' \<or> (\<exists>t\<in>set (split_char (CHR ''.'') s). c \<in> set t)"
    using set_subset_pieces [of s "CHR ''.''"] by auto
  with v show ?thesis using valid_tokens_bytes by blast
qed

subsection \<open>Properties\<close>

text \<open>
  C29. The boundary test is NATS matching: a subject is under the space \<open>b.>\<close> exactly when the
  NATS pattern \<open>b.>\<close> matches it, token by token, whenever \<open>b\<close> itself holds no wildcard.
  In particular \<open>vikasa.exdot.d70.x\<close> is not under \<open>vikasa.exdot.d7.>\<close>, nor is the bare root.
\<close>

theorem UnderPrefix_is_nats_matching:
  assumes "literal_tokens (tokens b)"
  shows "UnderPrefix s (b @ ''.>'') \<longleftrightarrow> nats_match (tokens (b @ ''.>'')) (tokens s)"
proof
  assume "UnderPrefix s (b @ ''.>'')"
  then obtain x where "s = b @ ''.'' @ x" by (auto simp: UnderPrefix_space)
  with assms show "nats_match (tokens (b @ ''.>'')) (tokens s)"
    by (simp add: tokens_rest tokens_dot_Cons nats_match_literal_prefix nats_match_rest)
next
  assume "nats_match (tokens (b @ ''.>'')) (tokens s)"
  with assms obtain r where "tokens s = tokens b @ r" "r \<noteq> []"
    by (auto simp: tokens_rest nats_match_literal_prefix nats_match_rest)
  then show "UnderPrefix s (b @ ''.>'')"
    by (auto simp: UnderPrefix_space dest!: tokens_extend)
qed

theorem UnderPrefix_is_nats_matching_witness:
  "UnderPrefix ''vikasa.exdot.d7.a'' ''vikasa.exdot.d7.>'' \<and>
   \<not> UnderPrefix ''vikasa.exdot.d70.x'' ''vikasa.exdot.d7.>'' \<and>
   \<not> UnderPrefix ''vikasa.exdot.d7'' ''vikasa.exdot.d7.>''"
proof -
  have lit: "literal_tokens (tokens ''vikasa.exdot.d7'')"
    by (simp add: literal_tokens_def tokens_def)
  show ?thesis
    using UnderPrefix_is_nats_matching [OF lit, of "''vikasa.exdot.d7.a''"]
      UnderPrefix_is_nats_matching [OF lit, of "''vikasa.exdot.d70.x''"]
      UnderPrefix_is_nats_matching [OF lit, of "''vikasa.exdot.d7''"]
    by (simp add: tokens_def)
qed

text \<open>
  Confinement: a filter that passes the district test resolves to the district's space, and
  every concrete subject the filter selects is selected by that space, wildcards on either side
  included. This is what makes the filter safe as a JWT permission and as a source filter.
\<close>

theorem FilterUnderDistrict_confines:
  assumes "FilterUnderDistrict dot d declared f = (space, True)"
    and "nats_match (tokens f) ts"
  shows "space = SubjectSpace dot d declared \<and> nats_match (tokens space) ts"
  using assms bd.grants_confined [of "[f]" space ts]
  by (auto simp: FilterUnderDistrict_def Let_def)

theorem FilterUnderDistrict_confines_witness:
  "nats_match (tokens ''vikasa.exdot.d7.>'') [''vikasa'', ''exdot'', ''d7'', ''a'', ''speed'']"
proof -
  have f: "FilterUnderDistrict ''exdot'' ''d7'' None ''vikasa.exdot.d7.*.speed'' =
      (''vikasa.exdot.d7.>'', True)"
    by (simp add: FilterUnderDistrict_def SubjectSpace_def DefaultSubjectPrefix_def
        UnderPrefix_def CutSuffix_def HasSuffix_def HasPrefix_def)
  have m: "nats_match (tokens ''vikasa.exdot.d7.*.speed'')
      [''vikasa'', ''exdot'', ''d7'', ''a'', ''speed'']"
    by (simp add: tokens_def)
  show ?thesis by (rule FilterUnderDistrict_confines [OF f m, THEN conjunct2])
qed

text \<open>
  The subject grammar: a string passes ValidSubjectString exactly when it has at least one
  byte and all its dot-separated tokens are \<open>*\<close> or non-empty runs of letters, digits, \<open>_\<close> and
  \<open>-\<close>, except that the last one may be \<open>>\<close>. Hence no quote, brace, white-space or control byte
  of a spec reaches the rendered configuration.
\<close>

theorem ValidSubjectString_grammar:
  "ValidSubjectString s \<longleftrightarrow>
     s \<noteq> [] \<and> (\<forall>t\<in>set (butlast (tokens s)). subject_token t) \<and>
     (last (tokens s) = ''>'' \<or> subject_token (last (tokens s))) \<and>
     (\<forall>c\<in>set s. subject_byte c \<or> c \<in> {CHR ''.'', CHR ''*'', CHR ''>''})"
proof -
  have "ValidSubjectString s \<longleftrightarrow>
      s \<noteq> [] \<and> (\<forall>t\<in>set (butlast (tokens s)). subject_token t) \<and>
      (last (tokens s) = ''>'' \<or> subject_token (last (tokens s)))"
    by (simp add: ValidSubjectString_def tokens_def valid_tokens_iff)
  then show ?thesis using ValidSubjectString_bytes by blast
qed

theorem ValidSubjectString_grammar_witness:
  "ValidSubjectString ''vikasa.exdot.*.>'' \<and> \<not> ValidSubjectString ''vikasa..x'' \<and>
   \<not> ValidSubjectString ''vikasa.>.x''"
  unfolding ValidSubjectString_grammar
  by (simp add: tokens_def subject_token_def subject_byte_def)

text \<open>
  Default subject spaces of different districts are disjoint: no subject is under both, for
  ids without a dot (every district id of a validated topology is such).
\<close>

theorem default_spaces_disjoint:
  assumes "CHR ''.'' \<notin> set d" and "CHR ''.'' \<notin> set e" and "d \<noteq> e"
  shows "\<not> (UnderPrefix s (DefaultSubjectPrefix dot d) \<and> UnderPrefix s (DefaultSubjectPrefix dot e))"
proof
  have space: "DefaultSubjectPrefix dot z = (''vikasa.'' @ dot @ ''.'' @ z) @ ''.>''" for z
    by (simp add: DefaultSubjectPrefix_def)
  assume "UnderPrefix s (DefaultSubjectPrefix dot d) \<and> UnderPrefix s (DefaultSubjectPrefix dot e)"
  then obtain x y where "s = (''vikasa.'' @ dot @ ''.'' @ d) @ ''.'' @ x"
    "s = (''vikasa.'' @ dot @ ''.'' @ e) @ ''.'' @ y"
    unfolding space UnderPrefix_space by blast
  then have "d @ ''.'' @ x = e @ ''.'' @ y" by simp
  then have "tokens d @ tokens x = tokens e @ tokens y" by (metis tokens_dot)
  with assms show False by (simp add: tokens_def split_char_no_sep)
qed

theorem default_spaces_disjoint_witness:
  "\<not> (UnderPrefix ''vikasa.x.d7.a'' (DefaultSubjectPrefix ''x'' ''d7'') \<and>
      UnderPrefix ''vikasa.x.d7.a'' (DefaultSubjectPrefix ''x'' ''d70''))"
  by (rule default_spaces_disjoint) simp_all

end
