(* ===== verification/Topology.thy ===== *)
theory Topology
  imports Naming "HOL-Library.Word"
begin

section \<open>The topology: model, decoding, validation\<close>

text \<open>
  Package internal/topology: the wire form of a deployment spec, its conversion into maps keyed
  by id (UnmarshalJSON), the structural checks (Validate), the flat partition namespace
  (PartitionIndex) and the referential checks of Load (validatePlacement). A Go pointer is an
  option; a map of pointers can hold nil, so its values are options too. Dereferencing nil is
  the outcome \<open>Panic\<close>. Reading the file and decoding JSON text into the wire structs is the
  work of packages os and encoding/json and enters as the argument of Load.
\<close>

subsection \<open>The public model\<close>

datatype SubstrateType = SubstrateUnset | SubstrateKubernetes | SubstrateBareMetal

record Substrate =
  sub_Context :: "string option"
  sub_Namespace :: "string option"
  sub_Hosts :: "string list"
  sub_Type :: SubstrateType

record Cluster =
  c_Id :: "string option"
  c_JsDomain :: "string option"
  c_LeafEndpoint :: "string option"
  c_Substrate :: "Substrate option"

record Central =
  ce_Cluster :: "string option"
  ce_Replicas :: "8 word option"

record Share =
  sh_Consumer :: "string option"
  sh_From :: "string option"
  sh_As :: "string option"

record DMZ =
  dmz_Cluster :: "string option"
  dmz_Replicas :: "8 word option"
  dmz_Shares :: "Share list"

record Partition =
  pa_Cluster :: "string option"
  pa_Id :: "string option"

record District =
  di_Id :: "string option"
  di_Partition :: "Partition option gomap"
  di_SubjectPrefix :: "string option"

record Topology =
  t_Central :: "Central option"
  t_Cluster :: "Cluster option gomap"
  t_District :: "District option gomap"
  t_DMZ :: "DMZ option"
  t_Dot :: "string option"

type_synonym Root = "Topology option" \<comment> \<open>the one field of the Go struct, a pointer\<close>

subsection \<open>The wire layer\<close>

record WireShare =
  ws_Consumer :: "string option"
  ws_From :: "string option"
  ws_As :: "string option"

record WireDMZ =
  wz_Cluster :: "string option"
  wz_Replicas :: "8 word option"
  wz_Shares :: "WireShare option list" \<comment> \<open>JSON null decodes to a nil pointer\<close>

record WireSubstrate =
  wu_Type :: string
  wu_Context :: "string option"
  wu_Namespace :: "string option"
  wu_Hosts :: "string list"

record WireCluster =
  wc_Id :: "string option"
  wc_JsDomain :: "string option"
  wc_LeafEndpoint :: "string option"
  wc_Substrate :: "WireSubstrate option"

record WirePartition =
  wp_Id :: "string option"
  wp_Cluster :: "string option"

record WireDistrict =
  wd_Id :: "string option"
  wd_SubjectPrefix :: "string option"
  wd_Partition :: "WirePartition list"

record WireTopology =
  wt_Dot :: "string option"
  wt_Cluster :: "WireCluster list"
  wt_District :: "WireDistrict list"
  wt_Central :: "Central option"
  wt_DMZ :: "WireDMZ option"

type_synonym WireRoot = "WireTopology option"

datatype topo_error =
    Panic
  | ReadFailed | ParseFailed
  | ClusterMissingId nat | DuplicateCluster string
  | DistrictMissingId nat | DuplicateDistrict string
  | PartitionMissingId string nat | DuplicatePartition string string
  | TopologyMissing | BadDot
  | ClusterIdNotToken string | BadJsDomain string | LeafEndpointRequired string | BadSubstrate string
  | DistrictIdNotToken string | PartitionIdNotToken string string
  | PrefixNotSubject string string | PrefixNotAnchored string string | PrefixNoBoundary string string
  | CentralClusterRequired | CentralReplicasRange "8 word"
  | PartitionInTwoDistricts string
  | DMZClusterRequired | DMZReplicasRange "8 word" | DMZNoShares
  | ShareConsumerRequired nat | ShareConsumerNotToken string
  | ShareFromRequired string | ShareFromNotSubject string string
  | ShareAsRequired string | ShareAsNotSubject string string
  | ShareAsNotScoped string string | ShareAsOutside string string
  | PartitionClusterUndefined string string string
  | CentralClusterUndefined string | DMZClusterUndefined string

definition SubstrateString :: "SubstrateType \<Rightarrow> string" where
  \<comment> \<open>\<^theory_text>\<open>SubstrateType.String\<close>\<close>
  "SubstrateString s =
     (case s of
        SubstrateKubernetes \<Rightarrow> ''kubernetes''
      | SubstrateBareMetal \<Rightarrow> ''bare-metal''
      | SubstrateUnset \<Rightarrow> ''unset'')"

definition substrateType :: "string \<Rightarrow> SubstrateType" where
  "substrateType s =
     (if s = SubstrateString SubstrateKubernetes then SubstrateKubernetes
      else if s = SubstrateString SubstrateBareMetal then SubstrateBareMetal
      else SubstrateUnset)"

definition DefaultShareAs :: "string \<Rightarrow> string \<Rightarrow> string" where
  "DefaultShareAs dot consumer = ShareSpace dot @ consumer @ ''.>''"

subsection \<open>UnmarshalJSON: arrays keyed by id into maps\<close>

definition decode_cluster :: "WireCluster \<Rightarrow> Cluster" where
  "decode_cluster wc =
     \<lparr>c_Id = wc_Id wc, c_JsDomain = wc_JsDomain wc, c_LeafEndpoint = wc_LeafEndpoint wc,
      c_Substrate =
        (case wc_Substrate wc of
           None \<Rightarrow> None
         | Some wu \<Rightarrow> Some \<lparr>sub_Context = wu_Context wu, sub_Namespace = wu_Namespace wu,
             sub_Hosts = wu_Hosts wu, sub_Type = substrateType (wu_Type wu)\<rparr>)\<rparr>"

definition add_cluster ::
    "Cluster option gomap \<Rightarrow> nat \<times> WireCluster \<Rightarrow> topo_error + Cluster option gomap" where
  "add_cluster m iw =
     (case wc_Id (snd iw) of
        None \<Rightarrow> Inl (ClusterMissingId (fst iw))
      | Some i \<Rightarrow>
          if map_of m i \<noteq> None then Inl (DuplicateCluster i)
          else Inr (AList.update i (Some (decode_cluster (snd iw))) m))"

definition add_partition ::
    "string \<Rightarrow> Partition option gomap \<Rightarrow> nat \<times> WirePartition \<Rightarrow>
     topo_error + Partition option gomap" where
  "add_partition dist m jw =
     (case wp_Id (snd jw) of
        None \<Rightarrow> Inl (PartitionMissingId dist (fst jw))
      | Some j \<Rightarrow>
          if map_of m j \<noteq> None then Inl (DuplicatePartition dist j)
          else Inr (AList.update j
            (Some \<lparr>pa_Cluster = wp_Cluster (snd jw), pa_Id = wp_Id (snd jw)\<rparr>) m))"

definition add_district ::
    "District option gomap \<Rightarrow> nat \<times> WireDistrict \<Rightarrow> topo_error + District option gomap" where
  "add_district m iw =
     (case wd_Id (snd iw) of
        None \<Rightarrow> Inl (DistrictMissingId (fst iw))
      | Some i \<Rightarrow>
          if map_of m i \<noteq> None then Inl (DuplicateDistrict i)
          else bindE (foldE (add_partition i) [] (enumerate 0 (wd_Partition (snd iw)))) (\<lambda>ps.
            Inr (AList.update i
              (Some \<lparr>di_Id = wd_Id (snd iw), di_Partition = ps,
                     di_SubjectPrefix = wd_SubjectPrefix (snd iw)\<rparr>) m)))"

definition decode_share :: "string option \<Rightarrow> WireShare option \<Rightarrow> topo_error + Share" where
  "decode_share dot ws =
     bindE (derefE ws Panic) (\<lambda>w.
       Inr \<lparr>sh_Consumer = ws_Consumer w, sh_From = ws_From w,
            sh_As =
              (case (ws_As w, ws_Consumer w, dot) of
                 (None, Some c, Some d) \<Rightarrow> Some (DefaultShareAs d c)
               | (a, _, _) \<Rightarrow> a)\<rparr>)"

definition UnmarshalJSON :: "WireRoot \<Rightarrow> topo_error + Root" where
  "UnmarshalJSON w =
     (case w of
        None \<Rightarrow> Inr None
      | Some wt \<Rightarrow>
          bindE (foldE add_cluster [] (enumerate 0 (wt_Cluster wt))) (\<lambda>clusters.
          bindE (foldE add_district [] (enumerate 0 (wt_District wt))) (\<lambda>districts.
          bindE (case wt_DMZ wt of
                   None \<Rightarrow> Inr None
                 | Some wz \<Rightarrow>
                     bindE (mapE (decode_share (wt_Dot wt)) (wz_Shares wz)) (\<lambda>shares.
                       Inr (Some \<lparr>dmz_Cluster = wz_Cluster wz, dmz_Replicas = wz_Replicas wz,
                                  dmz_Shares = shares\<rparr>))) (\<lambda>dmz.
          Inr (Some \<lparr>t_Central = wt_Central wt, t_Cluster = clusters, t_District = districts,
                     t_DMZ = dmz, t_Dot = wt_Dot wt\<rparr>)))))"

subsection \<open>PartitionIndex\<close>

definition index_partition :: "string \<Rightarrow> string gomap \<Rightarrow> string \<Rightarrow> topo_error + string gomap" where
  "index_partition distID idx partID =
     (if map_of idx partID \<noteq> None then Inl (PartitionInTwoDistricts partID)
      else Inr (AList.update partID distID idx))"

definition index_district ::
    "District option gomap \<Rightarrow> string gomap \<Rightarrow> string \<Rightarrow> topo_error + string gomap" where
  "index_district ds idx distID =
     (case gm_ptr ds distID of
        None \<Rightarrow> Inr idx
      | Some d \<Rightarrow> foldE (index_partition distID) idx (sortedKeys (di_Partition d)))"

definition PartitionIndex :: "Topology \<Rightarrow> topo_error + string gomap" where
  "PartitionIndex t =
     foldE (index_district (t_District t)) [] (sortedKeys (t_District t))"

subsection \<open>Validate\<close>

definition token_start :: "char \<Rightarrow> bool" where
  "token_start c \<longleftrightarrow> CHR ''a'' \<le> c \<and> c \<le> CHR ''z'' \<or> CHR ''0'' \<le> c \<and> c \<le> CHR ''9''"

definition tokenRE :: "string \<Rightarrow> bool" where
  \<comment> \<open>\<^theory_text>\<open>^[a-z0-9][a-z0-9-]*$\<close>\<close>
  "tokenRE s =
     (case s of
        [] \<Rightarrow> False
      | c # cs \<Rightarrow> token_start c \<and> list_all (\<lambda>x. token_start x \<or> x = CHR ''-'') cs)"

definition partitionIDRE :: "string \<Rightarrow> bool" where
  \<comment> \<open>tokens separated by \<open>/\<close>\<close>
  "partitionIDRE s = list_all tokenRE (split_char (CHR ''/'') s)"

definition check_cluster :: "Topology \<Rightarrow> string \<Rightarrow> topo_error + unit" where
  "check_cluster t i =
     bindE (guardE (\<not> tokenRE i) (ClusterIdNotToken i)) (\<lambda>_.
     bindE (derefE (gm_ptr (t_Cluster t) i) Panic) (\<lambda>c.
     bindE (guardE (case c_JsDomain c of None \<Rightarrow> True | Some js \<Rightarrow> \<not> tokenRE js) (BadJsDomain i)) (\<lambda>_.
     bindE (guardE (case c_LeafEndpoint c of None \<Rightarrow> True | Some ep \<Rightarrow> ep = [])
              (LeafEndpointRequired i)) (\<lambda>_.
     guardE (case c_Substrate c of None \<Rightarrow> True | Some s \<Rightarrow> sub_Type s = SubstrateUnset)
       (BadSubstrate i)))))"

definition check_prefix :: "string \<Rightarrow> string \<Rightarrow> string \<Rightarrow> topo_error + unit" where
  "check_prefix dot i p =
     bindE (guardE (\<not> ValidSubjectString p) (PrefixNotSubject i p)) (\<lambda>_.
     bindE (guardE (length p < length (Anchor dot) \<or> take (length (Anchor dot)) p \<noteq> Anchor dot)
              (PrefixNotAnchored i p)) (\<lambda>_.
     guardE (\<not> HasSuffix p ''.>'') (PrefixNoBoundary i p)))"

definition check_district :: "Topology \<Rightarrow> string \<Rightarrow> string \<Rightarrow> topo_error + unit" where
  "check_district t dot i =
     bindE (guardE (\<not> tokenRE i) (DistrictIdNotToken i)) (\<lambda>_.
     bindE (derefE (gm_ptr (t_District t) i) Panic) (\<lambda>d.
     bindE (forE (\<lambda>p. guardE (\<not> partitionIDRE p) (PartitionIdNotToken i p))
              (sortedKeys (di_Partition d))) (\<lambda>_.
     case di_SubjectPrefix d of None \<Rightarrow> Inr () | Some p \<Rightarrow> check_prefix dot i p)))"

definition check_replicas :: "8 word option \<Rightarrow> (8 word \<Rightarrow> topo_error) \<Rightarrow> topo_error + unit" where
  "check_replicas r err =
     (case r of None \<Rightarrow> Inr () | Some n \<Rightarrow> guardE (n < 1 \<or> n > 5) (err n))"

definition check_share :: "string \<Rightarrow> nat \<times> Share \<Rightarrow> topo_error + unit" where
  "check_share dot is =
     (let s = snd is in
      bindE (guardE (sh_Consumer s = None \<or> sh_Consumer s = Some []) (ShareConsumerRequired (fst is))) (\<lambda>_.
      bindE (derefE (sh_Consumer s) Panic) (\<lambda>c.
      bindE (guardE (\<not> tokenRE c) (ShareConsumerNotToken c)) (\<lambda>_.
      bindE (guardE (sh_From s = None \<or> sh_From s = Some []) (ShareFromRequired c)) (\<lambda>_.
      bindE (derefE (sh_From s) Panic) (\<lambda>f.
      bindE (guardE (\<not> ValidSubjectString f) (ShareFromNotSubject c f)) (\<lambda>_.
      bindE (guardE (sh_As s = None \<or> sh_As s = Some []) (ShareAsRequired c)) (\<lambda>_.
      bindE (derefE (sh_As s) Panic) (\<lambda>a.
      bindE (guardE (\<not> ValidSubjectString a) (ShareAsNotSubject c a)) (\<lambda>_.
      if HasPrefix a (ShareSpace dot)
      then guardE (\<not> HasPrefix a (ShareSpace dot @ c @ ''.'')) (ShareAsNotScoped c a)
      else guardE (\<not> HasPrefix a (PeerSpace dot)) (ShareAsOutside c a)))))))))))"

definition check_dmz :: "string \<Rightarrow> DMZ \<Rightarrow> topo_error + unit" where
  "check_dmz dot z =
     bindE (guardE (dmz_Cluster z = None) DMZClusterRequired) (\<lambda>_.
     bindE (check_replicas (dmz_Replicas z) DMZReplicasRange) (\<lambda>_.
     bindE (guardE (dmz_Shares z = []) DMZNoShares) (\<lambda>_.
     forE (check_share dot) (enumerate 0 (dmz_Shares z)))))"

definition Validate :: "Root \<Rightarrow> topo_error + unit" where
  "Validate r =
     bindE (derefE r TopologyMissing) (\<lambda>t.
     bindE (derefE (t_Dot t) BadDot) (\<lambda>dot.
     bindE (guardE (\<not> tokenRE dot) BadDot) (\<lambda>_.
     bindE (forE (check_cluster t) (sortedKeys (t_Cluster t))) (\<lambda>_.
     bindE (forE (check_district t dot) (sortedKeys (t_District t))) (\<lambda>_.
     bindE (derefE (t_Central t) CentralClusterRequired) (\<lambda>ce.
     bindE (guardE (ce_Cluster ce = None) CentralClusterRequired) (\<lambda>_.
     bindE (check_replicas (ce_Replicas ce) CentralReplicasRange) (\<lambda>_.
     bindE (PartitionIndex t) (\<lambda>_.
     case t_DMZ t of None \<Rightarrow> Inr () | Some z \<Rightarrow> check_dmz dot z)))))))))"

subsection \<open>Load\<close>

definition check_placement :: "Topology \<Rightarrow> string \<Rightarrow> District \<Rightarrow> string \<Rightarrow> topo_error + unit" where
  "check_placement t distID d partID =
     (case gm_ptr (di_Partition d) partID of
        None \<Rightarrow> Inr ()
      | Some p \<Rightarrow>
          (case pa_Cluster p of
             None \<Rightarrow> Inr ()
           | Some cl \<Rightarrow>
               guardE (cl \<notin> set (map fst (t_Cluster t))) (PartitionClusterUndefined distID partID cl)))"

definition validatePlacement :: "Root \<Rightarrow> topo_error + unit" where
  "validatePlacement r =
     (case r of
        None \<Rightarrow> Inr ()
      | Some t \<Rightarrow>
          bindE (forE (\<lambda>distID. case gm_ptr (t_District t) distID of
                     None \<Rightarrow> Inr ()
                   | Some d \<Rightarrow> forE (check_placement t distID d) (sortedKeys (di_Partition d)))
                  (sortedKeys (t_District t))) (\<lambda>_.
          bindE (case t_Central t of
                   None \<Rightarrow> Inr ()
                 | Some ce \<Rightarrow>
                     (case ce_Cluster ce of
                        None \<Rightarrow> Inr ()
                      | Some cl \<Rightarrow>
                          guardE (cl \<notin> set (map fst (t_Cluster t))) (CentralClusterUndefined cl))) (\<lambda>_.
          case t_DMZ t of
            None \<Rightarrow> Inr ()
          | Some z \<Rightarrow>
              (case dmz_Cluster z of
                 None \<Rightarrow> Inr ()
               | Some cl \<Rightarrow>
                   guardE (cl \<notin> set (map fst (t_Cluster t))) (DMZClusterUndefined cl)))))"

datatype spec_file = Unreadable | Malformed | Decoded WireRoot
  \<comment> \<open>what os.ReadFile and json.Unmarshal into the wire structs make of the file\<close>

definition Load :: "spec_file \<Rightarrow> topo_error + Root" where
  "Load f =
     (case f of
        Unreadable \<Rightarrow> Inl ReadFailed
      | Malformed \<Rightarrow> Inl ParseFailed
      | Decoded w \<Rightarrow>
          bindE (UnmarshalJSON w) (\<lambda>root.
          bindE (Validate root) (\<lambda>_.
          bindE (validatePlacement root) (\<lambda>_. Inr root))))"


subsection \<open>Decoding: invariant and inverse\<close>

text \<open>
  What decoding establishes of the maps: distinct keys, no nil entry, and every entry stored
  under its own id.
\<close>

definition keyed_map :: "('v \<Rightarrow> string option) \<Rightarrow> 'v option gomap \<Rightarrow> bool" where
  "keyed_map idf m \<longleftrightarrow>
     distinct (map fst m) \<and> (\<forall>(k, p)\<in>set m. case p of None \<Rightarrow> False | Some v \<Rightarrow> idf v = Some k)"

definition keyed :: "Topology \<Rightarrow> bool" where
  "keyed t \<longleftrightarrow> keyed_map c_Id (t_Cluster t) \<and> keyed_map di_Id (t_District t) \<and>
     (\<forall>k d. (k, Some d) \<in> set (t_District t) \<longrightarrow> keyed_map pa_Id (di_Partition d))"

definition cluster_entry :: "WireCluster \<Rightarrow> (string \<times> Cluster option) option" where
  "cluster_entry wc = map_option (\<lambda>i. (i, Some (decode_cluster wc))) (wc_Id wc)"

definition partition_entry :: "WirePartition \<Rightarrow> (string \<times> Partition option) option" where
  "partition_entry wp =
     map_option (\<lambda>j. (j, Some \<lparr>pa_Cluster = wp_Cluster wp, pa_Id = wp_Id wp\<rparr>)) (wp_Id wp)"

definition district_entry :: "WireDistrict \<Rightarrow> (string \<times> District option) option" where
  "district_entry wd =
     (case wd_Id wd of
        None \<Rightarrow> None
      | Some i \<Rightarrow>
          (case foldE (add_partition i) [] (enumerate 0 (wd_Partition wd)) of
             Inl e \<Rightarrow> None
           | Inr ps \<Rightarrow> Some (i, Some \<lparr>di_Id = wd_Id wd, di_Partition = ps,
                                    di_SubjectPrefix = wd_SubjectPrefix wd\<rparr>)))"

lemma add_cluster_step:
  "add_cluster m x = Inr m' \<longleftrightarrow>
     (\<exists>k v. cluster_entry (snd x) = Some (k, v) \<and> map_of m k = None \<and> m' = AList.update k v m)"
  by (auto simp: add_cluster_def cluster_entry_def split: option.split)

lemma add_partition_step:
  "add_partition i m x = Inr m' \<longleftrightarrow>
     (\<exists>k v. partition_entry (snd x) = Some (k, v) \<and> map_of m k = None \<and> m' = AList.update k v m)"
  by (auto simp: add_partition_def partition_entry_def split: option.split)

lemma add_district_step:
  "add_district m x = Inr m' \<longleftrightarrow>
     (\<exists>k v. district_entry (snd x) = Some (k, v) \<and> map_of m k = None \<and> m' = AList.update k v m)"
  by (auto simp: add_district_def district_entry_def bindE_def split: option.split sum.split)

lemma add_clusters_iff:
  "foldE add_cluster [] (enumerate n wcs) = Inr m \<longleftrightarrow>
     map cluster_entry wcs = map Some m \<and> distinct (map fst m)"
  by (simp only: checked_index_alist [OF add_cluster_step] map_over_enumerate)

lemma add_partitions_iff:
  "foldE (add_partition i) [] (enumerate n wps) = Inr m \<longleftrightarrow>
     map partition_entry wps = map Some m \<and> distinct (map fst m)"
  by (simp only: checked_index_alist [OF add_partition_step] map_over_enumerate)

lemma add_districts_iff:
  "foldE add_district [] (enumerate n wds) = Inr m \<longleftrightarrow>
     map district_entry wds = map Some m \<and> distinct (map fst m)"
  by (simp only: checked_index_alist [OF add_district_step] map_over_enumerate)

lemma decode_cluster_Id [simp]: "c_Id (decode_cluster wc) = wc_Id wc"
  by (simp add: decode_cluster_def)

lemma decoded_member: "map f ws = map Some m \<Longrightarrow> kp \<in> set m \<Longrightarrow> \<exists>w\<in>set ws. f w = Some kp"
  by (metis (no_types, lifting) image_iff image_set)

lemma keyed_mapI:
  assumes "map f ws = map Some m" and "distinct (map fst m)"
    and "\<And>w k p. f w = Some (k, p) \<Longrightarrow> \<exists>v. p = Some v \<and> idf v = Some k"
  shows "keyed_map idf m"
  unfolding keyed_map_def
proof (intro conjI assms(2) ballI, clarify)
  fix k p assume "(k, p) \<in> set m"
  with assms(1,3) have "\<exists>v. p = Some v \<and> idf v = Some k" using decoded_member by metis
  then show "case p of None \<Rightarrow> False | Some v \<Rightarrow> idf v = Some k" by auto
qed

lemma add_clusters_keyed: "foldE add_cluster [] (enumerate n wcs) = Inr m \<Longrightarrow> keyed_map c_Id m"
  by (auto simp: add_clusters_iff cluster_entry_def intro!: keyed_mapI [where f = cluster_entry])

lemma add_partitions_keyed:
  "foldE (add_partition i) [] (enumerate n wps) = Inr m \<Longrightarrow> keyed_map pa_Id m"
  by (auto simp: add_partitions_iff partition_entry_def intro!: keyed_mapI [where f = partition_entry])

lemma district_entry_keyed:
  "district_entry wd = Some (k, p) \<Longrightarrow> \<exists>d. p = Some d \<and> di_Id d = Some k \<and> keyed_map pa_Id (di_Partition d)"
  by (auto simp: district_entry_def dest: add_partitions_keyed split: option.splits sum.splits)

lemma add_districts_keyed:
  assumes "foldE add_district [] (enumerate n wds) = Inr m"
  shows "keyed_map di_Id m \<and>
    (\<forall>k d. (k, Some d) \<in> set m \<longrightarrow> keyed_map pa_Id (di_Partition d))"
proof
  from assms have m: "map district_entry wds = map Some m" "distinct (map fst m)"
    by (simp_all add: add_districts_iff)
  then show "keyed_map di_Id m"
    by (rule keyed_mapI) (blast dest: district_entry_keyed)
  show "\<forall>k d. (k, Some d) \<in> set m \<longrightarrow> keyed_map pa_Id (di_Partition d)"
    using decoded_member [OF m(1)] by (fastforce dest: district_entry_keyed)
qed

lemma UnmarshalJSON_keyed: "UnmarshalJSON w = Inr (Some t) \<Longrightarrow> keyed t"
  by (auto simp: UnmarshalJSON_def keyed_def dest: add_clusters_keyed add_districts_keyed
      split: option.splits)

text \<open>The wire form of a topology, for the inverse direction.\<close>

definition encode_cluster :: "Cluster \<Rightarrow> WireCluster" where
  "encode_cluster c =
     \<lparr>wc_Id = c_Id c, wc_JsDomain = c_JsDomain c, wc_LeafEndpoint = c_LeafEndpoint c,
      wc_Substrate = map_option (\<lambda>s. \<lparr>wu_Type = SubstrateString (sub_Type s),
        wu_Context = sub_Context s, wu_Namespace = sub_Namespace s, wu_Hosts = sub_Hosts s\<rparr>)
        (c_Substrate c)\<rparr>"

definition encode_district :: "District \<Rightarrow> WireDistrict" where
  "encode_district d =
     \<lparr>wd_Id = di_Id d, wd_SubjectPrefix = di_SubjectPrefix d,
      wd_Partition = map (\<lambda>(k, p). \<lparr>wp_Id = pa_Id (the p), wp_Cluster = pa_Cluster (the p)\<rparr>) (di_Partition d)\<rparr>"

definition encode_topology :: "Topology \<Rightarrow> WireTopology" where
  "encode_topology t =
     \<lparr>wt_Dot = t_Dot t,
      wt_Cluster = map (\<lambda>(k, p). encode_cluster (the p)) (t_Cluster t),
      wt_District = map (\<lambda>(k, p). encode_district (the p)) (t_District t),
      wt_Central = t_Central t,
      wt_DMZ = map_option (\<lambda>z. \<lparr>wz_Cluster = dmz_Cluster z, wz_Replicas = dmz_Replicas z,
        wz_Shares = map (\<lambda>s. Some \<lparr>ws_Consumer = sh_Consumer s, ws_From = sh_From s, ws_As = sh_As s\<rparr>)
          (dmz_Shares z)\<rparr>) (t_DMZ t)\<rparr>"

lemma substrateType_String [simp]: "substrateType (SubstrateString s) = s"
  by (cases s) (simp_all add: substrateType_def SubstrateString_def)

lemma decode_encode_cluster [simp]: "decode_cluster (encode_cluster c) = c"
  by (cases "c_Substrate c") (simp_all add: decode_cluster_def encode_cluster_def)

lemma keyed_mapD: "keyed_map idf m \<Longrightarrow> (k, p) \<in> set m \<Longrightarrow> \<exists>v. p = Some v \<and> idf v = Some k"
  by (fastforce simp: keyed_map_def split: option.splits)

lemma keyed_map_distinct: "keyed_map idf m \<Longrightarrow> distinct (map fst m)"
  by (simp add: keyed_map_def)

lemma entries_inverse:
  assumes "keyed_map idf m" and "\<And>k v. (k, Some v) \<in> set m \<Longrightarrow> idf v = Some k \<Longrightarrow> entry (enc (Some v)) = Some (k, Some v)"
  shows "map entry (map (\<lambda>(k, p). enc p) m) = map Some m \<and> distinct (map fst m)"
  using assms keyed_mapD by (fastforce simp: keyed_map_distinct)

lemma decode_clusters_inverse:
  "keyed_map c_Id m \<Longrightarrow>
     foldE add_cluster [] (enumerate n (map (\<lambda>(k, p). encode_cluster (the p)) m)) = Inr m"
  unfolding add_clusters_iff
  by (rule entries_inverse) (auto simp: cluster_entry_def encode_cluster_def [THEN arg_cong [of _ _ wc_Id]])

lemma decode_partitions_inverse:
  "keyed_map pa_Id m \<Longrightarrow>
     foldE (add_partition i) [] (enumerate n
       (map (\<lambda>(k, p). \<lparr>wp_Id = pa_Id (the p), wp_Cluster = pa_Cluster (the p)\<rparr>) m)) = Inr m"
  unfolding add_partitions_iff
  by (rule entries_inverse [where idf = pa_Id]) (simp_all add: partition_entry_def)

lemma district_entry_inverse:
  "keyed_map pa_Id (di_Partition d) \<Longrightarrow> di_Id d = Some k \<Longrightarrow> district_entry (encode_district d) = Some (k, Some d)"
  by (simp add: district_entry_def encode_district_def decode_partitions_inverse)

lemma decode_districts_inverse:
  assumes "keyed_map di_Id m"
    and "\<forall>k d. (k, Some d) \<in> set m \<longrightarrow> keyed_map pa_Id (di_Partition d)"
  shows "foldE add_district [] (enumerate n (map (\<lambda>(k, p). encode_district (the p)) m)) = Inr m"
  unfolding add_districts_iff
  by (rule entries_inverse [OF assms(1)]) (use assms(2) in \<open>auto intro: district_entry_inverse\<close>)

lemma decode_shares_inverse:
  "\<forall>s\<in>set ss. sh_As s \<noteq> None \<Longrightarrow>
   mapE (decode_share dot)
     (map (\<lambda>s. Some \<lparr>ws_Consumer = sh_Consumer s, ws_From = sh_From s, ws_As = sh_As s\<rparr>) ss) = Inr ss"
  by (induction ss) (auto simp: decode_share_def)


subsection \<open>PartitionIndex: closed form\<close>

definition partition_ids :: "Topology \<Rightarrow> string \<Rightarrow> string list" where
  "partition_ids t i =
     (case gm_ptr (t_District t) i of None \<Rightarrow> [] | Some d \<Rightarrow> sortedKeys (di_Partition d))"

definition part_pairs :: "Topology \<Rightarrow> (string \<times> string) list" where
  "part_pairs t = concat (map (\<lambda>i. map (Pair i) (partition_ids t i)) (sortedKeys (t_District t)))"

lemma index_district_loop:
  "index_district (t_District t) idx i = foldE (index_partition i) idx (partition_ids t i)"
  by (simp add: index_district_def partition_ids_def split: option.split)

lemma PartitionIndex_iff:
  "PartitionIndex t = Inr idx \<longleftrightarrow>
     idx = map (\<lambda>(d, p). (p, d)) (part_pairs t) \<and> distinct (map snd (part_pairs t))"
proof -
  have "PartitionIndex t = foldE (\<lambda>idx p. index_partition (fst p) idx (snd p)) [] (part_pairs t)"
    unfolding PartitionIndex_def index_district_loop part_pairs_def by (rule foldE_nested)
  also have "\<dots> = Inr idx \<longleftrightarrow>
      map (\<lambda>p. Some (snd p, fst p)) (part_pairs t) = map Some idx \<and> distinct (map fst idx)"
    by (rule checked_index_alist) (auto simp: index_partition_def)
  also have "map (\<lambda>p. Some (snd p, fst p)) (part_pairs t) =
      map Some (map (\<lambda>(d, p). (p, d)) (part_pairs t))"
    by (simp add: split_beta')
  finally have "PartitionIndex t = Inr idx \<longleftrightarrow>
      map (\<lambda>(d, p). (p, d)) (part_pairs t) = idx \<and> distinct (map fst idx)"
    by (simp only: inj_map_eq_map [OF inj_Some])
  then show ?thesis by (auto simp: split_beta' comp_def)
qed

lemma PartitionIndex_errors: "PartitionIndex t = Inl e \<Longrightarrow> \<exists>p. e = PartitionInTwoDistricts p"
  unfolding PartitionIndex_def index_district_loop
  by (auto dest!: foldE_error_member simp: index_partition_def split: if_splits)

text \<open>The invariant of Go maps: each key once.\<close>

definition go_maps :: "Topology \<Rightarrow> bool" where
  "go_maps t \<longleftrightarrow> distinct (map fst (t_Cluster t)) \<and> distinct (map fst (t_District t)) \<and>
     (\<forall>k d. (k, Some d) \<in> set (t_District t) \<longrightarrow> distinct (map fst (di_Partition d)))"

lemma keyed_go_maps: "keyed t \<Longrightarrow> go_maps t"
  unfolding keyed_def go_maps_def by (blast intro: keyed_map_distinct)

definition owns :: "Topology \<Rightarrow> string \<Rightarrow> string \<Rightarrow> bool" where
  "owns t i p \<longleftrightarrow> (\<exists>d. (i, Some d) \<in> set (t_District t) \<and> p \<in> set (map fst (di_Partition d)))"

lemma gm_ptr_member: "distinct (map fst m) \<Longrightarrow> gm_ptr m k = Some v \<longleftrightarrow> (k, Some v) \<in> set m"
  by (simp add: gm_ptr_eq_Some)

lemma partition_ids_owns:
  assumes "go_maps t"
  shows "p \<in> set (partition_ids t i) \<longleftrightarrow> owns t i p"
proof -
  have "gm_ptr (t_District t) i = Some d \<longleftrightarrow> (i, Some d) \<in> set (t_District t)" for d
    using assms by (simp add: go_maps_def gm_ptr_member)
  then have "owns t i p \<longleftrightarrow> (\<exists>d. gm_ptr (t_District t) i = Some d \<and> p \<in> set (map fst (di_Partition d)))"
    by (simp add: owns_def)
  then show ?thesis by (cases "gm_ptr (t_District t) i") (auto simp: partition_ids_def)
qed

lemma owns_key: "owns t i p \<Longrightarrow> i \<in> set (sortedKeys (t_District t))"
  by (force simp: owns_def)

lemma part_pairs_owns: "go_maps t \<Longrightarrow> (i, p) \<in> set (part_pairs t) \<longleftrightarrow> owns t i p"
  using partition_ids_owns [of t p i] owns_key [of t i p]
  by (auto simp: part_pairs_def simp del: set_sortedKeys)

lemma distinct_concat_map:
  "distinct ks \<Longrightarrow> (\<forall>k\<in>set ks. distinct (f k)) \<Longrightarrow>
     distinct (concat (map f ks)) \<longleftrightarrow> (\<forall>k\<in>set ks. \<forall>j\<in>set ks. k \<noteq> j \<longrightarrow> set (f k) \<inter> set (f j) = {})"
  by (induction ks) (auto 0 4)

lemma part_pairs_distinct:
  assumes "go_maps t"
  shows "distinct (map snd (part_pairs t)) \<longleftrightarrow> (\<forall>i j p. owns t i p \<and> owns t j p \<longrightarrow> i = j)"
proof -
  have ids: "\<forall>i\<in>set (sortedKeys (t_District t)). distinct (partition_ids t i)"
    using assms by (auto simp: partition_ids_def go_maps_def gm_ptr_member split: option.split)
  have "distinct (map snd (part_pairs t)) \<longleftrightarrow>
      distinct (concat (map (partition_ids t) (sortedKeys (t_District t))))"
    by (simp add: part_pairs_def map_concat comp_def)
  also have "\<dots> \<longleftrightarrow> (\<forall>i\<in>set (sortedKeys (t_District t)). \<forall>j\<in>set (sortedKeys (t_District t)).
      i \<noteq> j \<longrightarrow> set (partition_ids t i) \<inter> set (partition_ids t j) = {})"
    by (rule distinct_concat_map [OF _ ids]) (use assms in \<open>simp add: go_maps_def\<close>)
  also have "\<dots> \<longleftrightarrow> (\<forall>i j p. owns t i p \<and> owns t j p \<longrightarrow> i = j)"
    using partition_ids_owns [OF assms] owns_key [of t] by (simp del: set_sortedKeys) blast
  finally show ?thesis .
qed

lemma PartitionIndex_lookup:
  assumes "go_maps t" and "PartitionIndex t = Inr idx"
  shows "map_of idx p = Some i \<longleftrightarrow> owns t i p"
proof -
  from assms(2) have idx: "idx = map (\<lambda>(d, p). (p, d)) (part_pairs t)" "distinct (map snd (part_pairs t))"
    by (simp_all add: PartitionIndex_iff)
  then have "distinct (map fst idx)" by (simp add: comp_def split_beta')
  then have "map_of idx p = Some i \<longleftrightarrow> (p, i) \<in> set idx" by simp
  also have "\<dots> \<longleftrightarrow> owns t i p" by (auto simp: idx part_pairs_owns [OF assms(1), symmetric])
  finally show ?thesis .
qed

subsection \<open>Validation: the accepted topologies\<close>

definition wf_cluster :: "string \<times> Cluster option \<Rightarrow> bool" where
  "wf_cluster kp \<longleftrightarrow> tokenRE (fst kp) \<and>
     (\<exists>c js ep s. snd kp = Some c \<and> c_JsDomain c = Some js \<and> tokenRE js \<and>
        c_LeafEndpoint c = Some ep \<and> ep \<noteq> [] \<and>
        c_Substrate c = Some s \<and> sub_Type s \<in> {SubstrateKubernetes, SubstrateBareMetal})"

definition wf_prefix :: "string \<Rightarrow> string \<Rightarrow> bool" where
  "wf_prefix dot p \<longleftrightarrow> ValidSubjectString p \<and> HasPrefix p (Anchor dot) \<and> HasSuffix p ''.>''"

definition wf_district :: "string \<Rightarrow> string \<times> District option \<Rightarrow> bool" where
  "wf_district dot kp \<longleftrightarrow> tokenRE (fst kp) \<and>
     (\<exists>d. snd kp = Some d \<and> (\<forall>p\<in>set (map fst (di_Partition d)). partitionIDRE p) \<and>
        (\<forall>p. di_SubjectPrefix d = Some p \<longrightarrow> wf_prefix dot p))"

definition wf_replicas :: "8 word option \<Rightarrow> bool" where
  "wf_replicas r \<longleftrightarrow> (\<forall>n. r = Some n \<longrightarrow> 1 \<le> unat n \<and> unat n \<le> 5)"

definition wf_share :: "string \<Rightarrow> Share \<Rightarrow> bool" where
  "wf_share dot s \<longleftrightarrow>
     (\<exists>c f a. sh_Consumer s = Some c \<and> tokenRE c \<and> sh_From s = Some f \<and> ValidSubjectString f \<and>
        sh_As s = Some a \<and> ValidSubjectString a \<and>
        (HasPrefix a (ShareSpace dot @ c @ ''.'') \<or>
         HasPrefix a (PeerSpace dot) \<and> \<not> HasPrefix a (ShareSpace dot)))"

definition wf_dmz :: "string \<Rightarrow> DMZ \<Rightarrow> bool" where
  "wf_dmz dot z \<longleftrightarrow> dmz_Cluster z \<noteq> None \<and> wf_replicas (dmz_Replicas z) \<and> dmz_Shares z \<noteq> [] \<and>
     (\<forall>s\<in>set (dmz_Shares z). wf_share dot s)"

definition wf_topology :: "Topology \<Rightarrow> bool" where
  "wf_topology t \<longleftrightarrow>
     (\<exists>dot ce. t_Dot t = Some dot \<and> tokenRE dot \<and>
        (\<forall>kp\<in>set (t_Cluster t). wf_cluster kp) \<and> (\<forall>kp\<in>set (t_District t). wf_district dot kp) \<and>
        t_Central t = Some ce \<and> ce_Cluster ce \<noteq> None \<and> wf_replicas (ce_Replicas ce) \<and>
        (\<forall>i j p. owns t i p \<and> owns t j p \<longrightarrow> i = j) \<and>
        (\<forall>z. t_DMZ t = Some z \<longrightarrow> wf_dmz dot z))"

lemma check_replicas_iff: "check_replicas r err = Inr () \<longleftrightarrow> wf_replicas r"
  by (cases r) (auto simp: check_replicas_def wf_replicas_def word_less_nat_alt)

lemma check_cluster_iff:
  "check_cluster t k = Inr () \<longleftrightarrow> wf_cluster (k, gm_ptr (t_Cluster t) k)"
  by (auto simp: check_cluster_def wf_cluster_def split: option.splits)
     (meson SubstrateType.exhaust)+

lemma check_prefix_iff: "check_prefix dot k p = Inr () \<longleftrightarrow> wf_prefix dot p"
  by (auto simp: check_prefix_def wf_prefix_def HasPrefix_def)

lemma check_district_iff:
  "check_district t dot k = Inr () \<longleftrightarrow> wf_district dot (k, gm_ptr (t_District t) k)"
  by (auto simp: check_district_def wf_district_def check_prefix_iff split: option.splits)

lemma ValidSubjectString_Nil [simp]: "\<not> ValidSubjectString []"
  by (simp add: ValidSubjectString_def)

lemma tokenRE_Nil [simp]: "\<not> tokenRE []"
  by (simp add: tokenRE_def)

lemma check_share_iff: "check_share dot p = Inr () \<longleftrightarrow> wf_share dot (snd p)"
  by (cases "sh_Consumer (snd p)"; cases "sh_From (snd p)"; cases "sh_As (snd p)")
     (auto simp: check_share_def wf_share_def Let_def
        dest: HasPrefix_appendD)

lemma check_dmz_iff: "check_dmz dot z = Inr () \<longleftrightarrow> wf_dmz dot z"
  by (auto simp: check_dmz_def wf_dmz_def check_replicas_iff check_share_iff
      ball_enumerate [of 0 "dmz_Shares z" "wf_share dot"])

lemma gm_ptr_ball:
  assumes "distinct (map fst m)"
  shows "(\<forall>k\<in>set (sortedKeys m). P (k, gm_ptr m k)) \<longleftrightarrow> (\<forall>kp\<in>set m. P kp)"
  using gm_ptr_sortedKeys [OF assms, of "\<lambda>k p. P (k, p)"] by auto

lemma Validate_iff:
  assumes "go_maps t"
  shows "Validate (Some t) = Inr () \<longleftrightarrow> wf_topology t"
proof -
  have idx: "(\<exists>x. PartitionIndex t = Inr x) \<longleftrightarrow> (\<forall>i j p. owns t i p \<and> owns t j p \<longrightarrow> i = j)"
    using part_pairs_distinct [OF assms] by (simp add: PartitionIndex_iff)
  have cl: "(\<forall>k\<in>set (sortedKeys (t_Cluster t)). wf_cluster (k, gm_ptr (t_Cluster t) k)) \<longleftrightarrow>
      (\<forall>kp\<in>set (t_Cluster t). wf_cluster kp)"
    using assms by (intro gm_ptr_ball) (simp add: go_maps_def)
  have di: "(\<forall>k\<in>set (sortedKeys (t_District t)). wf_district dot (k, gm_ptr (t_District t) k)) \<longleftrightarrow>
      (\<forall>kp\<in>set (t_District t). wf_district dot kp)" for dot
    using assms by (intro gm_ptr_ball) (simp add: go_maps_def)
  show ?thesis
    by (auto simp: Validate_def wf_topology_def check_cluster_iff check_district_iff
        check_replicas_iff check_dmz_iff cl di idx derefE_def
        split: option.splits simp del: set_sortedKeys)
qed


subsection \<open>References\<close>

definition refs_resolved :: "Topology \<Rightarrow> bool" where
  "refs_resolved t \<longleftrightarrow>
     (\<forall>i d k p cl. (i, Some d) \<in> set (t_District t) \<and> (k, Some p) \<in> set (di_Partition d) \<and>
        pa_Cluster p = Some cl \<longrightarrow> cl \<in> set (map fst (t_Cluster t))) \<and>
     (\<forall>ce cl. t_Central t = Some ce \<and> ce_Cluster ce = Some cl \<longrightarrow> cl \<in> set (map fst (t_Cluster t))) \<and>
     (\<forall>z cl. t_DMZ t = Some z \<and> dmz_Cluster z = Some cl \<longrightarrow> cl \<in> set (map fst (t_Cluster t)))"

lemma sortedKeys_ptr:
  "distinct (map fst m) \<Longrightarrow> (\<forall>k\<in>set (sortedKeys m). \<forall>v. gm_ptr m k = Some v \<longrightarrow> P k v) \<longleftrightarrow>
     (\<forall>k v. (k, Some v) \<in> set m \<longrightarrow> P k v)"
  by (force simp: gm_ptr_member)

lemma placement_district_iff:
  "distinct (map fst (di_Partition d)) \<Longrightarrow>
     forE (check_placement t i d) (sortedKeys (di_Partition d)) = Inr () \<longleftrightarrow>
     (\<forall>k p. (k, Some p) \<in> set (di_Partition d) \<longrightarrow>
        (\<forall>cl. pa_Cluster p = Some cl \<longrightarrow> cl \<in> set (map fst (t_Cluster t))))"
  by (subst sortedKeys_ptr [symmetric]) (auto simp: check_placement_def split: option.splits)

lemma validatePlacement_iff:
  assumes "go_maps t"
  shows "validatePlacement (Some t) = Inr () \<longleftrightarrow> refs_resolved t"
proof -
  let ?loop = "forE (\<lambda>i. case gm_ptr (t_District t) i of None \<Rightarrow> Inr ()
      | Some d \<Rightarrow> forE (check_placement t i d) (sortedKeys (di_Partition d))) (sortedKeys (t_District t))"
  have "?loop = Inr () \<longleftrightarrow> (\<forall>i\<in>set (sortedKeys (t_District t)). \<forall>d. gm_ptr (t_District t) i = Some d \<longrightarrow>
      forE (check_placement t i d) (sortedKeys (di_Partition d)) = Inr ())"
    by (auto split: option.splits)
  also have "\<dots> \<longleftrightarrow> (\<forall>i d. (i, Some d) \<in> set (t_District t) \<longrightarrow>
      forE (check_placement t i d) (sortedKeys (di_Partition d)) = Inr ())"
    using assms by (intro sortedKeys_ptr) (simp add: go_maps_def)
  also have "\<dots> \<longleftrightarrow> (\<forall>i d k p cl. (i, Some d) \<in> set (t_District t) \<and> (k, Some p) \<in> set (di_Partition d) \<and>
        pa_Cluster p = Some cl \<longrightarrow> cl \<in> set (map fst (t_Cluster t)))"
    using assms placement_district_iff unfolding go_maps_def by blast
  finally have "?loop = Inr () \<longleftrightarrow> \<dots>" .
  then show ?thesis
    by (simp add: validatePlacement_def refs_resolved_def split: option.split)
qed

subsection \<open>Panics\<close>

lemma keyed_ptr: "keyed_map idf m \<Longrightarrow> k \<in> set (sortedKeys m) \<Longrightarrow> gm_ptr m k \<noteq> None"
  using gm_ptr_member [of m k] keyed_mapD [of idf m k] keyed_map_distinct [of idf m] by fastforce

lemma check_cluster_no_panic: "gm_ptr (t_Cluster t) k \<noteq> None \<Longrightarrow> check_cluster t k \<noteq> Inl Panic"
  by (auto simp: check_cluster_def bindE_eq_Inl)

lemma check_prefix_no_panic: "check_prefix dot k p \<noteq> Inl Panic"
  by (auto simp: check_prefix_def bindE_eq_Inl)

lemma check_district_no_panic: "gm_ptr (t_District t) k \<noteq> None \<Longrightarrow> check_district t dot k \<noteq> Inl Panic"
  by (auto simp: check_district_def bindE_eq_Inl check_prefix_no_panic dest!: forE_error_member
      split: option.splits)

lemma check_share_no_panic: "check_share dot p \<noteq> Inl Panic"
  by (auto simp: check_share_def bindE_eq_Inl Let_def)

lemma check_dmz_no_panic: "check_dmz dot z \<noteq> Inl Panic"
  by (auto simp: check_dmz_def bindE_eq_Inl check_replicas_def check_share_no_panic
      dest!: forE_error_member split: option.splits)

lemma Validate_no_panic:
  assumes "keyed t"
  shows "Validate (Some t) \<noteq> Inl Panic"
proof -
  have cl: "forE (check_cluster t) (sortedKeys (t_Cluster t)) \<noteq> Inl Panic"
    using assms keyed_ptr [of c_Id "t_Cluster t"] check_cluster_no_panic [of t]
    by (auto simp: keyed_def simp del: set_sortedKeys dest!: forE_error_member)
  have di: "forE (check_district t dot) (sortedKeys (t_District t)) \<noteq> Inl Panic" for dot
    using assms keyed_ptr [of di_Id "t_District t"] check_district_no_panic [of t]
    by (auto simp: keyed_def simp del: set_sortedKeys dest!: forE_error_member)
  show ?thesis
    by (auto simp: Validate_def bindE_eq_Inl cl di check_replicas_def check_dmz_no_panic
        dest!: PartitionIndex_errors split: option.splits)
qed

lemma validatePlacement_no_panic: "validatePlacement r \<noteq> Inl Panic"
  by (auto simp: validatePlacement_def bindE_eq_Inl check_placement_def
      dest!: forE_error_member split: option.splits)

lemma add_cluster_no_panic: "foldE add_cluster m xs \<noteq> Inl Panic"
  by (auto dest!: foldE_error_member simp: add_cluster_def split: option.splits if_splits)

lemma add_partition_no_panic: "foldE (add_partition i) m xs \<noteq> Inl Panic"
  by (auto dest!: foldE_error_member simp: add_partition_def split: option.splits if_splits)

lemma add_district_no_panic: "foldE add_district m xs \<noteq> Inl Panic"
  by (auto dest!: foldE_error_member simp: add_district_def bindE_eq_Inl add_partition_no_panic
      split: option.splits if_splits)

lemma decode_share_error: "decode_share dot ws = Inl e \<longleftrightarrow> ws = None \<and> e = Panic"
  by (auto simp: decode_share_def bindE_eq_Inl)

lemma decode_shares_error: "mapE (decode_share dot) ss = Inl e \<longleftrightarrow> e = Panic \<and> None \<in> set ss"
  by (subst mapE_error_iff) (auto simp: decode_share_error)

lemma UnmarshalJSON_panic:
  "UnmarshalJSON (Some wt) = Inl Panic \<longleftrightarrow>
     (\<exists>cs ds z. foldE add_cluster [] (enumerate 0 (wt_Cluster wt)) = Inr cs \<and>
        foldE add_district [] (enumerate 0 (wt_District wt)) = Inr ds \<and>
        wt_DMZ wt = Some z \<and> None \<in> set (wz_Shares z))"
  by (auto simp: UnmarshalJSON_def bindE_eq_Inl add_cluster_no_panic add_district_no_panic
      decode_shares_error split: option.split)


subsection \<open>Token bytes\<close>

definition token_byte :: "char \<Rightarrow> bool" where
  "token_byte c \<longleftrightarrow> token_start c \<or> c = CHR ''-''"

lemma tokenRE_bytes: "tokenRE s \<Longrightarrow> c \<in> set s \<Longrightarrow> token_byte c"
  by (cases s) (auto simp: tokenRE_def token_byte_def list_all_iff)

lemma token_byte_code:
  "token_byte c \<longleftrightarrow> (let n = of_char c :: nat in 97 \<le> n \<and> n \<le> 122 \<or> 48 \<le> n \<and> n \<le> 57 \<or> n = 45)"
proof -
  have "c = CHR ''-'' \<longleftrightarrow> of_char c = (of_char (CHR ''-'') :: nat)" by (simp only: of_char_eq_iff)
  then show ?thesis
    by (auto simp: token_byte_def token_start_def less_eq_char_def Let_def)
qed

lemma token_byte_subject: "token_byte c \<Longrightarrow> subject_byte c"
  by (auto simp: token_byte_def token_start_def subject_byte_def)

lemma token_byte_not: "\<not> token_byte (CHR ''.'')" "\<not> token_byte (CHR ''*'')" "\<not> token_byte (CHR ''>'')"
    "\<not> token_byte (CHR ''/'')" "\<not> token_byte (CHR ''_'')"
  by (simp_all add: token_byte_def token_start_def)

lemma tokenRE_no_dot: "tokenRE s \<Longrightarrow> CHR ''.'' \<notin> set s"
  using tokenRE_bytes token_byte_not by blast

lemma tokenRE_tokens: "tokenRE s \<Longrightarrow> tokens s = [s]"
  by (simp add: tokens_def split_char_no_sep tokenRE_no_dot)

lemma tokenRE_not_wildcard: "tokenRE s \<Longrightarrow> s \<noteq> ''*'' \<and> s \<noteq> ''>''"
  by (auto simp: tokenRE_def token_start_def)

lemma tokenRE_subject: "tokenRE s \<Longrightarrow> list_all subject_byte s \<and> s \<noteq> []"
  using tokenRE_bytes token_byte_subject by (auto simp: list_all_iff)

definition sanitize_byte :: "char \<Rightarrow> char" where
  "sanitize_byte c =
     (let u = upper_byte c; v = (if u = CHR ''/'' then CHR ''_'' else u)
      in if v = CHR ''-'' then CHR ''_'' else v)"

lemma Sanitize_map: "Sanitize s = map sanitize_byte s"
  by (simp add: Sanitize_def ReplaceByte_def ToUpper_def sanitize_byte_def Let_def)

lemma sanitize_byte_code:
  assumes "token_byte c"
  shows "of_char (sanitize_byte c) =
    (let n = of_char c in if 97 \<le> n then n - 32 else if n = 45 then 95 else n :: nat)"
proof -
  have eq: "x = y \<longleftrightarrow> of_char x = (of_char y :: nat)" for x y :: char by simp
  have u: "of_char (upper_byte c) = (let n = of_char c in if 97 \<le> n \<and> n \<le> 122 then n - 32 else n :: nat)"
    by (rule upper_byte_code)
  show ?thesis using assms unfolding token_byte_code
    by (auto simp: sanitize_byte_def Let_def u eq simp del: of_char_eq_iff)
qed

lemma sanitize_byte_inj: "token_byte c \<Longrightarrow> token_byte d \<Longrightarrow> sanitize_byte c = sanitize_byte d \<Longrightarrow> c = d"
proof -
  assume c: "token_byte c" and d: "token_byte d" and "sanitize_byte c = sanitize_byte d"
  then have "of_char (sanitize_byte c) = (of_char (sanitize_byte d) :: nat)" by simp
  then have "of_char c = (of_char d :: nat)"
    using c d unfolding sanitize_byte_code [OF c] sanitize_byte_code [OF d]
    by (auto simp: token_byte_code Let_def simp del: of_char_eq_iff split: if_splits)
  then show "c = d" by simp
qed

lemma Sanitize_inj: "tokenRE a \<Longrightarrow> tokenRE b \<Longrightarrow> Sanitize a = Sanitize b \<Longrightarrow> a = b"
  unfolding Sanitize_map
  by (rule map_inj_on [of sanitize_byte]) (auto intro!: inj_onI sanitize_byte_inj dest: tokenRE_bytes)

subsection \<open>The result of Load\<close>

lemma Load_result:
  "Load f = Inr root \<longleftrightarrow>
     (\<exists>wt t. f = Decoded (Some wt) \<and> UnmarshalJSON (Some wt) = Inr (Some t) \<and> root = Some t \<and>
        keyed t \<and> wf_topology t \<and> refs_resolved t)"
proof -
  have none: "UnmarshalJSON None = Inr None" "Validate None = Inl TopologyMissing"
    by (simp_all add: UnmarshalJSON_def Validate_def derefE_def)
  have some: "bindE (Validate (Some t)) (\<lambda>_. bindE (validatePlacement (Some t)) (\<lambda>_. Inr (Some t))) = Inr root \<longleftrightarrow>
      root = Some t \<and> wf_topology t \<and> refs_resolved t" if "keyed t" for t
    using keyed_go_maps [OF that] by (auto simp: Validate_iff validatePlacement_iff)
  show ?thesis
  proof (cases f)
    case (Decoded w)
    show ?thesis
    proof (cases w)
      case None
      with Decoded none show ?thesis by (simp add: Load_def)
    next
      case (Some wt)
      then show ?thesis
      proof (cases "UnmarshalJSON (Some wt)")
        case (Inr r)
        with Some Decoded none some UnmarshalJSON_keyed [of "Some wt"] show ?thesis
          by (cases r) (auto simp: Load_def simp del: bindE_eq_Inr)
      qed (simp add: Load_def Decoded)
    qed
  qed (simp_all add: Load_def)
qed

subsection \<open>An example topology\<close>

text \<open>
  A spec with two clusters, one district of two partitions and two DMZ shares, one with its \<open>as\<close> left
  to the default. The witnesses of this and of the later theories are stated on it.
\<close>

definition ex_wire :: WireTopology where
  "ex_wire =
     \<lparr>wt_Dot = Some ''exdot'',
      wt_Cluster =
        [\<lparr>wc_Id = Some ''core'', wc_JsDomain = Some ''core'', wc_LeafEndpoint = Some ''nats.core:7422'',
          wc_Substrate = Some \<lparr>wu_Type = ''kubernetes'', wu_Context = None,
            wu_Namespace = Some ''nats'', wu_Hosts = []\<rparr>\<rparr>,
         \<lparr>wc_Id = Some ''edge'', wc_JsDomain = Some ''edge-js'', wc_LeafEndpoint = Some ''nats.edge:7422'',
          wc_Substrate = Some \<lparr>wu_Type = ''bare-metal'', wu_Context = None,
            wu_Namespace = None, wu_Hosts = [''h1'', ''h2'']\<rparr>\<rparr>],
      wt_District =
        [\<lparr>wd_Id = Some ''d7'', wd_SubjectPrefix = None,
          wd_Partition = [\<lparr>wp_Id = Some ''d7/1'', wp_Cluster = Some ''core''\<rparr>,
                          \<lparr>wp_Id = Some ''d7/0'', wp_Cluster = Some ''edge''\<rparr>]\<rparr>],
      wt_Central = Some \<lparr>ce_Cluster = Some ''core'', ce_Replicas = None\<rparr>,
      wt_DMZ = Some \<lparr>wz_Cluster = Some ''core'', wz_Replicas = Some 3,
        wz_Shares = [Some \<lparr>ws_Consumer = Some ''acme'', ws_From = Some ''vikasa.exdot.d7.speed.>'',
                           ws_As = None\<rparr>,
                     Some \<lparr>ws_Consumer = Some ''bolt'', ws_From = Some ''vikasa.exdot.d7.>'',
                           ws_As = Some ''vikasa.peer.exdot.i90.>''\<rparr>]\<rparr>\<rparr>"

definition ex_topology :: Topology where
  "ex_topology =
     \<lparr>t_Central = Some \<lparr>ce_Cluster = Some ''core'', ce_Replicas = None\<rparr>,
      t_Cluster =
        [(''core'', Some \<lparr>c_Id = Some ''core'', c_JsDomain = Some ''core'',
            c_LeafEndpoint = Some ''nats.core:7422'',
            c_Substrate = Some \<lparr>sub_Context = None, sub_Namespace = Some ''nats'', sub_Hosts = [],
              sub_Type = SubstrateKubernetes\<rparr>\<rparr>),
         (''edge'', Some \<lparr>c_Id = Some ''edge'', c_JsDomain = Some ''edge-js'',
            c_LeafEndpoint = Some ''nats.edge:7422'',
            c_Substrate = Some \<lparr>sub_Context = None, sub_Namespace = None, sub_Hosts = [''h1'', ''h2''],
              sub_Type = SubstrateBareMetal\<rparr>\<rparr>)],
      t_District =
        [(''d7'', Some \<lparr>di_Id = Some ''d7'',
            di_Partition = [(''d7/1'', Some \<lparr>pa_Cluster = Some ''core'', pa_Id = Some ''d7/1''\<rparr>),
                            (''d7/0'', Some \<lparr>pa_Cluster = Some ''edge'', pa_Id = Some ''d7/0''\<rparr>)],
            di_SubjectPrefix = None\<rparr>)],
      t_DMZ = Some \<lparr>dmz_Cluster = Some ''core'', dmz_Replicas = Some 3,
        dmz_Shares = [\<lparr>sh_Consumer = Some ''acme'', sh_From = Some ''vikasa.exdot.d7.speed.>'',
                       sh_As = Some ''vikasa.exdot.share.acme.>''\<rparr>,
                      \<lparr>sh_Consumer = Some ''bolt'', sh_From = Some ''vikasa.exdot.d7.>'',
                       sh_As = Some ''vikasa.peer.exdot.i90.>''\<rparr>]\<rparr>,
      t_Dot = Some ''exdot''\<rparr>"

lemma ex_unmarshal: "UnmarshalJSON (Some ex_wire) = Inr (Some ex_topology)"
  by (simp add: ex_wire_def ex_topology_def UnmarshalJSON_def add_cluster_def decode_cluster_def
      add_district_def add_partition_def decode_share_def substrateType_def SubstrateString_def
      DefaultShareAs_def ShareSpace_def derefE_def)

lemma ex_keyed: "keyed ex_topology"
  using ex_unmarshal by (rule UnmarshalJSON_keyed)

lemma ex_load: "Load (Decoded (Some ex_wire)) = Inr (Some ex_topology)"
  unfolding Load_def spec_file.case ex_unmarshal bindE_simps
  by code_simp

lemma ex_validate: "Validate (Some ex_topology) = Inr ()"
  using ex_load by (simp add: Load_def ex_unmarshal)

subsection \<open>Subjects of external consumers\<close>

lemma ShareSpace_tokens:
  assumes "HasPrefix a (ShareSpace dot @ c @ ''.'')" and "tokenRE dot" and "tokenRE c"
  shows "\<exists>x. tokens a = [''vikasa'', dot, ''share'', c] @ tokens x"
proof -
  from assms(1) obtain x where "a = ''vikasa'' @ ''.'' @ dot @ ''.'' @ ''share'' @ ''.'' @ c @ ''.'' @ x"
    by (auto simp: HasPrefix_iff ShareSpace_def)
  then have "tokens a = tokens ''vikasa'' @ tokens dot @ tokens ''share'' @ tokens c @ tokens x"
    by (simp only: tokens_dot)
  with assms show ?thesis by (auto simp: tokenRE_tokens) (auto simp: tokens_def)
qed

lemma PeerSpace_tokens:
  assumes "HasPrefix a (PeerSpace dot)" and "tokenRE dot"
  shows "\<exists>x. tokens a = [''vikasa'', ''peer'', dot] @ tokens x"
proof -
  from assms(1) obtain x where "a = ''vikasa'' @ ''.'' @ ''peer'' @ ''.'' @ dot @ ''.'' @ x"
    by (auto simp: HasPrefix_iff PeerSpace_def)
  then have "tokens a = tokens ''vikasa'' @ tokens ''peer'' @ tokens dot @ tokens x"
    by (simp only: tokens_dot)
  with assms show ?thesis by (auto simp: tokenRE_tokens) (auto simp: tokens_def)
qed

lemma share_match_consumer:
  assumes "HasPrefix a (ShareSpace dot @ c @ ''.'')" and "tokenRE dot" and "tokenRE c"
    and "nats_match (tokens a) ts"
  shows "\<exists>r. ts = [''vikasa'', dot, ''share'', c] @ r"
proof -
  from assms obtain x where "tokens a = [''vikasa'', dot, ''share'', c] @ tokens x"
    using ShareSpace_tokens by blast
  moreover have "literal_tokens [''vikasa'', dot, ''share'', c]"
    using assms tokenRE_not_wildcard by (auto simp: literal_tokens_def)
  ultimately show ?thesis using assms(4) nats_match_literal_prefix by metis
qed

lemma peer_match:
  assumes "HasPrefix a (PeerSpace dot)" and "tokenRE dot" and "nats_match (tokens a) ts"
  shows "\<exists>r. ts = [''vikasa'', ''peer'', dot] @ r"
proof -
  from assms obtain x where "tokens a = [''vikasa'', ''peer'', dot] @ tokens x"
    using PeerSpace_tokens by blast
  moreover have "literal_tokens [''vikasa'', ''peer'', dot]"
    using assms tokenRE_not_wildcard by (auto simp: literal_tokens_def)
  ultimately show ?thesis using assms(3) nats_match_literal_prefix by metis
qed

lemma share_subjects_disjoint:
  assumes "Validate (Some t) = Inr ()" and "go_maps t" and "t_DMZ t = Some z"
    and "s \<in> set (dmz_Shares z)" and "s' \<in> set (dmz_Shares z)"
    and "sh_Consumer s = Some c" and "sh_Consumer s' = Some c'" and "c \<noteq> c'"
    and "sh_As s = Some a" and "sh_As s' = Some a'" and "t_Dot t = Some dot"
    and "HasPrefix a (ShareSpace dot)" and "nats_match (tokens a) ts"
  shows "\<not> nats_match (tokens a') ts"
proof
  assume m': "nats_match (tokens a') ts"
  from assms have wf: "wf_topology t" by (simp add: Validate_iff)
  with assms have dot: "tokenRE dot" and s: "wf_share dot s" and s': "wf_share dot s'"
    by (auto simp: wf_topology_def wf_dmz_def)
  from s assms have "tokenRE c" "HasPrefix a (ShareSpace dot @ c @ ''.'')"
    by (auto simp: wf_share_def)
  with dot assms obtain r where ts: "ts = [''vikasa'', dot, ''share'', c] @ r"
    using share_match_consumer by blast
  from s' assms have "tokenRE c'"
    and "HasPrefix a' (ShareSpace dot @ c' @ ''.'') \<or> HasPrefix a' (PeerSpace dot)"
    by (auto simp: wf_share_def)
  with dot m' consider r' where "ts = [''vikasa'', dot, ''share'', c'] @ r'"
    | r' where "ts = [''vikasa'', ''peer'', dot] @ r'"
    using share_match_consumer peer_match by blast
  then show False using ts \<open>c \<noteq> c'\<close> by cases auto
qed

lemma DefaultShareAs_tokens:
  assumes "tokenRE dot" and "tokenRE c"
  shows "split_char (CHR ''.'') (DefaultShareAs dot c) = [''vikasa'', dot, ''share'', c, ''>'']"
proof -
  have "DefaultShareAs dot c = ''vikasa'' @ ''.'' @ dot @ ''.'' @ ''share'' @ ''.'' @ c @ ''.'' @ ''>''"
    by (simp add: DefaultShareAs_def ShareSpace_def)
  then have "tokens (DefaultShareAs dot c) =
      tokens ''vikasa'' @ tokens dot @ tokens ''share'' @ tokens c @ tokens ''>''"
    by (simp only: tokens_dot)
  with assms show ?thesis by (simp add: tokenRE_tokens) (simp add: tokens_def)
qed

lemma DefaultShareAs_valid:
  assumes "tokenRE dot" and "tokenRE c"
  shows "ValidSubjectString (DefaultShareAs dot c)"
  using assms tokenRE_subject tokenRE_not_wildcard
  by (auto simp: ValidSubjectString_def DefaultShareAs_tokens subject_byte_def)
     (simp add: DefaultShareAs_def ShareSpace_def)

subsection \<open>Properties\<close>

text \<open>
  C16. Load accepts exactly the well-formed specs: it returns a root if and only if the file
  decodes, the arrays convert to maps, and the resulting topology satisfies the declarative
  well-formedness (tokens, required fields, substrate, replica ranges, one owner per partition
  id, share scoping) with every cluster reference defined; the maps are then keyed by the ids.
\<close>

theorem Load_accepts_iff:
  "Load f = Inr root \<longleftrightarrow>
     (\<exists>wt t. f = Decoded (Some wt) \<and> UnmarshalJSON (Some wt) = Inr (Some t) \<and> root = Some t \<and>
        keyed t \<and> wf_topology t \<and> refs_resolved t)"
  by (rule Load_result)

text \<open>
  C30. Decoding is inverse to the wire form: every topology whose maps are keyed by id and whose
  shares name their public subject is what UnmarshalJSON makes of its wire encoding, so no field,
  entry or order of declaration is lost.
\<close>

theorem UnmarshalJSON_roundtrip:
  assumes "keyed t" and "\<And>z s. t_DMZ t = Some z \<Longrightarrow> s \<in> set (dmz_Shares z) \<Longrightarrow> sh_As s \<noteq> None"
  shows "UnmarshalJSON (Some (encode_topology t)) = Inr (Some t)"
proof -
  from assms(1) have cl: "foldE add_cluster [] (enumerate 0 (wt_Cluster (encode_topology t))) = Inr (t_Cluster t)"
    by (simp add: encode_topology_def keyed_def decode_clusters_inverse)
  from assms(1) have di: "foldE add_district [] (enumerate 0 (wt_District (encode_topology t))) = Inr (t_District t)"
    by (simp add: encode_topology_def keyed_def decode_districts_inverse)
  show ?thesis
  proof (cases "t_DMZ t")
    case None
    with cl di show ?thesis by (simp add: UnmarshalJSON_def) (simp add: encode_topology_def)
  next
    case (Some z)
    with assms(2) have "mapE (decode_share (t_Dot t))
        (map (\<lambda>s. Some \<lparr>ws_Consumer = sh_Consumer s, ws_From = sh_From s, ws_As = sh_As s\<rparr>) (dmz_Shares z))
        = Inr (dmz_Shares z)"
      by (intro decode_shares_inverse) blast
    with Some cl di show ?thesis by (simp add: UnmarshalJSON_def) (simp add: encode_topology_def)
  qed
qed

theorem UnmarshalJSON_roundtrip_witness:
  "UnmarshalJSON (Some (encode_topology ex_topology)) = Inr (Some ex_topology)"
  by (rule UnmarshalJSON_roundtrip [OF ex_keyed]) (auto simp: ex_topology_def)

text \<open>
  Consumer isolation: in a topology that passes validation, a concrete subject that the
  share-space \<open>as\<close> of one external consumer selects is never selected by the \<open>as\<close> of a
  different consumer, whether that lies in the share space or in the peer space.
\<close>

theorem consumers_isolated:
  assumes "Validate (Some t) = Inr ()" and "go_maps t" and "t_DMZ t = Some z"
    and "s \<in> set (dmz_Shares z)" and "s' \<in> set (dmz_Shares z)"
    and "sh_Consumer s = Some c" and "sh_Consumer s' = Some c'" and "c \<noteq> c'"
    and "sh_As s = Some a" and "sh_As s' = Some a'" and "t_Dot t = Some dot"
    and "HasPrefix a (ShareSpace dot)" and "nats_match (tokens a) ts"
  shows "\<not> nats_match (tokens a') ts"
  using assms by (rule share_subjects_disjoint)

theorem consumers_isolated_witness:
  "\<not> nats_match (tokens ''vikasa.peer.exdot.i90.>'') [''vikasa'', ''exdot'', ''share'', ''acme'', ''x'']"
proof (rule consumers_isolated [of ex_topology "the (t_DMZ ex_topology)"
      "dmz_Shares (the (t_DMZ ex_topology)) ! 0" "dmz_Shares (the (t_DMZ ex_topology)) ! 1"
      "''acme''" "''bolt''" "''vikasa.exdot.share.acme.>''" _ "''exdot''"])
  show "Validate (Some ex_topology) = Inr ()" by (rule ex_validate)
  show "go_maps ex_topology" using ex_keyed by (rule keyed_go_maps)
qed (simp_all add: ex_topology_def HasPrefix_def ShareSpace_def tokens_def)

text \<open>
  C31. The only crash of loading: Load panics exactly when the cluster and district arrays convert
  and the DMZ block's shares contain a JSON null, which UnmarshalJSON dereferences; no other
  input, well-formed or not, makes decoding or validation dereference a nil pointer.
\<close>

theorem Load_panic_iff:
  "Load f = Inl Panic \<longleftrightarrow>
     (\<exists>wt cs ds z. f = Decoded (Some wt) \<and>
        foldE add_cluster [] (enumerate 0 (wt_Cluster wt)) = Inr cs \<and>
        foldE add_district [] (enumerate 0 (wt_District wt)) = Inr ds \<and>
        wt_DMZ wt = Some z \<and> None \<in> set (wz_Shares z))"
proof (cases f)
  case (Decoded w)
  have late: "bindE (Validate r) (\<lambda>_. bindE (validatePlacement r) (\<lambda>_. Inr r)) \<noteq> Inl Panic"
    if "UnmarshalJSON w = Inr r" for r
  proof (cases r)
    case None
    then show ?thesis by (simp add: Validate_def derefE_def)
  next
    case (Some t)
    with that have "keyed t" using UnmarshalJSON_keyed by blast
    with Some show ?thesis by (auto simp: bindE_eq_Inl Validate_no_panic validatePlacement_no_panic)
  qed
  then have "Load f = Inl Panic \<longleftrightarrow> UnmarshalJSON w = Inl Panic"
    by (auto simp: Decoded Load_def bindE_def split: sum.split)
  moreover have "UnmarshalJSON None \<noteq> Inl Panic" by (simp add: UnmarshalJSON_def)
  ultimately show ?thesis
    by (cases w) (auto simp: Decoded UnmarshalJSON_panic)
qed (simp_all add: Load_def)

text \<open>
  The partition index: on maps with distinct keys PartitionIndex succeeds exactly when no
  partition id occurs in two districts, and then looking up a partition id gives the district
  that holds it and nothing for an unknown id.
\<close>

theorem PartitionIndex_correct:
  assumes "go_maps t"
  shows "((\<exists>idx. PartitionIndex t = Inr idx) \<longleftrightarrow> (\<forall>i j p. owns t i p \<and> owns t j p \<longrightarrow> i = j)) \<and>
    (\<forall>idx p i. PartitionIndex t = Inr idx \<longrightarrow> (map_of idx p = Some i \<longleftrightarrow> owns t i p))"
proof (intro conjI allI impI)
  show "(\<exists>idx. PartitionIndex t = Inr idx) \<longleftrightarrow> (\<forall>i j p. owns t i p \<and> owns t j p \<longrightarrow> i = j)"
    using part_pairs_distinct [OF assms] by (simp add: PartitionIndex_iff)
next
  fix idx p i
  assume "PartitionIndex t = Inr idx"
  then show "map_of idx p = Some i \<longleftrightarrow> owns t i p" by (rule PartitionIndex_lookup [OF assms])
qed

theorem PartitionIndex_correct_witness:
  "(\<exists>idx. PartitionIndex ex_topology = Inr idx) \<and> owns ex_topology ''d7'' ''d7/0''"
proof -
  have g: "go_maps ex_topology" using ex_keyed by (rule keyed_go_maps)
  have one: "owns ex_topology i p \<and> owns ex_topology j p \<longrightarrow> i = j" for i j p
    by (auto simp: owns_def ex_topology_def)
  with PartitionIndex_correct [OF g] obtain idx where idx: "PartitionIndex ex_topology = Inr idx"
    by blast
  have "owns ex_topology ''d7'' ''d7/0''" by (simp add: owns_def ex_topology_def)
  with idx show ?thesis by blast
qed

text \<open>
  A share whose \<open>as\<close> is left out gets a public subject that validation accepts: for a token
  DOT and a token consumer the default is well-formed and scoped to that consumer.
\<close>

theorem default_share_accepted:
  assumes "tokenRE dot" and "tokenRE c" and "ValidSubjectString f"
  shows "\<exists>s. decode_share (Some dot) (Some \<lparr>ws_Consumer = Some c, ws_From = Some f, ws_As = None\<rparr>) = Inr s \<and>
    sh_As s = Some (DefaultShareAs dot c) \<and> check_share dot (n, s) = Inr ()"
  using assms
  by (simp add: decode_share_def derefE_def check_share_iff wf_share_def DefaultShareAs_valid)
     (simp add: DefaultShareAs_def HasPrefix_iff)

theorem default_share_accepted_witness:
  "\<exists>s. decode_share (Some ''exdot'') (Some \<lparr>ws_Consumer = Some ''acme'', ws_From = Some ''vikasa.exdot.d7.>'', ws_As = None\<rparr>) = Inr s \<and>
    sh_As s = Some (DefaultShareAs ''exdot'' ''acme'') \<and> check_share ''exdot'' (0, s) = Inr ()"
  by (rule default_share_accepted)
     (simp_all add: tokenRE_def token_start_def ValidSubjectString_def subject_byte_def)

text \<open>
  District accounts never clash: although Sanitize is not injective in general, on token
  ids it is, so two districts of a validated topology with the same account name are the same
  district.
\<close>

theorem DistrictAccountName_inj:
  assumes "tokenRE a" and "tokenRE b"
  shows "DistrictAccountName a = DistrictAccountName b \<longleftrightarrow> a = b"
  using assms by (auto simp: DistrictAccountName_def Sanitize_inj)

theorem DistrictAccountName_inj_witness:
  "DistrictAccountName ''d-7'' \<noteq> DistrictAccountName ''d7''"
  by (subst DistrictAccountName_inj) (simp_all add: tokenRE_def token_start_def)

end
