(* ===== verification/Accounts.thy ===== *)
theory Accounts
  imports Topology
begin

section \<open>Accounts and permissions\<close>

text \<open>
  Package internal/accounts: the account model of a DOT (one account per district, CENTRAL, SYSTEM
  and, with a DMZ block, DMZ) with its exports, imports and user templates. An empty permission
  list is absent from the rendered configuration, which NATS reads as allow-all; \<open>may_publish\<close> is
  that reading.
\<close>

record Import =
  im_FromAccount :: string
  im_Subject :: string

type_synonym Export = string \<comment> \<open>the one field of the Go struct\<close>

record UserTemplate =
  u_Label :: string
  u_Publish :: "string list"
  u_Subscribe :: "string list"
  u_PublishDeny :: "string list"
  u_SubscribeDeny :: "string list"

record Account =
  ac_Name :: string
  ac_JetStream :: bool
  ac_Exports :: "Export list"
  ac_Imports :: "Import list"
  ac_Users :: "UserTemplate list"

record Model =
  m_DOT :: string
  m_Accounts :: "Account list"

datatype accounts_error = AccountsNilTopology | AccountsNilDot

definition subjectSpace :: "string \<Rightarrow> District option \<Rightarrow> string \<Rightarrow> string" where
  "subjectSpace dot d districtID =
     (case d of None \<Rightarrow> SubjectSpace dot districtID None
      | Some d \<Rightarrow> SubjectSpace dot districtID (di_SubjectPrefix d))"

definition central_account :: "string \<Rightarrow> District option gomap \<Rightarrow> string list \<Rightarrow> Account" where
  "central_account dot ds districtIDs =
     \<lparr>ac_Name = CentralAccountName, ac_JetStream = True, ac_Exports = [],
      ac_Imports = map (\<lambda>d. \<lparr>im_FromAccount = DistrictAccountName d,
         im_Subject = subjectSpace dot (gm_ptr ds d) d\<rparr>) districtIDs,
      ac_Users = []\<rparr>"

definition district_account :: "string \<Rightarrow> District option gomap \<Rightarrow> string \<Rightarrow> Account" where
  "district_account dot ds d =
     (let subj = subjectSpace dot (gm_ptr ds d) d in
      \<lparr>ac_Name = DistrictAccountName d, ac_JetStream = True, ac_Exports = [subj], ac_Imports = [],
       ac_Users = [\<lparr>u_Label = ''cabinet'', u_Publish = [subj], u_Subscribe = [subj],
                    u_PublishDeny = [], u_SubscribeDeny = []\<rparr>]\<rparr>)"

definition system_account :: Account where
  "system_account =
     \<lparr>ac_Name = SystemAccountName, ac_JetStream = False, ac_Exports = [], ac_Imports = [],
      ac_Users = [\<lparr>u_Label = ''system'', u_Publish = [], u_Subscribe = [],
                   u_PublishDeny = [], u_SubscribeDeny = []\<rparr>]\<rparr>"

definition update_central :: "(Account \<Rightarrow> Account) \<Rightarrow> Account list \<Rightarrow> Account list" where
  \<comment> \<open>\<^theory_text>\<open>for i := range m.Accounts { if m.Accounts[i].Name == CENTRAL { ... } }\<close>\<close>
  "update_central f as = map (\<lambda>a. if ac_Name a = CentralAccountName then f a else a) as"

definition consumer_user :: "string \<Rightarrow> string \<Rightarrow> UserTemplate" where
  "consumer_user consumer as_subject =
     \<lparr>u_Label = consumer, u_Publish = [], u_Subscribe = [as_subject], u_PublishDeny = [''>''],
      u_SubscribeDeny = []\<rparr>"

text \<open>The state of the loop over the shares: the accounts, the DMZ account and the subjects seen.\<close>

type_synonym dmz_state = "Account list \<times> Account \<times> string list"

fun add_share :: "dmz_state \<Rightarrow> Share \<Rightarrow> dmz_state" where
  "add_share (accounts, dmz, seenFrom) s =
     (case (sh_From s, sh_As s, sh_Consumer s) of
        (Some f, Some a, Some c) \<Rightarrow>
          let (accounts', dmz', seenFrom') =
            (if f \<notin> set seenFrom
             then (update_central (\<lambda>ac. ac\<lparr>ac_Exports := ac_Exports ac @ [f]\<rparr>) accounts,
                   dmz\<lparr>ac_Imports := ac_Imports dmz @
                     [\<lparr>im_FromAccount = CentralAccountName, im_Subject = f\<rparr>]\<rparr>,
                   f # seenFrom)
             else (accounts, dmz, seenFrom))
          in (accounts', dmz'\<lparr>ac_Users := ac_Users dmz' @ [consumer_user c a]\<rparr>, seenFrom')
      | _ \<Rightarrow> (accounts, dmz, seenFrom))"

definition dmz_account :: Account where
  "dmz_account = \<lparr>ac_Name = DMZAccountName, ac_JetStream = True, ac_Exports = [], ac_Imports = [], ac_Users = []\<rparr>"

definition add_dmz :: "DMZ option \<Rightarrow> Account list \<Rightarrow> Account list" where
  "add_dmz z accounts =
     (case z of
        None \<Rightarrow> accounts
      | Some z \<Rightarrow>
          (case foldl add_share (accounts, dmz_account, []) (dmz_Shares z) of
             (accounts', dmz, _) \<Rightarrow>
               accounts' @ [dmz\<lparr>ac_Imports := sort_key im_Subject (ac_Imports dmz),
                                ac_Users := sort_key u_Label (ac_Users dmz)\<rparr>]))"

definition BuildAccounts :: "Root \<Rightarrow> accounts_error + Model" where
  "BuildAccounts root =
     bindE (derefE root AccountsNilTopology) (\<lambda>t.
     bindE (derefE (t_Dot t) AccountsNilDot) (\<lambda>dot.
     let districtIDs = sort (map fst (t_District t));
         accounts = central_account dot (t_District t) districtIDs #
           map (district_account dot (t_District t)) districtIDs @ [system_account];
         accounts = add_dmz (t_DMZ t) accounts;
         accounts = update_central (\<lambda>ac. ac\<lparr>ac_Exports := sort (ac_Exports ac)\<rparr>) accounts
     in Inr \<lparr>m_DOT = dot, m_Accounts = sort_key ac_Name accounts\<rparr>))"

subsection \<open>What a user may do\<close>

text \<open>
  The reading of a permission block by NATS: an absent allow list allows every subject, a deny
  list takes precedence.
\<close>

definition permits :: "string list \<Rightarrow> string list \<Rightarrow> string list \<Rightarrow> bool" where
  "permits allow deny ts \<longleftrightarrow>
     (allow = [] \<or> (\<exists>p\<in>set allow. nats_match (tokens p) ts)) \<and> (\<forall>p\<in>set deny. \<not> nats_match (tokens p) ts)"

definition may_publish :: "UserTemplate \<Rightarrow> string list \<Rightarrow> bool" where
  "may_publish u ts \<longleftrightarrow> permits (u_Publish u) (u_PublishDeny u) ts"

definition may_subscribe :: "UserTemplate \<Rightarrow> string list \<Rightarrow> bool" where
  "may_subscribe u ts \<longleftrightarrow> permits (u_Subscribe u) (u_SubscribeDeny u) ts"

subsection \<open>The shares loop in closed form\<close>

definition complete_share :: "Share \<Rightarrow> (string \<times> string \<times> string) option" where
  "complete_share s =
     (case (sh_From s, sh_As s, sh_Consumer s) of (Some f, Some a, Some c) \<Rightarrow> Some (f, a, c) | _ \<Rightarrow> None)"

definition complete_shares :: "Share list \<Rightarrow> (string \<times> string \<times> string) list" where
  "complete_shares ss = List.map_filter complete_share ss"

text \<open>The subjects in the order of their first occurrence.\<close>

fun firsts :: "string list \<Rightarrow> string list \<Rightarrow> string list" where
  "firsts seen [] = []"
| "firsts seen (x # xs) = (if x \<in> set seen then firsts seen xs else x # firsts (x # seen) xs)"

lemma set_firsts: "set (firsts seen xs) = set xs - set seen"
  by (induction xs arbitrary: seen) auto

lemma distinct_firsts: "distinct (firsts seen xs)"
  by (induction xs arbitrary: seen) (auto simp: set_firsts)

lemma update_central_compose: "update_central f (update_central g as) = update_central (\<lambda>a. f (g a)) as"
  if "\<And>a. ac_Name (g a) = ac_Name a"
  by (simp add: update_central_def that)

definition with_exports :: "string list \<Rightarrow> Account list \<Rightarrow> Account list" where
  "with_exports fs as = update_central (\<lambda>ac. ac\<lparr>ac_Exports := ac_Exports ac @ fs\<rparr>) as"

lemma with_exports_Nil: "with_exports [] as = as"
  by (induction as) (simp_all add: with_exports_def update_central_def)

lemma with_exports_Cons:
  "with_exports fs (update_central (\<lambda>ac. ac\<lparr>ac_Exports := ac_Exports ac @ [f]\<rparr>) as) = with_exports (f # fs) as"
  by (simp add: with_exports_def update_central_compose)

lemma add_share_loop:
  "\<exists>seen'. foldl add_share (as, dmz, seen) ss =
     (with_exports (firsts seen (map fst (complete_shares ss))) as,
      dmz\<lparr>ac_Imports := ac_Imports dmz @
            map (\<lambda>f. \<lparr>im_FromAccount = CentralAccountName, im_Subject = f\<rparr>)
              (firsts seen (map fst (complete_shares ss))),
          ac_Users := ac_Users dmz @ map (\<lambda>(f, a, c). consumer_user c a) (complete_shares ss)\<rparr>,
      seen')"
proof (induction ss arbitrary: as dmz seen)
  case Nil
  then show ?case by (simp add: complete_shares_def map_filter_simps with_exports_Nil)
next
  case (Cons s ss)
  show ?case
  proof (cases "complete_share s")
    case None
    then have "add_share (as, dmz, seen) s = (as, dmz, seen)"
      by (auto simp: complete_share_def split: option.splits)
    then show ?thesis using Cons [of as dmz seen] None
      by (simp add: complete_shares_def map_filter_simps del: add_share.simps)
  next
    case (Some fac)
    obtain f a c where fac: "fac = (f, a, c)" by (cases fac)
    with Some have s: "sh_From s = Some f" "sh_As s = Some a" "sh_Consumer s = Some c"
      by (auto simp: complete_share_def split: option.splits)
    have cs: "complete_shares (s # ss) = (f, a, c) # complete_shares ss"
      by (simp add: complete_shares_def map_filter_simps Some fac)
    show ?thesis
    proof (cases "f \<in> set seen")
      case True
      then show ?thesis
        using Cons [of as "dmz\<lparr>ac_Users := ac_Users dmz @ [consumer_user c a]\<rparr>" seen] by (simp add: cs s)
    next
      case False
      then show ?thesis
        using Cons [of "update_central (\<lambda>ac. ac\<lparr>ac_Exports := ac_Exports ac @ [f]\<rparr>) as"
            "dmz\<lparr>ac_Imports := ac_Imports dmz @ [\<lparr>im_FromAccount = CentralAccountName, im_Subject = f\<rparr>],
              ac_Users := ac_Users dmz @ [consumer_user c a]\<rparr>" "f # seen"]
        by (simp add: cs s with_exports_Cons)
    qed
  qed
qed

subsection \<open>The account model in closed form\<close>

definition share_froms :: "DMZ option \<Rightarrow> string list" where
  "share_froms z = (case z of None \<Rightarrow> [] | Some z \<Rightarrow> firsts [] (map fst (complete_shares (dmz_Shares z))))"

definition dmz_accounts :: "DMZ option \<Rightarrow> Account list" where
  "dmz_accounts z =
     (case z of None \<Rightarrow> []
      | Some z \<Rightarrow> [\<lparr>ac_Name = DMZAccountName, ac_JetStream = True, ac_Exports = [],
          ac_Imports = sort_key im_Subject (map (\<lambda>f. \<lparr>im_FromAccount = CentralAccountName, im_Subject = f\<rparr>)
            (share_froms (Some z))),
          ac_Users = sort_key u_Label (map (\<lambda>(f, a, c). consumer_user c a) (complete_shares (dmz_Shares z)))\<rparr>])"

definition account_list :: "string \<Rightarrow> Topology \<Rightarrow> Account list" where
  "account_list dot t =
     (central_account dot (t_District t) (sortedKeys (t_District t)))\<lparr>ac_Exports := sort (share_froms (t_DMZ t))\<rparr> #
     map (district_account dot (t_District t)) (sortedKeys (t_District t)) @ [system_account] @
     dmz_accounts (t_DMZ t)"

lemma account_names [simp]:
  "ac_Name (central_account dot ds is) = CentralAccountName"
  "ac_Name (district_account dot ds d) = DistrictAccountName d"
  "ac_Name system_account = SystemAccountName"
  by (simp_all add: central_account_def district_account_def system_account_def Let_def)

lemma reserved_names [simp]:
  "DistrictAccountName d \<noteq> CentralAccountName" "CentralAccountName \<noteq> DistrictAccountName d"
  "DistrictAccountName d \<noteq> SystemAccountName" "SystemAccountName \<noteq> DistrictAccountName d"
  "DistrictAccountName d \<noteq> DMZAccountName" "DMZAccountName \<noteq> DistrictAccountName d"
  "SystemAccountName \<noteq> CentralAccountName" "CentralAccountName \<noteq> SystemAccountName"
  "DMZAccountName \<noteq> CentralAccountName" "CentralAccountName \<noteq> DMZAccountName"
  "DMZAccountName \<noteq> SystemAccountName" "SystemAccountName \<noteq> DMZAccountName"
  by (simp_all add: DistrictAccountName_def CentralAccountName_def SystemAccountName_def DMZAccountName_def)

text \<open>Only the CENTRAL account is touched by the updates that search for it.\<close>

lemma update_central_accounts:
  "update_central f (central_account dot ds is # map (district_account dot ds) is @ [system_account]) =
     f (central_account dot ds is) # map (district_account dot ds) is @ [system_account]"
  by (simp add: update_central_def)

lemma add_dmz_accounts:
  "add_dmz z (central_account dot ds is # map (district_account dot ds) is @ [system_account]) =
     (central_account dot ds is)\<lparr>ac_Exports := share_froms z\<rparr> # map (district_account dot ds) is @
       [system_account] @ dmz_accounts z"
proof (cases z)
  case None
  then show ?thesis by (simp add: add_dmz_def share_froms_def dmz_accounts_def central_account_def)
next
  case (Some w)
  obtain seen where "foldl add_share (central_account dot ds is # map (district_account dot ds) is @ [system_account],
      dmz_account, []) (dmz_Shares w) =
     (with_exports (share_froms z) (central_account dot ds is # map (district_account dot ds) is @ [system_account]),
      dmz_account\<lparr>ac_Imports := ac_Imports dmz_account @
            map (\<lambda>f. \<lparr>im_FromAccount = CentralAccountName, im_Subject = f\<rparr>) (share_froms z),
          ac_Users := ac_Users dmz_account @ map (\<lambda>(f, a, c). consumer_user c a) (complete_shares (dmz_Shares w))\<rparr>,
      seen)"
    using add_share_loop [of _ dmz_account "[]" "dmz_Shares w"] by (auto simp: share_froms_def Some)
  then show ?thesis
    by (simp add: add_dmz_def Some dmz_accounts_def with_exports_def update_central_accounts dmz_account_def)
       (simp add: central_account_def)
qed

lemma BuildAccounts_iff:
  "BuildAccounts (Some t) = Inr m \<longleftrightarrow>
     (\<exists>dot. t_Dot t = Some dot \<and> m = \<lparr>m_DOT = dot, m_Accounts = sort_key ac_Name (account_list dot t)\<rparr>)"
proof -
  have "update_central (\<lambda>ac. ac\<lparr>ac_Exports := sort (ac_Exports ac)\<rparr>)
      ((central_account dot ds is)\<lparr>ac_Exports := share_froms z\<rparr> # map (district_account dot ds) is @
       [system_account] @ dmz_accounts z) =
      (central_account dot ds is)\<lparr>ac_Exports := sort (share_froms z)\<rparr> # map (district_account dot ds) is @
       [system_account] @ dmz_accounts z" for dot ds "is" z
    by (cases z) (simp_all add: update_central_def dmz_accounts_def)
  then show ?thesis
    by (auto simp: BuildAccounts_def add_dmz_accounts account_list_def Let_def sortedKeys_def)
qed

lemma account_cases:
  assumes "a \<in> set (account_list dot t)"
  obtains "a = (central_account dot (t_District t) (sortedKeys (t_District t)))\<lparr>ac_Exports := sort (share_froms (t_DMZ t))\<rparr>"
    | d where "d \<in> fst ` set (t_District t)" "a = district_account dot (t_District t) d"
    | "a = system_account"
    | "a \<in> set (dmz_accounts (t_DMZ t))"
  using assms by (auto simp: account_list_def)

lemma account_list_members:
  "(central_account dot (t_District t) (sortedKeys (t_District t)))\<lparr>ac_Exports := sort (share_froms (t_DMZ t))\<rparr>
     \<in> set (account_list dot t)"
  "d \<in> fst ` set (t_District t) \<Longrightarrow> district_account dot (t_District t) d \<in> set (account_list dot t)"
  by (simp_all add: account_list_def)

lemma complete_shares_member:
  "(f, a, c) \<in> set (complete_shares ss) \<longleftrightarrow>
     (\<exists>sh\<in>set ss. sh_From sh = Some f \<and> sh_As sh = Some a \<and> sh_Consumer sh = Some c)"
proof -
  have "complete_share sh = Some (f, a, c) \<longleftrightarrow>
      sh_From sh = Some f \<and> sh_As sh = Some a \<and> sh_Consumer sh = Some c" for sh
    by (auto simp: complete_share_def split: option.splits)
  then show ?thesis by (force simp: complete_shares_def List.map_filter_def)
qed

lemma dmz_account_users:
  assumes "a \<in> set (account_list dot t)" and "ac_Name a = DMZAccountName" and "u \<in> set (ac_Users a)"
  shows "\<exists>z f s c. t_DMZ t = Some z \<and> u = consumer_user c s \<and>
     (\<exists>sh\<in>set (dmz_Shares z). sh_From sh = Some f \<and> sh_As sh = Some s \<and> sh_Consumer sh = Some c)"
proof -
  from assms(1) have "a \<in> set (dmz_accounts (t_DMZ t))"
    by (rule account_cases) (use assms(2) in simp_all)
  with assms(3) obtain z f s c where z: "t_DMZ t = Some z" "u = consumer_user c s"
      "(f, s, c) \<in> set (complete_shares (dmz_Shares z))"
    by (cases "t_DMZ t") (auto simp: dmz_accounts_def)
  then show ?thesis unfolding complete_shares_member by blast
qed

lemma nats_match_any: "ts \<noteq> [] \<Longrightarrow> nats_match (tokens ''>'') ts"
  by (simp add: nats_match_rest)

subsection \<open>Properties\<close>

text \<open>
  C11. No dangling imports: every import of the model names an account of the model that exports
  exactly the imported subject, so the whole data path district, CENTRAL, DMZ is connected.
\<close>

theorem BuildAccounts_imports_backed:
  assumes "BuildAccounts (Some t) = Inr m" and "a \<in> set (m_Accounts m)" and "i \<in> set (ac_Imports a)"
  shows "\<exists>b\<in>set (m_Accounts m). ac_Name b = im_FromAccount i \<and> im_Subject i \<in> set (ac_Exports b)"
proof -
  from assms(1) obtain dot where m: "set (m_Accounts m) = set (account_list dot t)"
    by (auto simp: BuildAccounts_iff)
  from assms(2) have "a \<in> set (account_list dot t)" by (simp add: m)
  then show ?thesis
  proof (cases rule: account_cases)
    case 1
    with assms(3) obtain d where "d \<in> fst ` set (t_District t)"
      "i = \<lparr>im_FromAccount = DistrictAccountName d, im_Subject = subjectSpace dot (gm_ptr (t_District t) d) d\<rparr>"
      by (auto simp: central_account_def)
    then show ?thesis
      using account_list_members(2) [of d t dot] unfolding m
      by (intro bexI [of _ "district_account dot (t_District t) d"]) (simp_all add: district_account_def Let_def)
  next
    case 4
    with assms(3) obtain f where "f \<in> set (share_froms (t_DMZ t))"
      "i = \<lparr>im_FromAccount = CentralAccountName, im_Subject = f\<rparr>"
      by (auto simp: dmz_accounts_def split: option.splits)
    then show ?thesis
      using account_list_members(1) [of t dot] unfolding m by (intro bexI) simp_all
  qed (use assms(3) in \<open>simp_all add: district_account_def system_account_def Let_def\<close>)
qed

text \<open>
  C13. External consumers are subscribe-only: a user of the DMZ account belongs to a declared share,
  may subscribe exactly to the subjects its share-space selects, and may publish nowhere at all,
  although its publish allow list is empty.
\<close>

theorem BuildAccounts_consumers_subscribe_only:
  assumes "BuildAccounts (Some t) = Inr m" and "a \<in> set (m_Accounts m)" and "ac_Name a = DMZAccountName"
    and "u \<in> set (ac_Users a)" and "ts \<noteq> []"
  shows "\<not> may_publish u ts \<and>
    (\<exists>z sh s. t_DMZ t = Some z \<and> sh \<in> set (dmz_Shares z) \<and> sh_Consumer sh = Some (u_Label u) \<and>
       sh_As sh = Some s \<and> (may_subscribe u ts \<longleftrightarrow> nats_match (tokens s) ts))"
proof -
  from assms(1) obtain dot where m: "set (m_Accounts m) = set (account_list dot t)"
    by (auto simp: BuildAccounts_iff)
  obtain z f s c sh where u: "t_DMZ t = Some z" "u = consumer_user c s" "sh \<in> set (dmz_Shares z)"
      "sh_As sh = Some s" "sh_Consumer sh = Some c"
    using dmz_account_users [OF _ assms(3,4)] assms(2) m by metis
  have "\<not> may_publish u ts"
    using nats_match_any [OF assms(5)] by (simp add: u(2) may_publish_def permits_def consumer_user_def)
  moreover have "may_subscribe u ts \<longleftrightarrow> nats_match (tokens s) ts"
    by (simp add: u(2) may_subscribe_def permits_def consumer_user_def)
  ultimately show ?thesis using u by (auto simp: consumer_user_def)
qed

text \<open>
  C12. Isolation of external consumers, end to end: in the account model of a loaded topology, no
  subject that a DMZ user of one consumer may read in the share space can be read by a DMZ user of
  another consumer.
\<close>

theorem BuildAccounts_consumers_isolated:
  assumes "Load file = Inr (Some t)" and "BuildAccounts (Some t) = Inr m"
    and "a \<in> set (m_Accounts m)" and "ac_Name a = DMZAccountName"
    and "u \<in> set (ac_Users a)" and "u' \<in> set (ac_Users a)" and "u_Label u \<noteq> u_Label u'"
    and "HasPrefix (hd (u_Subscribe u)) (ShareSpace (m_DOT m))" and "may_subscribe u ts"
  shows "\<not> may_subscribe u' ts"
proof -
  from assms(1) have t: "keyed t" "wf_topology t" by (auto simp: Load_result)
  then have valid: "Validate (Some t) = Inr ()" by (simp add: Validate_iff keyed_go_maps)
  from assms(2) obtain dot where m: "t_Dot t = Some dot" "m_DOT m = dot" "set (m_Accounts m) = set (account_list dot t)"
    by (auto simp: BuildAccounts_iff)
  note users = dmz_account_users [OF assms(3) [unfolded m(3)] assms(4)]
  obtain z s c sh where u: "t_DMZ t = Some z" "u = consumer_user c s" "sh \<in> set (dmz_Shares z)"
      "sh_As sh = Some s" "sh_Consumer sh = Some c" using users [OF assms(5)] by metis
  obtain s' c' sh' where u': "u' = consumer_user c' s'" "sh' \<in> set (dmz_Shares z)"
      "sh_As sh' = Some s'" "sh_Consumer sh' = Some c'" using users [OF assms(6)] u(1) by (metis option.inject)
  have "\<not> nats_match (tokens s') ts"
  proof (rule share_subjects_disjoint [OF valid keyed_go_maps [OF t(1)] u(1,3) u'(2) u(5) u'(4) _ u(4) u'(3) m(1)])
    show "c \<noteq> c'" using assms(7) by (simp add: u(2) u'(1) consumer_user_def)
    show "HasPrefix s (ShareSpace dot)" using assms(8) m(2) by (simp add: u(2) consumer_user_def)
    show "nats_match (tokens s) ts"
      using assms(9) by (simp add: u(2) may_subscribe_def permits_def consumer_user_def)
  qed
  then show ?thesis by (simp add: u'(1) may_subscribe_def permits_def consumer_user_def)
qed

text \<open>
  C8. Shape of the account model of a loaded topology: the account names are strictly sorted, so no
  two accounts share a name; CENTRAL imports exactly the spaces of the districts and exports
  exactly the shared subjects; a cabinet user of a district may publish exactly inside the
  district's space.
\<close>

theorem BuildAccounts_shape:
  assumes "Load file = Inr (Some t)" and "BuildAccounts (Some t) = Inr m" and "a \<in> set (m_Accounts m)"
  shows "sorted_wrt (<) (map ac_Name (m_Accounts m)) \<and>
    (ac_Name a = CentralAccountName \<longrightarrow>
       ac_Imports a = map (\<lambda>d. \<lparr>im_FromAccount = DistrictAccountName d,
         im_Subject = subjectSpace (m_DOT m) (gm_ptr (t_District t) d) d\<rparr>) (sortedKeys (t_District t)) \<and>
       set (ac_Exports a) = {f. \<exists>z sh. t_DMZ t = Some z \<and> sh \<in> set (dmz_Shares z) \<and> sh_From sh = Some f} \<and>
       sorted_wrt (<) (ac_Exports a)) \<and>
    (\<forall>d u ts. d \<in> fst ` set (t_District t) \<and> ac_Name a = DistrictAccountName d \<and> u \<in> set (ac_Users a) \<longrightarrow>
       (may_publish u ts \<longleftrightarrow> nats_match (tokens (subjectSpace (m_DOT m) (gm_ptr (t_District t) d) d)) ts))"
proof -
  from assms(1) have t: "keyed t" "wf_topology t" by (auto simp: Load_result)
  note maps = keyed_go_maps [OF t(1)]
  from assms(2) obtain dot where m: "t_Dot t = Some dot" "m_DOT m = dot"
    "m_Accounts m = sort_key ac_Name (account_list dot t)" by (auto simp: BuildAccounts_iff)
  from t(2) have tok: "tokenRE d" if "d \<in> fst ` set (t_District t)" for d
    using that by (auto simp: wf_topology_def wf_district_def)
  have inj: "inj_on DistrictAccountName (fst ` set (t_District t))"
    by (rule inj_onI) (auto simp: DistrictAccountName_def intro: Sanitize_inj tok)
  have "distinct (map ac_Name (account_list dot t))"
  proof -
    have "distinct (map DistrictAccountName (sortedKeys (t_District t)))"
      using maps inj by (simp add: distinct_map go_maps_def)
    then show ?thesis
      by (cases "t_DMZ t") (auto simp: account_list_def dmz_accounts_def comp_def)
  qed
  then have sorted: "sorted_wrt (<) (map ac_Name (m_Accounts m))"
    by (simp add: m(3) strict_sorted_iff sk.distinct_map_srt)
  from assms(3) have a: "a \<in> set (account_list dot t)" by (simp add: m(3))
  have froms: "set (share_froms (t_DMZ t)) = {f. \<exists>z sh. t_DMZ t = Some z \<and> sh \<in> set (dmz_Shares z) \<and> sh_From sh = Some f}"
  proof (cases "t_DMZ t")
    case (Some z)
    have "\<exists>a c. sh_As sh = Some a \<and> sh_Consumer sh = Some c" if "sh \<in> set (dmz_Shares z)" for sh
      using t(2) Some that by (auto simp: wf_topology_def wf_dmz_def wf_share_def)
    then show ?thesis
      using Some complete_shares_member [of _ _ _ "dmz_Shares z"]
      by (auto simp: share_froms_def set_firsts image_iff) (metis fst_conv)+
  qed (simp add: share_froms_def)
  have exports: "sorted_wrt (<) (sort (share_froms (t_DMZ t)))"
    by (simp add: strict_sorted_iff share_froms_def distinct_firsts split: option.split)
  show ?thesis
    unfolding m(2)
  proof (intro conjI allI impI sorted)
    assume "ac_Name a = CentralAccountName"
    with a have "a = (central_account dot (t_District t) (sortedKeys (t_District t)))\<lparr>ac_Exports := sort (share_froms (t_DMZ t))\<rparr>"
      by (cases rule: account_cases) (auto simp: dmz_accounts_def split: option.splits)
    then show "ac_Imports a = map (\<lambda>d. \<lparr>im_FromAccount = DistrictAccountName d,
         im_Subject = subjectSpace dot (gm_ptr (t_District t) d) d\<rparr>) (sortedKeys (t_District t))"
      and "set (ac_Exports a) = {f. \<exists>z sh. t_DMZ t = Some z \<and> sh \<in> set (dmz_Shares z) \<and> sh_From sh = Some f}"
      and "sorted_wrt (<) (ac_Exports a)"
      using froms exports by (simp_all add: central_account_def)
  next
    fix d u ts
    assume d: "d \<in> fst ` set (t_District t) \<and> ac_Name a = DistrictAccountName d \<and> u \<in> set (ac_Users a)"
    from a have "a = district_account dot (t_District t) d"
    proof (cases rule: account_cases)
      case (2 e)
      with d inj show ?thesis by (auto dest: inj_onD)
    qed (use d in \<open>auto simp: dmz_accounts_def split: option.splits\<close>)
    with d show "may_publish u ts \<longleftrightarrow> nats_match (tokens (subjectSpace dot (gm_ptr (t_District t) d) d)) ts"
      by (simp add: district_account_def Let_def may_publish_def permits_def)
  qed
qed

subsection \<open>Witnesses\<close>

definition ex_model :: Model where
  "ex_model = projr (BuildAccounts (Some ex_topology))"

lemma ex_model: "BuildAccounts (Some ex_topology) = Inr ex_model"
proof -
  have "\<exists>m. BuildAccounts (Some ex_topology) = Inr m" by (simp add: BuildAccounts_iff ex_topology_def)
  then show ?thesis by (auto simp: ex_model_def)
qed

lemma ex_model_members:
  "m_Accounts ex_model ! 0 \<in> set (m_Accounts ex_model)" "m_Accounts ex_model ! 1 \<in> set (m_Accounts ex_model)"
  "m_Accounts ex_model ! 2 \<in> set (m_Accounts ex_model)" "m_DOT ex_model = ''exdot''"
  "ac_Name (m_Accounts ex_model ! 1) = DistrictAccountName ''d7''"
  "ac_Name (m_Accounts ex_model ! 2) = DMZAccountName"
proof -
  have "length (m_Accounts ex_model) = 4" by code_simp
  then show "m_Accounts ex_model ! 0 \<in> set (m_Accounts ex_model)" "m_Accounts ex_model ! 1 \<in> set (m_Accounts ex_model)"
    "m_Accounts ex_model ! 2 \<in> set (m_Accounts ex_model)" by simp_all
qed code_simp+

lemma ex_model_users:
  "ac_Users (m_Accounts ex_model ! 1) =
     [\<lparr>u_Label = ''cabinet'', u_Publish = [''vikasa.exdot.d7.>''], u_Subscribe = [''vikasa.exdot.d7.>''],
       u_PublishDeny = [], u_SubscribeDeny = []\<rparr>]"
  "ac_Users (m_Accounts ex_model ! 2) =
     [consumer_user ''acme'' ''vikasa.exdot.share.acme.>'', consumer_user ''bolt'' ''vikasa.peer.exdot.i90.>'']"
  by code_simp+

theorem BuildAccounts_imports_backed_witness:
  "\<exists>b\<in>set (m_Accounts ex_model). ac_Name b = ''DISTRICT_D7'' \<and> ''vikasa.exdot.d7.>'' \<in> set (ac_Exports b)"
proof -
  have i: "\<lparr>im_FromAccount = ''DISTRICT_D7'', im_Subject = ''vikasa.exdot.d7.>''\<rparr> \<in> set (ac_Imports (m_Accounts ex_model ! 0))"
    by code_simp
  show ?thesis using BuildAccounts_imports_backed [OF ex_model ex_model_members(1) i] by simp
qed

theorem BuildAccounts_consumers_subscribe_only_witness:
  "\<not> may_publish (consumer_user ''acme'' ''vikasa.exdot.share.acme.>'') [''$JS'', ''API'', ''x'']"
  using BuildAccounts_consumers_subscribe_only [OF ex_model ex_model_members(3,6),
      of "consumer_user ''acme'' ''vikasa.exdot.share.acme.>''" "[''$JS'', ''API'', ''x'']"]
  by (simp add: ex_model_users)

theorem BuildAccounts_consumers_isolated_witness:
  "\<not> may_subscribe (consumer_user ''bolt'' ''vikasa.peer.exdot.i90.>'') [''vikasa'', ''exdot'', ''share'', ''acme'', ''x'']"
proof (rule BuildAccounts_consumers_isolated [OF ex_load ex_model ex_model_members(3,6),
      of "consumer_user ''acme'' ''vikasa.exdot.share.acme.>''"])
  show "may_subscribe (consumer_user ''acme'' ''vikasa.exdot.share.acme.>'') [''vikasa'', ''exdot'', ''share'', ''acme'', ''x'']"
    by (simp add: may_subscribe_def permits_def consumer_user_def tokens_def)
qed (simp_all add: ex_model_users ex_model_members consumer_user_def ShareSpace_def HasPrefix_def)

theorem BuildAccounts_shape_witness:
  "sorted_wrt (<) (map ac_Name (m_Accounts ex_model)) \<and>
   \<not> may_publish (ac_Users (m_Accounts ex_model ! 1) ! 0) [''vikasa'', ''exdot'', ''d70'', ''x'']"
proof -
  have d: "''d7'' \<in> fst ` set (t_District ex_topology)" by (simp add: ex_topology_def)
  have s: "subjectSpace ''exdot'' (gm_ptr (t_District ex_topology) ''d7'') ''d7'' = ''vikasa.exdot.d7.>''" by code_simp
  note shape = BuildAccounts_shape [OF ex_load ex_model ex_model_members(2)]
  have u: "ac_Users (m_Accounts ex_model ! 1) ! 0 \<in> set (ac_Users (m_Accounts ex_model ! 1))"
    unfolding ex_model_users by simp
  have "may_publish (ac_Users (m_Accounts ex_model ! 1) ! 0) ts \<longleftrightarrow> nats_match (tokens ''vikasa.exdot.d7.>'') ts" for ts
    using shape [THEN conjunct2, THEN conjunct2, rule_format, OF conjI, OF d conjI, OF ex_model_members(5) u]
    unfolding ex_model_members(4) s .
  with shape show ?thesis by (simp add: tokens_def)
qed

end
