(* ===== verification/Issuance.thy ===== *)
theory Issuance
  imports Revocations Accounts
begin

section \<open>Issuing the trust chain\<close>

text \<open>
  File internal/issuance/issuance.go: minting or reusing the operator and account key pairs, the
  scoped credentials of cabinets and external consumers, and the resolver bundle, as one run over
  the tree. A Go function that fills the shared \<open>Result\<close> returns the updated one here, and the
  sets of names given for rotation are lists. Wiping a key in memory has no counterpart.
\<close>

subsection \<open>Results\<close>

record AccountResult =
  ar_Name :: string
  ar_Pub :: string
  ar_Minted :: bool
  ar_SigningPub :: string
  ar_SigningMinted :: bool
  ar_SigningRotated :: bool

record CabinetResult =
  cr_ID :: string
  cr_District :: string
  cr_Minted :: bool
  cr_CertMinted :: bool

record DMZConsumerResult =
  dr_Consumer :: string
  dr_Minted :: bool
  dr_Subjects :: "string list"

record IssueResult =
  ir_OperatorPub :: string
  ir_OperatorMinted :: bool
  ir_OperatorSigningPub :: string
  ir_OperatorSigningMinted :: bool
  ir_OperatorSigningRotated :: bool
  ir_Accounts :: "AccountResult list"
  ir_Cabinets :: "CabinetResult list"
  ir_CACreated :: bool
  ir_Rotated :: "string list"
  ir_Revoked :: nat
  ir_DMZConsumers :: "DMZConsumerResult list"

record RotationSpec =
  rs_Cabinets :: "string list"
  rs_OperatorSK :: bool
  rs_AccountSK :: "string list"

record acct =
  at_def :: Account
  at_kp :: string
  at_pub :: string
  at_minted :: bool
  at_skKP :: string
  at_skPub :: string
  at_skMinted :: bool
  at_skRotated :: bool

subsection \<open>Keys on disk\<close>

definition requireOwnerOnly :: "path \<Rightarrow> (issue_error, unit) io" where
  "requireOwnerOnly dir =
     bindIO (wrapIO (StatFailed dir) (osIO (Stat dir))) (\<lambda>perm.
     if perm AND 0x3F \<noteq> 0 then throwIO (NotOwnerOnly dir perm) else returnIO ())"

definition mint_key :: "nats_lib \<Rightarrow> path \<Rightarrow> key_kind \<Rightarrow> (issue_error, string \<times> bool) io" where
  \<comment> \<open>the part of \<^theory_text>\<open>ensureKeypair\<close> after the reuse branch\<close>
  "mint_key lib seedPath create =
     bindIO (wrapIO CreateKeyFailed (osIO Entropy)) (\<lambda>r.
     let kp = CreateKey lib create r in
     bindIO (wrapIO SeedFailed (libIO (Seed lib kp))) (\<lambda>seed.
     bindIO (wrapIO (WriteSeed seedPath) (osIO (WriteFile seedPath seed 0x180))) (\<lambda>_.
     returnIO (kp, True))))"

definition ensureKeypair :: "nats_lib \<Rightarrow> path \<Rightarrow> key_kind \<Rightarrow> bool \<Rightarrow> (issue_error, string \<times> bool) io" where
  "ensureKeypair lib seedPath create force =
     (if \<not> force then
        bindIO (tryIO (ReadFile seedPath)) (\<lambda>r.
          case r of
            Inr data \<Rightarrow>
              bindIO (wrapIO (ParseSeed seedPath) (libIO (FromSeed lib data))) (\<lambda>kp. returnIO (kp, False))
          | Inl err \<Rightarrow>
              if err \<noteq> ErrNotExist then throwIO (ReadSeed seedPath err) else mint_key lib seedPath create)
      else mint_key lib seedPath create)"

definition mint_leaf_key :: "nats_lib \<Rightarrow> path \<Rightarrow> (issue_error, string \<times> bool) io" where
  "mint_leaf_key lib p =
     bindIO (wrapIO NewLeafKey (NewClientKey (pki_lib.truncate lib))) (\<lambda>keyPEM.
     bindIO (wrapIO (WriteLeafKey p) (osIO (WriteFile p keyPEM 0x180))) (\<lambda>_.
     returnIO (keyPEM, True)))"

definition ensureLeafKey :: "nats_lib \<Rightarrow> path \<Rightarrow> bool \<Rightarrow> (issue_error, string \<times> bool) io" where
  "ensureLeafKey lib p force =
     (if \<not> force then
        bindIO (tryIO (ReadFile p)) (\<lambda>r.
          case r of
            Inr data \<Rightarrow> returnIO (data, False)
          | Inl rerr \<Rightarrow>
              if rerr \<noteq> ErrNotExist then throwIO (ReadLeafKey p rerr) else mint_leaf_key lib p)
      else mint_leaf_key lib p)"

definition public_key :: "nats_lib \<Rightarrow> string \<Rightarrow> (cause, string) io" where
  "public_key lib kp = libIO (PublicKey lib kp)"

definition gm_string :: "string gomap \<Rightarrow> string \<Rightarrow> string" where
  \<comment> \<open>\<^theory_text>\<open>m[k]\<close>, the empty string for a missing key\<close>
  "gm_string m k = (case map_of m k of None \<Rightarrow> [] | Some v \<Rightarrow> v)"

subsection \<open>The operator and the accounts\<close>

definition ensureOperator ::
    "nats_lib \<Rightarrow> path \<Rightarrow> string \<Rightarrow> bool \<Rightarrow> (issue_error, string \<times> bool \<times> string \<times> string \<times> bool) io" where
  "ensureOperator lib dir dot rotateSK =
     bindIO (wrapIO OperatorKeyFailed (ensureKeypair lib (Join dir ''operator.nkey'') OperatorKey False)) (\<lambda>(opKP, opMinted).
     bindIO (wrapIO OperatorPub (public_key lib opKP)) (\<lambda>opPub.
     bindIO (if rotateSK
             then bindIO Now (\<lambda>now. wrapIO CaptureOperatorSK (captureRetiredOperatorSK lib dir now))
             else returnIO ()) (\<lambda>_.
     bindIO (wrapIO OperatorSKFailed (ensureKeypair lib (Join dir ''operator-sk.nkey'') OperatorKey rotateSK)) (\<lambda>(skKP, skMinted).
     bindIO (wrapIO OperatorSKPub (public_key lib skKP)) (\<lambda>skPub.
     let oc = \<lparr>oc_Subject = opPub, oc_Name = OperatorName dot, oc_SigningKeys = [skPub]\<rparr> in
     bindIO Now (\<lambda>t.
     bindIO (wrapIO EncodeOperatorJWT (libIO (EncodeOperator lib oc opKP t))) (\<lambda>opJWT.
     bindIO (wrapIO WriteOperatorJWT (osIO (WriteFile (Join dir ''operator.jwt'') opJWT 0x1A4))) (\<lambda>_.
     returnIO (opPub, opMinted, skKP, skPub, skMinted)))))))))"

definition ensure_account ::
    "nats_lib \<Rightarrow> path \<Rightarrow> path \<Rightarrow> string list \<Rightarrow> acct list \<times> string gomap \<Rightarrow> Account \<Rightarrow>
     (issue_error, acct list \<times> string gomap) io" where
  "ensure_account lib dir accountsDir rotateAccountSKSet st a =
     bindIO (wrapIO (AccountKeyFailed (ac_Name a))
       (ensureKeypair lib (Join accountsDir (ac_Name a @ ''.nkey'')) AccountKey False)) (\<lambda>(kp, minted).
     bindIO (wrapIO AccountPub (public_key lib kp)) (\<lambda>pub.
     let rotatingSK = ac_Name a \<in> set rotateAccountSKSet in
     bindIO (if rotatingSK
             then bindIO Now (\<lambda>now. wrapIO (CaptureAccountSK (ac_Name a)) (captureRetiredAccountSK lib dir (ac_Name a) pub now))
             else returnIO ()) (\<lambda>_.
     bindIO (wrapIO (AccountSKFailed (ac_Name a))
       (ensureKeypair lib (Join accountsDir (ac_Name a @ ''-sk.nkey'')) AccountKey rotatingSK)) (\<lambda>(skKP, skMinted).
     bindIO (wrapIO (AccountSKPub (ac_Name a)) (public_key lib skKP)) (\<lambda>skPub.
     returnIO
       (fst st @ [\<lparr>at_def = a, at_kp = kp, at_pub = pub, at_minted = minted, at_skKP = skKP, at_skPub = skPub,
          at_skMinted = skMinted, at_skRotated = rotatingSK\<rparr>],
        AList.update (ac_Name a) pub (snd st)))))))"

definition ensureAccounts ::
    "nats_lib \<Rightarrow> path \<Rightarrow> path \<Rightarrow> Model \<Rightarrow> string list \<Rightarrow> (issue_error, acct list \<times> string gomap) io" where
  "ensureAccounts lib dir accountsDir model rotateAccountSKSet =
     foldIO (ensure_account lib dir accountsDir rotateAccountSKSet) ([], []) (m_Accounts model)"

subsection \<open>Cabinets\<close>

definition userJWTValidity :: int where "userJWTValidity = 90 * 24 * hour"

definition expires_at :: "int \<Rightarrow> int" where
  \<comment> \<open>\<^theory_text>\<open>time.Now().Add(userJWTValidity).Unix()\<close>\<close>
  "expires_at now = (now + userJWTValidity) div second"

definition cabinet_claims :: "string \<Rightarrow> string \<Rightarrow> string \<Rightarrow> string \<Rightarrow> int \<Rightarrow> user_claims" where
  "cabinet_claims userPub i issuerAccountPub flt now =
     \<lparr>uc_Subject = userPub, uc_Name = i, uc_IssuerAccount = issuerAccountPub, uc_PubAllow = [flt], uc_PubDeny = [],
      uc_SubAllow = [flt], uc_SubDeny = [], uc_Expires = expires_at now\<rparr>"

definition mintCabinet ::
    "nats_lib \<Rightarrow> Cabinet \<Rightarrow> path \<Rightarrow> string \<Rightarrow> string \<Rightarrow> (string \<Rightarrow> string \<Rightarrow> (pki_error, string) io) \<Rightarrow> bool \<Rightarrow>
     (issue_error, bool \<times> bool) io" where
  "mintCabinet lib c distDir issuerAccountPub acctSK sign rotating =
     bindIO (wrapIO (CabinetKeyFailed (cab_ID c))
       (ensureKeypair lib (Join distDir (cab_ID c @ ''.nkey'')) UserKey rotating)) (\<lambda>(userKP, minted).
     bindIO (wrapIO UserPub (public_key lib userKP)) (\<lambda>userPub.
     bindIO Now (\<lambda>now.
     let uc = cabinet_claims userPub (cab_ID c) issuerAccountPub (cab_Filter c) now in
     bindIO Now (\<lambda>t.
     bindIO (wrapIO (EncodeUserJWT (cab_ID c)) (libIO (EncodeUser lib uc acctSK t))) (\<lambda>uJWT.
     bindIO (wrapIO UserSeed (libIO (Seed lib userKP))) (\<lambda>userSeed.
     bindIO (wrapIO (FormatCreds (cab_ID c)) (libIO (FormatUserConfig lib uJWT userSeed))) (\<lambda>creds.
     bindIO (wrapIO WriteCreds (osIO (WriteFile (Join distDir (cab_ID c @ ''.creds'')) creds 0x180))) (\<lambda>_.
     bindIO (wrapIO (LeafKeyFailed (cab_ID c)) (ensureLeafKey lib (Join distDir (cab_ID c @ ''.key'')) rotating)) (\<lambda>(keyPEM, certMinted).
     bindIO (wrapIO (CSRFailed (cab_ID c)) (ClientCSR (pki_lib.truncate lib) (cab_ID c) keyPEM)) (\<lambda>csrDER.
     bindIO (wrapIO (CertFailed (cab_ID c)) (sign csrDER (cab_ID c))) (\<lambda>certPEM.
     bindIO (wrapIO WriteCert (osIO (WriteFile (Join distDir (cab_ID c @ ''.crt'')) certPEM 0x1A4))) (\<lambda>_.
     returnIO (minted, certMinted)))))))))))))"

text \<open>The checks of one cabinet: its district, its account and the signing key of the account.\<close>

definition cabinet_scope ::
    "Model \<Rightarrow> Topology \<Rightarrow> string gomap \<Rightarrow> string gomap \<Rightarrow> Cabinet \<Rightarrow> issue_error + string \<times> string \<times> string" where
  "cabinet_scope model t partToDistrict skByName c =
     (if cab_Filter c = [] then Inl (FilterRequired (cab_ID c))
      else case map_of partToDistrict (cab_Partition c) of
        None \<Rightarrow> Inl (IssuePartitionUndefined (cab_ID c) (cab_Partition c))
      | Some distID \<Rightarrow>
          (case FilterUnderDistrict (m_DOT model) distID
               (case gm_ptr (t_District t) distID of None \<Rightarrow> None | Some d \<Rightarrow> di_SubjectPrefix d) (cab_Filter c) of
             (space, False) \<Rightarrow> Inl (IssueFilterOutside (cab_ID c) (cab_Filter c) space)
           | (space, True) \<Rightarrow>
               let acctName = DistrictAccountName distID in
               (case map_of skByName acctName of
                  None \<Rightarrow> Inl (AccountNotInModel (cab_ID c) acctName)
                | Some acctSKKP \<Rightarrow> Inr (distID, acctName, acctSKKP))))"

definition retire_cabinet ::
    "nats_lib \<Rightarrow> path \<Rightarrow> path \<Rightarrow> string \<Rightarrow> string \<Rightarrow> string \<Rightarrow> (issue_error, unit) io" where
  \<comment> \<open>\<^theory_text>\<open>if rotating { captureRetired; appendAuditRecord }\<close>\<close>
  "retire_cabinet lib dir distDir i distID acctName =
     bindIO Now (\<lambda>now.
     bindIO (wrapIO (CaptureCabinet i) (captureRetired lib distDir i distID acctName now)) (\<lambda>rec.
       case rec of
         None \<Rightarrow> returnIO ()
       | Some rec \<Rightarrow> wrapIO (RecordRetired i) (appendAuditRecord dir retiredLogFile (retired_members rec))))"

definition mint_one_cabinet ::
    "nats_lib \<Rightarrow> Model \<Rightarrow> Topology \<Rightarrow> string gomap \<Rightarrow> path \<Rightarrow> string list \<Rightarrow> string gomap \<Rightarrow> string gomap \<Rightarrow>
     (string \<Rightarrow> string \<Rightarrow> (pki_error, string) io) \<Rightarrow> IssueResult \<Rightarrow> Cabinet \<Rightarrow> (issue_error, IssueResult) io" where
  "mint_one_cabinet lib model t partToDistrict dir rotateSet skByName pubByName sign res c =
     bindIO (liftIO (cabinet_scope model t partToDistrict skByName c)) (\<lambda>(distID, acctName, acctSKKP).
     let distDir = Join (Join dir ''cabinets'') distID in
     bindIO (wrapIO (MkdirFailed distDir) (osIO (MkdirAll distDir 0x1C0))) (\<lambda>_.
     bindIO (requireOwnerOnly distDir) (\<lambda>_.
     let rotating = cab_ID c \<in> set rotateSet in
     bindIO (if rotating then retire_cabinet lib dir distDir (cab_ID c) distID acctName else returnIO ()) (\<lambda>_.
     let res = (if rotating then res\<lparr>ir_Rotated := ir_Rotated res @ [cab_ID c]\<rparr> else res) in
     bindIO (mintCabinet lib c distDir (gm_string pubByName acctName) acctSKKP sign rotating) (\<lambda>(minted, certMinted).
     returnIO (res\<lparr>ir_Cabinets := ir_Cabinets res @
       [\<lparr>cr_ID = cab_ID c, cr_District = distID, cr_Minted = minted, cr_CertMinted = certMinted\<rparr>]\<rparr>))))))"

definition mintCabinets ::
    "nats_lib \<Rightarrow> IssueResult \<Rightarrow> Model \<Rightarrow> Inventory \<Rightarrow> Root \<Rightarrow> path \<Rightarrow> string list \<Rightarrow> string gomap \<Rightarrow> string gomap \<Rightarrow>
     (issue_error, IssueResult) io" where
  "mintCabinets lib res model iv root dir rotateSet skByName pubByName =
     (if inv_DOT iv \<noteq> m_DOT model then throwIO (InventoryDotMismatch (inv_DOT iv) (m_DOT model))
      else case root of
        None \<Rightarrow> throwIO CabinetsWithoutTopology
      | Some t \<Rightarrow>
          if list_ex (\<lambda>i. i \<notin> set (map cab_ID (inv_Cabinets iv))) rotateSet then throwIO RotateUnknownCabinet
          else case PartitionIndex t of
            Inl e \<Rightarrow> throwIO IssuePartitionIndex
          | Inr partToDistrict \<Rightarrow>
              bindIO (wrapIO CAFailed (LoadOrCreateCA (pki_lib.truncate lib)
                (Join (Join dir ''ca'') ''cabinet-ca.crt'') (Join (Join dir ''ca'') ''cabinet-ca.key''))) (\<lambda>(ca, caCreated).
              foldIO (mint_one_cabinet lib model t partToDistrict dir rotateSet skByName pubByName
                  (SignClientCert (pki_lib.truncate lib) ca))
                (res\<lparr>ir_CACreated := caCreated\<rparr>) (inv_Cabinets iv)))"


subsection \<open>External consumers\<close>

record dmzConsumer =
  dc_Name :: string
  dc_SubAllow :: "string list"
  dc_PubDeny :: "string list"

definition add_values :: "unit gomap gomap \<Rightarrow> string \<Rightarrow> string list \<Rightarrow> unit gomap gomap" where
  \<comment> \<open>the closure \<^theory_text>\<open>add\<close>: a set of values per label\<close>
  "add_values m label vals =
     AList.update label
       (fold (\<lambda>v. AList.update v ()) vals (case map_of m label of None \<Rightarrow> [] | Some vs \<Rightarrow> vs)) m"

definition aggregateDMZConsumers :: "Model \<Rightarrow> dmzConsumer list" where
  "aggregateDMZConsumers model =
     (case List.find (\<lambda>a. ac_Name a = DMZAccountName) (m_Accounts model) of
        None \<Rightarrow> []
      | Some dmz \<Rightarrow>
          if ac_Users dmz = [] then []
          else
            let (subs, deny) =
                  foldl (\<lambda>(subs, deny) u. (add_values subs (u_Label u) (u_Subscribe u), add_values deny (u_Label u) (u_PublishDeny u)))
                    ([], []) (ac_Users dmz);
                keys = (\<lambda>m name. case map_of m name of None \<Rightarrow> [] | Some vs \<Rightarrow> sortedKeys vs)
            in sort_key dc_Name
                 (map (\<lambda>(name, _). \<lparr>dc_Name = name, dc_SubAllow = keys subs name, dc_PubDeny = keys deny name\<rparr>) subs))"

definition consumer_claims :: "string \<Rightarrow> dmzConsumer \<Rightarrow> string \<Rightarrow> int \<Rightarrow> user_claims" where
  "consumer_claims userPub c issuerAccountPub now =
     \<lparr>uc_Subject = userPub, uc_Name = dc_Name c, uc_IssuerAccount = issuerAccountPub, uc_PubAllow = [],
      uc_PubDeny = dc_PubDeny c, uc_SubAllow = dc_SubAllow c, uc_SubDeny = [], uc_Expires = expires_at now\<rparr>"

definition mintDMZConsumer ::
    "nats_lib \<Rightarrow> dmzConsumer \<Rightarrow> path \<Rightarrow> string \<Rightarrow> string \<Rightarrow> (issue_error, bool) io" where
  "mintDMZConsumer lib c dmzDir issuerAccountPub acctSK =
     (if dc_PubDeny c = [] then throwIO (NoPublishDeny (dc_Name c))
      else
        bindIO (wrapIO (ConsumerKeyFailed (dc_Name c))
          (ensureKeypair lib (Join dmzDir (dc_Name c @ ''.nkey'')) UserKey False)) (\<lambda>(userKP, minted).
        bindIO (wrapIO UserPub (public_key lib userKP)) (\<lambda>userPub.
        bindIO Now (\<lambda>now.
        let uc = consumer_claims userPub c issuerAccountPub now in
        bindIO Now (\<lambda>t.
        bindIO (wrapIO (EncodeUserJWT (dc_Name c)) (libIO (EncodeUser lib uc acctSK t))) (\<lambda>uJWT.
        bindIO (wrapIO UserSeed (libIO (Seed lib userKP))) (\<lambda>userSeed.
        bindIO (wrapIO (FormatCreds (dc_Name c)) (libIO (FormatUserConfig lib uJWT userSeed))) (\<lambda>creds.
        bindIO (wrapIO WriteCreds (osIO (WriteFile (Join dmzDir (dc_Name c @ ''.creds'')) creds 0x180))) (\<lambda>_.
        returnIO minted)))))))))"

definition unsafe_name :: "string \<Rightarrow> bool" where
  "unsafe_name n \<longleftrightarrow> CHR ''/'' \<in> set n \<or> CHR 0x5C \<in> set n \<or> n = ''.'' \<or> n = ''..''"

definition mint_one_consumer ::
    "nats_lib \<Rightarrow> path \<Rightarrow> string \<Rightarrow> string \<Rightarrow> IssueResult \<Rightarrow> dmzConsumer \<Rightarrow> (issue_error, IssueResult) io" where
  "mint_one_consumer lib dmzDir dmzPub dmzSK res c =
     (if unsafe_name (dc_Name c) then throwIO (UnsafeConsumerName (dc_Name c))
      else bindIO (mintDMZConsumer lib c dmzDir dmzPub dmzSK) (\<lambda>minted.
        returnIO (res\<lparr>ir_DMZConsumers := ir_DMZConsumers res @
          [\<lparr>dr_Consumer = dc_Name c, dr_Minted = minted, dr_Subjects = dc_SubAllow c\<rparr>]\<rparr>)))"

definition mintDMZConsumers ::
    "nats_lib \<Rightarrow> IssueResult \<Rightarrow> Model \<Rightarrow> path \<Rightarrow> string \<Rightarrow> string \<Rightarrow> (issue_error, IssueResult) io" where
  "mintDMZConsumers lib res model dir dmzSK dmzPub =
     (let consumers = aggregateDMZConsumers model in
      if consumers = [] then returnIO res
      else
        let dmzDir = Join dir ''dmz'' in
        bindIO (wrapIO (MkdirFailed dmzDir) (osIO (MkdirAll dmzDir 0x1C0))) (\<lambda>_.
        bindIO (requireOwnerOnly dmzDir) (\<lambda>_.
        foldIO (mint_one_consumer lib dmzDir dmzPub dmzSK) res consumers)))"

subsection \<open>The resolver bundle\<close>

definition import_claims :: "string \<Rightarrow> string gomap \<Rightarrow> Import list \<Rightarrow> issue_error + import_claim list" where
  "import_claims name pubByName ims =
     mapE (\<lambda>im. case map_of pubByName (im_FromAccount im) of
         None \<Rightarrow> Inl (ImportsUnknownAccount name (im_FromAccount im))
       | Some fromPub \<Rightarrow> Inr \<lparr>ic_Name = im_Subject im, ic_Subject = im_Subject im, ic_Account = fromPub\<rparr>) ims"

definition revocation_of :: "revokedEntry \<Rightarrow> revocation" where
  "revocation_of e = (if re_At e = zero_time then RevokeNow (re_Pub e) else RevokeAt (re_Pub e) (re_At e))"

definition account_claims_of :: "acct \<Rightarrow> import_claim list \<Rightarrow> revokedEntry list \<Rightarrow> account_claims" where
  "account_claims_of a ims revoked =
     \<lparr>acl_Subject = at_pub a, acl_Name = ac_Name (at_def a), acl_SigningKeys = [at_skPub a],
      acl_Exports = map (\<lambda>e. (e, e)) (ac_Exports (at_def a)), acl_Imports = ims,
      acl_MemoryStorage = (if ac_JetStream (at_def a) then Some (-1) else None),
      acl_DiskStorage = (if ac_JetStream (at_def a) then Some (-1) else None),
      acl_Revocations = map revocation_of revoked\<rparr>"

definition write_account ::
    "nats_lib \<Rightarrow> revokedEntry list gomap \<Rightarrow> string gomap \<Rightarrow> string \<Rightarrow> path \<Rightarrow> IssueResult \<times> string list \<Rightarrow> acct \<Rightarrow>
     (issue_error, IssueResult \<times> string list) io" where
  "write_account lib revoked pubByName operatorSK resolverDir st a =
     bindIO (liftIO (import_claims (ac_Name (at_def a)) pubByName (ac_Imports (at_def a)))) (\<lambda>ims.
     let es = entries revoked (ac_Name (at_def a));
         ac = account_claims_of a ims es in
     bindIO Now (\<lambda>t.
     bindIO (wrapIO (EncodeAccountJWT (ac_Name (at_def a))) (libIO (EncodeAccount lib ac operatorSK t))) (\<lambda>acJWT.
     bindIO (wrapIO WriteAccountJWT (osIO (WriteFile (Join resolverDir (at_pub a @ ''.jwt'')) acJWT 0x1A4))) (\<lambda>_.
     returnIO
       ((fst st)\<lparr>ir_Revoked := ir_Revoked (fst st) + length es,
          ir_Accounts := ir_Accounts (fst st) @
            [\<lparr>ar_Name = ac_Name (at_def a), ar_Pub = at_pub a, ar_Minted = at_minted a, ar_SigningPub = at_skPub a,
              ar_SigningMinted = at_skMinted a, ar_SigningRotated = at_skRotated a\<rparr>]\<rparr>,
        snd st @ [ac_Name (at_def a) @ '' '' @ at_pub a])))))"

definition resolverConf :: string where
  "resolverConf =
     ''# AUTOGENERATED by vikasa-infra/cmd/issue '' @ [CHR 0xE2, CHR 0x80, CHR 0x94] @ '' operator-mode trust config.'' @ [newline] @
     ''# Paths are relative to this file'' @ [CHR 0x27] @ ''s directory.'' @ [newline] @
     ''operator: operator.jwt'' @ [newline] @
     ''resolver: {'' @ [newline] @ ''  type: full'' @ [newline] @ ''  dir: resolver'' @ [newline] @ ''}'' @ [newline]"

definition writeResolverBundle ::
    "nats_lib \<Rightarrow> IssueResult \<Rightarrow> acct list \<Rightarrow> string gomap \<Rightarrow> string \<Rightarrow> path \<Rightarrow> path \<Rightarrow> (issue_error, IssueResult) io" where
  "writeResolverBundle lib res accts pubByName operatorSK dir resolverDir =
     bindIO (wrapIO LoadRevocations (loadRevocations lib (auditLogPath dir retiredLogFile))) (\<lambda>revoked.
     bindIO (foldIO (write_account lib revoked pubByName operatorSK resolverDir) (res, []) accts) (\<lambda>(res, indexLines).
     bindIO (wrapIO WriteIndex (osIO (WriteFile (Join dir ''accounts.index'')
       (join [newline] (sort indexLines) @ [newline]) 0x1A4))) (\<lambda>_.
     bindIO (wrapIO WriteResolverConf (osIO (WriteFile (Join dir ''resolver.conf'') resolverConf 0x1A4))) (\<lambda>_.
     returnIO res))))"

subsection \<open>The run\<close>

definition secure_dir :: "path \<Rightarrow> (issue_error, unit) io" where
  "secure_dir d =
     bindIO (wrapIO (MkdirFailed d) (osIO (MkdirAll d 0x1C0))) (\<lambda>_. requireOwnerOnly d)"

definition bundle_dirs :: "path \<Rightarrow> path list" where
  "bundle_dirs dir = [dir, Join dir ''accounts'', Join dir ''resolver'', Join dir ''ca'', Join dir ''cabinets'']"

definition IssueWithRotation ::
    "nats_lib \<Rightarrow> Model option \<Rightarrow> Inventory option \<Rightarrow> Root \<Rightarrow> path \<Rightarrow> RotationSpec \<Rightarrow> (issue_error, IssueResult) io" where
  "IssueWithRotation lib model iv root dir spec =
     (case model of
        None \<Rightarrow> throwIO NilModel
      | Some model \<Rightarrow>
          if rs_Cabinets spec \<noteq> [] \<and> iv = None then throwIO RotationWithoutInventory
          else if list_ex (\<lambda>n. n \<notin> set (map ac_Name (m_Accounts model))) (rs_AccountSK spec) then throwIO UnknownAccountSK
          else
            bindIO (forIO secure_dir (bundle_dirs dir)) (\<lambda>_.
            bindIO (ensureOperator lib dir (m_DOT model) (rs_OperatorSK spec)) (\<lambda>(opPub, opMinted, skKP, skPub, skMinted).
            bindIO (ensureAccounts lib dir (Join dir ''accounts'') model (rs_AccountSK spec)) (\<lambda>(accts, pubByName).
            let res = \<lparr>ir_OperatorPub = opPub, ir_OperatorMinted = opMinted, ir_OperatorSigningPub = skPub,
                  ir_OperatorSigningMinted = skMinted, ir_OperatorSigningRotated = rs_OperatorSK spec, ir_Accounts = [],
                  ir_Cabinets = [], ir_CACreated = False, ir_Rotated = [], ir_Revoked = 0, ir_DMZConsumers = []\<rparr>;
                skByName = fold (\<lambda>a. AList.update (ac_Name (at_def a)) (at_skKP a)) accts [] in
            bindIO (case iv of
                None \<Rightarrow> returnIO res
              | Some cabs \<Rightarrow> mintCabinets lib res model cabs root dir (rs_Cabinets spec) skByName pubByName) (\<lambda>res.
            bindIO (case map_of skByName DMZAccountName of
                None \<Rightarrow> returnIO res
              | Some dmzSK \<Rightarrow> mintDMZConsumers lib res model dir dmzSK (gm_string pubByName DMZAccountName)) (\<lambda>res.
            writeResolverBundle lib res accts pubByName skKP dir (Join dir ''resolver'')))))))"

definition no_rotation :: RotationSpec where
  "no_rotation = \<lparr>rs_Cabinets = [], rs_OperatorSK = False, rs_AccountSK = []\<rparr>"

definition Issue ::
    "nats_lib \<Rightarrow> Model option \<Rightarrow> Inventory option \<Rightarrow> Root \<Rightarrow> path \<Rightarrow> (issue_error, IssueResult) io" where
  "Issue lib model iv root dir = IssueWithRotation lib model iv root dir no_rotation"

end
