(* ===== verification/Issue_Safety.thy ===== *)
theory Issue_Safety
  imports Issuance
begin

section \<open>What a run of the issuer may change\<close>

text \<open>
  Facts about every state a run of \<open>IssueWithRotation\<close> passes through, whatever fails on the way:
  key files that exist are kept, and a bundle directory that others can read stops the run before
  it writes a file. The files a run writes are told apart by the extension of their names.
\<close>

subsection \<open>The names of what a run writes\<close>

text \<open>A path whose last component ends in the given extension.\<close>

definition has_ext :: "string \<Rightarrow> path \<Rightarrow> bool" where
  "has_ext e p \<longleftrightarrow> p \<noteq> [] \<and> HasSuffix (last p) e"

definition proper_ext :: "string \<Rightarrow> bool" where
  "proper_ext e \<longleftrightarrow> CHR ''/'' \<notin> set e \<and> 3 \<le> length e"

lemma split_char_suffix: "c \<notin> set e \<Longrightarrow> \<exists>us t. split_char c (x @ e) = us @ [t @ e]"
proof (induction x)
  case Nil
  then show ?case by (simp add: split_char_no_sep)
next
  case (Cons a x)
  then obtain us t where IH: "split_char c (x @ e) = us @ [t @ e]" by blast
  show ?case
  proof (cases "a = c")
    case True
    with IH show ?thesis by (intro exI [of _ "[] # us"] exI [of _ t]) simp
  next
    case False
    show ?thesis
    proof (cases us)
      case Nil
      with IH False show ?thesis by (intro exI [of _ "[]"] exI [of _ "a # t"]) simp
    next
      case (Cons u us')
      with IH False show ?thesis by (intro exI [of _ "(a # u) # us'"] exI [of _ t]) simp
    qed
  qed
qed

lemma has_ext_Join: "proper_ext e \<Longrightarrow> has_ext e (Join dir (x @ e))"
proof -
  assume e: "proper_ext e"
  then obtain us t where ut: "split_char CHR ''/'' (x @ e) = us @ [t @ e]"
    using split_char_suffix [of "CHR ''/''" e x] by (auto simp: proper_ext_def)
  have "t @ e \<noteq> []" "t @ e \<noteq> ''.''" "t @ e \<noteq> ''..''"
    using e by (auto simp: proper_ext_def dest!: arg_cong [where f = length])
  moreover have "e \<noteq> []" using e by (auto simp: proper_ext_def)
  ultimately show ?thesis by (simp add: has_ext_def Join_def ut HasSuffix_iff)
qed

lemma has_ext_clash:
  assumes "has_ext e p" and "has_ext e' p" and "length e \<le> length e'" and "\<not> HasSuffix e' e"
  shows False
proof -
  obtain a where a: "last p = a @ e" using assms(1) by (auto simp: has_ext_def HasSuffix_iff)
  obtain b where b: "last p = b @ e'" using assms(2) by (auto simp: has_ext_def HasSuffix_iff)
  from a b have "a @ e = b @ e'" by simp
  with assms(3) have "\<exists>c. e' = c @ e"
    by (auto simp: append_eq_append_conv2)
  with assms(4) show False by (simp add: HasSuffix_iff)
qed


lemma proper_exts:
  "proper_ext ''.nkey''" "proper_ext ''.key''" "proper_ext ''.jwt''" "proper_ext ''.creds''" "proper_ext ''.crt''"
  "proper_ext ''.index''" "proper_ext ''.conf''" "proper_ext ''.jsonl''"
  by code_simp+

definition key_file :: "path \<Rightarrow> bool" where
  "key_file q \<longleftrightarrow> has_ext ''.nkey'' q \<or> has_ext ''.key'' q"

lemma key_file_not:
  assumes "key_file q" and "has_ext e p" and "e \<in> {''.jwt'', ''.creds'', ''.crt'', ''.index'', ''.conf'', ''.jsonl''}"
  shows "p \<noteq> q"
proof
  assume "p = q"
  then have q: "has_ext e q" using assms(2) by simp
  have no: "\<not> HasSuffix e ''.key''" "\<not> HasSuffix e ''.nkey''" "\<not> HasSuffix ''.key'' e" "\<not> HasSuffix ''.nkey'' e"
    using assms(3) by (auto simp: HasSuffix_def)
  from assms(1) show False unfolding key_file_def
  proof
    assume n: "has_ext ''.nkey'' q"
    show False
      using has_ext_clash [OF n q _ no(2)] has_ext_clash [OF q n _ no(4)] nat_le_linear by blast
  next
    assume k: "has_ext ''.key'' q"
    show False
      using has_ext_clash [OF k q _ no(1)] has_ext_clash [OF q k _ no(3)] nat_le_linear by blast
  qed
qed

lemma names_ext:
  "has_ext ''.jwt'' (Join dir ''operator.jwt'')" "has_ext ''.index'' (Join dir ''accounts.index'')"
  "has_ext ''.conf'' (Join dir ''resolver.conf'')"
  using has_ext_Join [OF proper_exts(3), of dir "''operator''"] has_ext_Join [OF proper_exts(6), of dir "''accounts''"]
    has_ext_Join [OF proper_exts(7), of dir "''resolver''"]
  by simp_all

lemma log_ext:
  "has_ext ''.jsonl'' (auditLogPath dir retiredLogFile)" "has_ext ''.jsonl'' (auditLogPath dir retiredOperatorSKLogFile)"
  "has_ext ''.jsonl'' (auditLogPath dir retiredAccountSKLogFile)"
  unfolding auditLogPath_def retiredLogFile_def retiredOperatorSKLogFile_def retiredAccountSKLogFile_def
  using has_ext_Join [OF proper_exts(8), of _ "''retired''"] has_ext_Join [OF proper_exts(8), of _ "''retired-operator-sk''"]
    has_ext_Join [OF proper_exts(8), of _ "''retired-account-sk''"]
  by simp_all

subsection \<open>Existing key files\<close>

text \<open>The steps, seen at a file that exists.\<close>

definition holds_at :: "path \<Rightarrow> mode \<Rightarrow> string \<Rightarrow> fs \<Rightarrow> bool" where
  "holds_at q m c s \<longleftrightarrow> lookup s q = Some (Reg m c)"

lemma at_frame: "ensures (\<lambda>_. True) (unchanged q) f (\<lambda>_ _. True) \<Longrightarrow> preserves (holds_at q m c) f"
  unfolding holds_at_def [abs_def] by (rule pr_frame)

lemma at_WriteFile: "p \<noteq> q \<Longrightarrow> preserves (holds_at q m c) (WriteFile p d n)"
  by (rule at_frame) (rule ens_post [OF frame_WriteFile], simp_all)

lemma at_MkdirAll [preserves]: "preserves (holds_at q m c) (MkdirAll p n)"
  by (rule pr_MkdirAll [where q = q]) (simp_all add: holds_at_def)

lemma at_append: "p \<noteq> q \<Longrightarrow> preserves (holds_at q m c) (appendJSONLine p v)"
  unfolding appendJSONLine_def
  by (intro preserves quiet at_frame [OF frame_OpenAppend] at_frame [OF frame_AppendIO])

lemma at_audit: "key_file q \<Longrightarrow> has_ext ''.jsonl'' (auditLogPath dir name) \<Longrightarrow>
    preserves (holds_at q m c) (appendAuditRecord dir name v)"
  unfolding appendAuditRecord_def by (rule at_append, erule key_file_not) (assumption, simp)

lemma at_read:
  assumes "holds_at q m c (w_fs w)" and "ReadFile q w = (Inl e, w')"
  shows "e = ErrIO"
  using assms by (auto simp: ReadFile_run holds_at_def op_read_def split: if_splits)

lemma at_read_or_mint:
  assumes "p \<noteq> q \<Longrightarrow> preserves (holds_at q m c) mint" and "\<And>data. preserves (holds_at q m c) (use data)"
  shows "preserves (holds_at q m c) (bindIO (tryIO (ReadFile p)) (\<lambda>r. case r of Inr data \<Rightarrow> use data
     | Inl err \<Rightarrow> if err \<noteq> ErrNotExist then throwIO (h err) else mint))"
proof (cases "p = q")
  case False
  with assms show ?thesis by (intro preserves)
next
  case True
  let ?I = "holds_at q m c"
  show ?thesis
    unfolding preserves_def True
  proof (rule kp.ens_bind)
    show "ensures ?I (keeps ?I) (tryIO (ReadFile q)) (\<lambda>r s. ?I s \<and> r \<noteq> Inl ErrNotExist)"
      unfolding ensures_def
      by (auto simp: tryIO_def ReadFile_run holds_at_def op_read_def kp.evolves_tick)
  next
    fix r
    show "ensures (\<lambda>s. ?I s \<and> r \<noteq> Inl ErrNotExist) (keeps ?I) (case r of Inr data \<Rightarrow> use data
        | Inl err \<Rightarrow> if err \<noteq> ErrNotExist then throwIO (h err) else mint) (\<lambda>_. ?I)"
    proof (cases r)
      case (Inl e)
      have "preserves ?I (throwIO (h e) :: ('a, 'b) io)" by (intro preserves)
      with Inl show ?thesis by (auto simp: ensures_def preserves_def)
    qed (use assms(2) in \<open>simp add: preserves_def ensures_def\<close>)
  qed
qed

lemma at_mint_key: "p \<noteq> q \<Longrightarrow> preserves (holds_at q m c) (mint_key lib p k)"
  unfolding mint_key_def by (intro preserves at_WriteFile)

lemma at_ensureKeypair:
  "(force \<Longrightarrow> p \<noteq> q) \<Longrightarrow> preserves (holds_at q m c) (ensureKeypair lib p k force)"
  unfolding ensureKeypair_def by (intro pr_cases(1) at_read_or_mint at_mint_key preserves) simp_all

lemma at_ensureLeafKey:
  "(force \<Longrightarrow> p \<noteq> q) \<Longrightarrow> preserves (holds_at q m c) (ensureLeafKey lib p force)"
  unfolding ensureLeafKey_def mint_leaf_key_def
  by (intro pr_cases(1) at_read_or_mint preserves pr_quiet [OF quiet_NewClientKey] at_WriteFile) simp_all

lemma LoadOrCreateCA_leaves:
  assumes "is_reg (w_fs w) crt \<or> is_reg (w_fs w) key" and "LoadOrCreateCA lib crt key w = (r, w')"
  shows "w_fs w' = w_fs w \<and> w_seen w' = w_seen w"
  using assms
  by (auto simp: LoadOrCreateCA_run Let_def throwIO_def bindIO_def liftIO_def returnIO_def op_read_def is_reg_def
      split: if_splits option.splits node.splits sum.splits)

lemma at_LoadOrCreateCA: "preserves (holds_at q m c) (LoadOrCreateCA lib crt key)"
proof (cases "q = crt \<or> q = key")
  case True
  show ?thesis unfolding preserves_def ensures_def
  proof (intro allI impI conjI)
    fix w :: world assume I: "holds_at q m c (w_fs w)"
    obtain r w' where run: "LoadOrCreateCA lib crt key w = (r, w')" by (cases "LoadOrCreateCA lib crt key w")
    have reg: "is_reg (w_fs w) crt \<or> is_reg (w_fs w) key"
      using I True by (auto simp: holds_at_def is_reg_def)
    have "w_fs w' = w_fs w \<and> w_seen w' = w_seen w"
      using LoadOrCreateCA_leaves [OF reg run] .
    with I run show "evolves (keeps (holds_at q m c)) w (snd (LoadOrCreateCA lib crt key w))"
      and "\<And>x. fst (LoadOrCreateCA lib crt key w) = Inr x \<Longrightarrow> holds_at q m c (w_fs (snd (LoadOrCreateCA lib crt key w)))"
      by (simp_all add: evolves_def keeps_def)
  qed
next
  case False
  then show ?thesis unfolding LoadOrCreateCA_def mint_ca_def
    by (intro preserves at_WriteFile pr_quiet [OF quiet_randSerial] pr_quiet [OF quiet_create_cert]) auto
qed


lemma at_requireOwnerOnly [preserves]: "preserves I (requireOwnerOnly d)"
  unfolding requireOwnerOnly_def by (intro preserves)

lemma at_public_key [preserves]: "preserves I (public_key lib kp)"
  unfolding public_key_def by (intro preserves)

lemma at_captureRetired [preserves]: "preserves I (captureRetired lib d i dist a now)"
  unfolding captureRetired_def read_old_def old_user_pub_def old_cert_serial_def by (intro preserves)

lemma at_captureOperatorSK: "key_file q \<Longrightarrow> preserves (holds_at q m c) (captureRetiredOperatorSK lib dir now)"
  unfolding captureRetiredOperatorSK_def by (intro preserves at_audit log_ext)

lemma at_captureAccountSK: "key_file q \<Longrightarrow> preserves (holds_at q m c) (captureRetiredAccountSK lib dir a pub now)"
  unfolding captureRetiredAccountSK_def by (intro preserves at_audit log_ext)

lemma at_ensureOperator:
  assumes "key_file q" and "rotateSK \<Longrightarrow> Join dir ''operator-sk.nkey'' \<noteq> q"
  shows "preserves (holds_at q m c) (ensureOperator lib dir dot rotateSK)"
proof -
  have "Join dir ''operator.jwt'' \<noteq> q" by (rule key_file_not [OF assms(1) names_ext(1)]) simp
  then show ?thesis unfolding ensureOperator_def
    by (intro preserves at_ensureKeypair at_captureOperatorSK at_WriteFile assms) simp_all
qed

lemma at_ensureAccounts:
  assumes "key_file q" and "\<And>n. n \<in> set rots \<Longrightarrow> Join accountsDir (n @ ''-sk.nkey'') \<noteq> q"
  shows "preserves (holds_at q m c) (ensureAccounts lib dir accountsDir model rots)"
  unfolding ensureAccounts_def ensure_account_def
  by (intro preserves at_ensureKeypair at_captureAccountSK assms) simp_all

lemma at_mintCabinet:
  assumes "key_file q" and "\<And>d i. preserves (holds_at q m c) (sign d i)"
    and "rotating \<Longrightarrow> Join distDir (cab_ID cab @ ''.nkey'') \<noteq> q"
    and "rotating \<Longrightarrow> Join distDir (cab_ID cab @ ''.key'') \<noteq> q"
  shows "preserves (holds_at q m c) (mintCabinet lib cab distDir pub sk sign rotating)"
proof -
  have "Join distDir (cab_ID cab @ ''.creds'') \<noteq> q" "Join distDir (cab_ID cab @ ''.crt'') \<noteq> q"
    using key_file_not [OF assms(1) has_ext_Join [OF proper_exts(4)]] key_file_not [OF assms(1) has_ext_Join [OF proper_exts(5)]]
    by blast+
  then show ?thesis unfolding mintCabinet_def
    by (intro preserves at_ensureKeypair at_ensureLeafKey at_WriteFile pr_quiet [OF quiet_ClientCSR] assms)
qed

lemma at_mintCabinets:
  assumes "key_file q" and "\<And>i d. i \<in> set rots \<Longrightarrow> Join (Join (Join dir ''cabinets'') d) (i @ ''.nkey'') \<noteq> q"
    and "\<And>i d. i \<in> set rots \<Longrightarrow> Join (Join (Join dir ''cabinets'') d) (i @ ''.key'') \<noteq> q"
  shows "preserves (holds_at q m c) (mintCabinets lib res model iv root dir rots sks pubs)"
  unfolding mintCabinets_def mint_one_cabinet_def retire_cabinet_def
  by (intro preserves at_LoadOrCreateCA at_mintCabinet at_audit log_ext pr_quiet [OF quiet_SignClientCert] assms(1)) (simp_all add: assms)

lemma at_mintDMZConsumers:
  assumes "key_file q"
  shows "preserves (holds_at q m c) (mintDMZConsumers lib res model dir sk pub)"
proof -
  have creds: "Join d (n @ ''.creds'') \<noteq> q" for d n
    using key_file_not [OF assms has_ext_Join [OF proper_exts(4)]] by blast
  show ?thesis unfolding mintDMZConsumers_def mint_one_consumer_def mintDMZConsumer_def
    by (intro preserves at_ensureKeypair at_WriteFile creds) simp_all
qed

lemma at_writeResolverBundle:
  assumes "key_file q"
  shows "preserves (holds_at q m c) (writeResolverBundle lib res accts pubs sk dir resolverDir)"
proof -
  have other: "Join d (n @ ''.jwt'') \<noteq> q" "Join dir ''accounts.index'' \<noteq> q" "Join dir ''resolver.conf'' \<noteq> q" for d n
    using key_file_not [OF assms has_ext_Join [OF proper_exts(3)]] key_file_not [OF assms names_ext(2)]
      key_file_not [OF assms names_ext(3)] by blast+
  show ?thesis unfolding writeResolverBundle_def write_account_def loadRevocations_def
    by (intro preserves at_WriteFile other)
qed

definition rotated_key :: "path \<Rightarrow> RotationSpec \<Rightarrow> path \<Rightarrow> bool" where
  "rotated_key dir spec q \<longleftrightarrow>
     rs_OperatorSK spec \<and> q = Join dir ''operator-sk.nkey'' \<or>
     (\<exists>n\<in>set (rs_AccountSK spec). q = Join (Join dir ''accounts'') (n @ ''-sk.nkey'')) \<or>
     (\<exists>i\<in>set (rs_Cabinets spec). \<exists>d. q = Join (Join (Join dir ''cabinets'') d) (i @ ''.nkey'') \<or>
        q = Join (Join (Join dir ''cabinets'') d) (i @ ''.key''))"

lemma at_IssueWithRotation:
  assumes "key_file q" and "\<not> rotated_key dir spec q"
  shows "preserves (holds_at q m c) (IssueWithRotation lib model iv root dir spec)"
proof -
  have "rs_OperatorSK spec \<Longrightarrow> Join dir ''operator-sk.nkey'' \<noteq> q"
    and "\<And>n. n \<in> set (rs_AccountSK spec) \<Longrightarrow> Join (Join dir ''accounts'') (n @ ''-sk.nkey'') \<noteq> q"
    and "\<And>i d. i \<in> set (rs_Cabinets spec) \<Longrightarrow> Join (Join (Join dir ''cabinets'') d) (i @ ''.nkey'') \<noteq> q"
    and "\<And>i d. i \<in> set (rs_Cabinets spec) \<Longrightarrow> Join (Join (Join dir ''cabinets'') d) (i @ ''.key'') \<noteq> q"
    using assms(2) by (auto simp: rotated_key_def)
  then show ?thesis unfolding IssueWithRotation_def secure_dir_def
    by (intro preserves at_ensureOperator at_ensureAccounts at_mintCabinets at_mintDMZConsumers at_writeResolverBundle assms(1)) auto
qed

text \<open>
  C3. Keys are minted once: a run never changes or removes a key file that exists, in any state it
  passes through and whatever fails, unless the rotation names it.
\<close>

theorem IssueWithRotation_mint_once:
  assumes "key_file q" and "\<not> rotated_key dir spec q" and "lookup (w_fs w) q = Some (Reg m c)" and "w_seen w = []"
    and "IssueWithRotation lib model iv root dir spec w = (r, w')"
  shows "lookup (w_fs w') q = Some (Reg m c) \<and> (\<forall>s\<in>set (w_seen w'). lookup s q = Some (Reg m c))"
  using pr_seen [OF at_IssueWithRotation [OF assms(1,2)] _ assms(4,5), of m c] assms(3) by (simp add: holds_at_def)


definition ex_issue_model :: Model where
  "ex_issue_model = \<lparr>m_DOT = ''exdot'', m_Accounts =
     [\<lparr>ac_Name = ''CENTRAL'', ac_JetStream = True, ac_Exports = [''vikasa.exdot.share.a.>''], ac_Imports = [], ac_Users = []\<rparr>,
      \<lparr>ac_Name = ''DMZ'', ac_JetStream = True, ac_Exports = [],
        ac_Imports = [\<lparr>im_FromAccount = ''CENTRAL'', im_Subject = ''vikasa.exdot.share.a.>''\<rparr>],
        ac_Users = [\<lparr>u_Label = ''research'', u_Publish = [], u_Subscribe = [''vikasa.exdot.share.a.>''], u_PublishDeny = [''>''],
          u_SubscribeDeny = []\<rparr>]\<rparr>]\<rparr>"

definition ex_issue_world :: world where
  "ex_issue_world = ex_ca_world [([''b'', ''operator.nkey''], Reg 0x180 ''Oold''), ([''b''], Dir 0x1C0)]"

lemma ex_issue_runs:
  "\<not> isl (fst (IssueWithRotation ex_nats (Some ex_issue_model) None None [''b''] no_rotation ex_issue_world))"
  by code_simp

lemma IssueWithRotation_mint_once_witness:
  "let (r, w') = IssueWithRotation ex_nats (Some ex_issue_model) None None [''b''] no_rotation ex_issue_world in
   \<not> isl r \<and> lookup (w_fs w') [''b'', ''operator.nkey''] = Some (Reg 0x180 ''Oold'')"
proof -
  have "key_file [''b'', ''operator.nkey'']" "\<not> rotated_key [''b''] no_rotation [''b'', ''operator.nkey'']"
    "lookup (w_fs ex_issue_world) [''b'', ''operator.nkey''] = Some (Reg 0x180 ''Oold'')" "w_seen ex_issue_world = []"
    by (simp_all add: key_file_def has_ext_def HasSuffix_def rotated_key_def no_rotation_def ex_issue_world_def ex_ca_world_def lookup_def)
  moreover obtain r w' where run: "IssueWithRotation ex_nats (Some ex_issue_model) None None [''b''] no_rotation ex_issue_world = (r, w')"
    by (cases "IssueWithRotation ex_nats (Some ex_issue_model) None None [''b''] no_rotation ex_issue_world")
  ultimately have "lookup (w_fs w') [''b'', ''operator.nkey''] = Some (Reg 0x180 ''Oold'')"
    using IssueWithRotation_mint_once by blast
  then show ?thesis using ex_issue_runs run by (simp add: Let_def)
qed

subsection \<open>Directories open to others\<close>

text \<open>No file was created or changed since the tree \<open>s0\<close>, and a directory is as it was.\<close>

definition files_from :: "fs \<Rightarrow> path \<Rightarrow> mode \<Rightarrow> fs \<Rightarrow> bool" where
  "files_from s0 d perm s \<longleftrightarrow>
     lookup s d = Some (Dir perm) \<and> (\<forall>q m c. lookup s q = Some (Reg m c) \<longrightarrow> lookup s0 q = Some (Reg m c))"

lemma files_from_MkdirAll [preserves]: "preserves (files_from s0 d perm) (MkdirAll p m)"
  by (rule pr_MkdirAll_step) (auto simp: files_from_def dest!: op_create_lookup split: if_splits)

lemma files_from_secure [preserves]: "preserves (files_from s0 d perm) (secure_dir e)"
  unfolding secure_dir_def by (intro preserves)

lemma requireOwnerOnly_fails:
  assumes "perm AND 0x3F \<noteq> 0"
  shows "ensures (files_from s0 d perm) (keeps (files_from s0 d perm)) (requireOwnerOnly d) (\<lambda>_ _. False)"
proof -
  let ?I = "files_from s0 d perm"
  have stat: "ensures ?I (keeps ?I) (wrapIO (StatFailed d) (osIO (Stat d))) (\<lambda>p s. ?I s \<and> p = perm)"
    unfolding Stat_def
    by (intro ensures_wrap ens_osIO kp.ens_query) (simp add: op_stat_def files_from_def)
  have "ensures (\<lambda>s. ?I s \<and> p = perm) (keeps ?I)
      (if p AND 0x3F \<noteq> 0 then throwIO (NotOwnerOnly d p) else returnIO ()) (\<lambda>_ _. False)" for p
    using assms by (auto simp: ensures_def throwIO_def kp.evolves_refl)
  then show ?thesis unfolding requireOwnerOnly_def by (rule kp.ens_bind [OF stat])
qed

lemma secure_dirs_fail:
  assumes "perm AND 0x3F \<noteq> 0" and "d \<in> set ds"
  shows "ensures (files_from s0 d perm) (keeps (files_from s0 d perm)) (forIO secure_dir ds) (\<lambda>_ _. False)"
  using assms(2)
proof (induction ds)
  case (Cons e ds)
  let ?I = "files_from s0 d perm"
  show ?case
  proof (cases "e = d")
    case True
    have "preserves ?I (wrapIO (MkdirFailed d) (osIO (MkdirAll d 0x1C0)))" by (intro preserves)
    then have "ensures ?I (keeps ?I) (secure_dir d) (\<lambda>_ _. False)"
      unfolding secure_dir_def preserves_def by (rule kp.ens_bind) (rule requireOwnerOnly_fails [OF assms(1)])
    then show ?thesis using True by (auto intro: kp.ens_stop)
  next
    case False
    with Cons have "ensures ?I (keeps ?I) (forIO secure_dir ds) (\<lambda>_ _. False)" by simp
    then show ?thesis by (simp add: kp.ens_bind [OF files_from_secure [unfolded preserves_def]])
  qed
qed simp

text \<open>
  C10. A bundle directory that exists with any permission for group or others stops the run: it
  returns an error, and in no state it passes through has a file been created or changed.
\<close>

theorem IssueWithRotation_fails_closed:
  assumes "d \<in> set (bundle_dirs dir)" and "lookup (w_fs w) d = Some (Dir perm)" and "perm AND 0x3F \<noteq> 0"
    and "w_seen w = []" and "IssueWithRotation lib model iv root dir spec w = (r, w')"
  shows "isl r \<and> (\<forall>s\<in>set (w_fs w' # w_seen w'). \<forall>q m c. lookup s q = Some (Reg m c) \<longrightarrow> lookup (w_fs w) q = Some (Reg m c))"
proof -
  let ?I = "files_from (w_fs w) d perm"
  have run: "ensures ?I (keeps ?I) (IssueWithRotation lib model iv root dir spec) (\<lambda>_ _. False)"
  proof -
    have fails: "ensures ?I (keeps ?I) (throwIO e :: (issue_error, IssueResult) io) (\<lambda>_ _. False)" for e
      by (auto simp: ensures_def throwIO_def kp.evolves_refl)
    have "ensures ?I (keeps ?I) (bindIO (forIO secure_dir (bundle_dirs dir)) g) (\<lambda>_ _. False)"
      for g :: "unit \<Rightarrow> (issue_error, IssueResult) io"
      by (rule kp.ens_stop [OF secure_dirs_fail [OF assms(3,1)]])
    with fails show ?thesis unfolding IssueWithRotation_def by (simp split: option.split)
  qed
  have start: "?I (w_fs w)" using assms(2) by (simp add: files_from_def)
  have "?I (w_fs w') \<and> (\<forall>s\<in>set (w_seen w'). ?I s)"
    by (rule keeps_seen [OF run start start assms(4,5)])
  moreover have "isl r"
    using ensuresD(2) [OF run start assms(5)] by (cases r) auto
  ultimately show ?thesis by (simp add: files_from_def)
qed

lemma IssueWithRotation_fails_closed_witness:
  "let w = ex_ca_world [([''b'', ''ca''], Dir 0x1ED), ([''b''], Dir 0x1C0), ([''b'', ''x''], Reg 0x1A4 ''X'')];
       (r, w') = IssueWithRotation ex_nats (Some ex_issue_model) None None [''b''] no_rotation w in
   isl r \<and> (lookup (w_fs w') [''b'', ''operator.nkey''] = Some (Reg 0x180 ''Ok'')) = False"
proof -
  let ?w = "ex_ca_world [([''b'', ''ca''], Dir 0x1ED), ([''b''], Dir 0x1C0), ([''b'', ''x''], Reg 0x1A4 ''X'')]"
  obtain r w' where run: "IssueWithRotation ex_nats (Some ex_issue_model) None None [''b''] no_rotation ?w = (r, w')"
    by (cases "IssueWithRotation ex_nats (Some ex_issue_model) None None [''b''] no_rotation ?w")
  have d: "[''b'', ''ca''] \<in> set (bundle_dirs [''b''])" "(0x1ED :: mode) AND 0x3F \<noteq> 0" by code_simp+
  have w: "lookup (w_fs ?w) [''b'', ''ca''] = Some (Dir 0x1ED)" "w_seen ?w = []"
      "lookup (w_fs ?w) [''b'', ''operator.nkey''] = None"
    by (simp_all add: ex_ca_world_def lookup_def)
  note res = IssueWithRotation_fails_closed [OF d(1) w(1) d(2) w(2) run]
  have "lookup (w_fs w') [''b'', ''operator.nkey''] \<noteq> Some (Reg 0x180 ''Ok'')"
    using conjunct2 [OF res] w(3) by auto
  with conjunct1 [OF res] show ?thesis by (simp add: run)
qed

end
