(* ===== verification/Issue_Scope.thy ===== *)
theory Issue_Scope
  imports Issue_Safety
begin

section \<open>The scope of the issued credentials\<close>

text \<open>
  What the credentials of external consumers grant, from the account model that package accounts
  builds to the claims that the issuer signs.
\<close>


subsection \<open>The grants of external consumers\<close>

definition good_sets :: "unit gomap gomap \<Rightarrow> bool" where
  "good_sets m \<longleftrightarrow> distinct (map fst m) \<and> (\<forall>p\<in>set m. distinct (map fst (snd p)))"

definition values_of :: "unit gomap gomap \<Rightarrow> string \<Rightarrow> string set" where
  "values_of m n = (case map_of m n of None \<Rightarrow> {} | Some vs \<Rightarrow> fst ` set vs)"

definition label_values :: "(UserTemplate \<Rightarrow> string list) \<Rightarrow> UserTemplate list \<Rightarrow> string \<Rightarrow> string set" where
  "label_values f us n = (\<Union>u\<in>{u \<in> set us. u_Label u = n}. set (f u))"

lemma good_sets_inner: "good_sets m \<Longrightarrow> distinct (map fst (case map_of m l of None \<Rightarrow> [] | Some vs \<Rightarrow> vs))"
  by (auto simp: good_sets_def split: option.split dest!: map_of_SomeD)

lemma add_values:
  assumes "good_sets m"
  shows "good_sets (add_values m l vs)"
    and "values_of (add_values m l vs) n = values_of m n \<union> (if n = l then set vs else {})"
    and "fst ` set (add_values m l vs) = insert l (fst ` set m)"
proof -
  let ?old = "case map_of m l of None \<Rightarrow> [] | Some vs \<Rightarrow> vs"
  let ?new = "fold (\<lambda>v. AList.update v ()) vs ?old"
  have new: "distinct (map fst ?new)" "fst ` set ?new = fst ` set ?old \<union> set vs"
    using gm.ok_fold_put [of ?old "\<lambda>v. v" "\<lambda>_. ()" vs] gm.keys_fold_put [of ?old "\<lambda>v. v" "\<lambda>_. ()" vs]
      good_sets_inner [OF assms, of l] by simp_all
  have keys: "distinct (map fst (AList.update l ?new m))"
    using assms by (simp add: good_sets_def distinct_update)
  have mem: "p \<in> set (AList.update k v xs) \<Longrightarrow> p = (k, v) \<or> p \<in> set xs"
    for p k and v :: "unit gomap" and xs :: "unit gomap gomap"
    by (induction xs) (auto split: if_splits)
  show "good_sets (add_values m l vs)"
    unfolding good_sets_def add_values_def
  proof (intro conjI ballI keys)
    fix p assume "p \<in> set (AList.update l ?new m)"
    from mem [OF this] show "distinct (map fst (snd p))"
      using new(1) assms by (auto simp: good_sets_def)
  qed
  show "values_of (add_values m l vs) n = values_of m n \<union> (if n = l then set vs else {})"
    using new(2) by (auto simp: values_of_def add_values_def update_conv' split: option.split)
  show "fst ` set (add_values m l vs) = insert l (fst ` set m)"
    by (auto simp: add_values_def dom_update [symmetric] dom_map_of_conv_image_fst [symmetric] update_conv')
qed

lemma add_values_loop:
  fixes f :: "UserTemplate \<Rightarrow> string list"
  assumes "good_sets m"
  defines "F \<equiv> foldl (\<lambda>m u. add_values m (u_Label u) (f u))"
  shows "good_sets (F m us) \<and> values_of (F m us) n = values_of m n \<union> label_values f us n \<and>
    fst ` set (F m us) = fst ` set m \<union> u_Label ` set us"
  using assms(1)
proof (induction us arbitrary: m)
  case Nil
  then show ?case by (simp add: F_def label_values_def)
next
  case (Cons u us)
  note step = add_values [OF Cons.prems, of "u_Label u" "f u"]
  have "label_values f (u # us) n = (if n = u_Label u then set (f u) else {}) \<union> label_values f us n"
    by (auto simp: label_values_def)
  with Cons.IH [OF step(1)] step(2) [of n] step(3) show ?case
    by (auto simp: F_def)
qed

lemma foldl_pair:
  "foldl (\<lambda>(a, b) x. (g a x, h b x)) (a, b) xs = (foldl g a xs, foldl h b xs)"
  by (induction xs arbitrary: a b) simp_all

lemma sorted_keys_set: "distinct (map fst m) \<Longrightarrow> sort (map fst m) = sorted_list_of_set (fst ` set m)"
proof -
  assume "distinct (map fst m)"
  then have "sorted_list_of_set (set (map fst m)) = sort (map fst m)"
    by (simp add: sorted_list_of_set_sort_remdups distinct_remdups_id del: set_map)
  then show ?thesis by simp
qed

lemma sorted_set_values:
  "good_sets m \<Longrightarrow> (case map_of m n of None \<Rightarrow> [] | Some vs \<Rightarrow> sortedKeys vs) = sorted_list_of_set (values_of m n)"
  using good_sets_inner [of m n]
  by (cases "map_of m n") (simp_all add: values_of_def sortedKeys_def sorted_keys_set)

definition consumer_of :: "UserTemplate list \<Rightarrow> string \<Rightarrow> dmzConsumer" where
  "consumer_of us n =
     \<lparr>dc_Name = n, dc_SubAllow = sorted_list_of_set (label_values u_Subscribe us n),
      dc_PubDeny = sorted_list_of_set (label_values u_PublishDeny us n)\<rparr>"

lemma aggregate_eq:
  "aggregateDMZConsumers m =
     (case List.find (\<lambda>a. ac_Name a = DMZAccountName) (m_Accounts m) of
        None \<Rightarrow> []
      | Some dmz \<Rightarrow> map (consumer_of (ac_Users dmz)) (sorted_list_of_set (u_Label ` set (ac_Users dmz))))"
proof (cases "List.find (\<lambda>a. ac_Name a = DMZAccountName) (m_Accounts m)")
  case (Some dmz)
  let ?us = "ac_Users dmz"
  let ?F = "\<lambda>f. foldl (\<lambda>m u. add_values m (u_Label u) (f u)) [] ?us"
  have loop: "good_sets (?F f)" "values_of (?F f) n = label_values f ?us n" "fst ` set (?F f) = u_Label ` set ?us" for f n
    using add_values_loop [of "[]" f ?us n] by (simp_all add: good_sets_def values_of_def)
  have keys: "sorted_list_of_set (u_Label ` set ?us) = sort (map fst (?F u_Subscribe))"
    using loop(1,3) [of u_Subscribe] sorted_keys_set [of "?F u_Subscribe"] by (simp add: good_sets_def)
  have "sort_key dc_Name (map (consumer_of ?us) (map fst (?F u_Subscribe))) =
      map (consumer_of ?us) (sort (map fst (?F u_Subscribe)))"
  proof (rule sk.srt_unique)
    have "map dc_Name (map (consumer_of ?us) xs) = xs" for xs
      by (induction xs) (simp_all add: consumer_of_def)
    then show "distinct (map dc_Name (map (consumer_of ?us) (map fst (?F u_Subscribe))))"
      and "sorted (map dc_Name (map (consumer_of ?us) (sort (map fst (?F u_Subscribe)))))"
      using loop(1) [of u_Subscribe] by (simp_all only: sorted_sort good_sets_def)
    show "mset (map (consumer_of ?us) (map fst (?F u_Subscribe))) = mset (map (consumer_of ?us) (sort (map fst (?F u_Subscribe))))"
      unfolding mset_map mset_sort ..
  qed
  then show ?thesis
    by (simp add: aggregateDMZConsumers_def Some foldl_pair keys consumer_of_def sorted_set_values loop Let_def comp_def)
      (simp add: case_prod_unfold)
qed (simp add: aggregateDMZConsumers_def)


text \<open>
  C28. From the account model to the credentials: a consumer is aggregated exactly when a complete share
  names it, it may subscribe to exactly the subjects of its shares, and it is denied every
  publication, so that no credential is refused for an empty deny list.
\<close>

theorem aggregateDMZConsumers_after_Build:
  assumes "BuildAccounts (Some t) = Inr m"
  shows "aggregateDMZConsumers m =
    (case t_DMZ t of
       None \<Rightarrow> []
     | Some z \<Rightarrow>
         map (\<lambda>n. \<lparr>dc_Name = n,
             dc_SubAllow = sorted_list_of_set {a. \<exists>f. (f, a, n) \<in> set (complete_shares (dmz_Shares z))},
             dc_PubDeny = [''>'']\<rparr>)
           (sorted_list_of_set {n. \<exists>f a. (f, a, n) \<in> set (complete_shares (dmz_Shares z))}))"
proof -
  from assms obtain dot where "m_Accounts m = sort_key ac_Name (account_list dot t)"
    by (auto simp: BuildAccounts_iff)
  then have m: "set (m_Accounts m) = set (account_list dot t)" by simp
  have member: "a \<in> set (dmz_accounts (t_DMZ t))" if "a \<in> set (m_Accounts m)" "ac_Name a = DMZAccountName" for a
    using that m by (auto elim!: account_cases)
  show ?thesis
  proof (cases "t_DMZ t")
    case None
    with member have "List.find (\<lambda>a. ac_Name a = DMZAccountName) (m_Accounts m) = None"
      by (auto simp: find_None_iff dmz_accounts_def)
    with None show ?thesis by (simp add: aggregate_eq)
  next
    case (Some z)
    let ?cs = "complete_shares (dmz_Shares z)"
    have "\<exists>a\<in>set (m_Accounts m). ac_Name a = DMZAccountName"
      using Some m by (auto simp: account_list_def dmz_accounts_def)
    then obtain dmz where dmz: "List.find (\<lambda>a. ac_Name a = DMZAccountName) (m_Accounts m) = Some dmz"
      by (cases "List.find (\<lambda>a. ac_Name a = DMZAccountName) (m_Accounts m)") (auto simp: find_None_iff)
    then have "dmz \<in> set (m_Accounts m)" "ac_Name dmz = DMZAccountName"
      by (auto simp: find_Some_iff)
    then have "dmz \<in> set (dmz_accounts (t_DMZ t))" by (rule member)
    then have users: "set (ac_Users dmz) = (\<lambda>(f, a, c). consumer_user c a) ` set ?cs"
      by (simp add: dmz_accounts_def Some)
    have labels: "u_Label ` set (ac_Users dmz) = {n. \<exists>f a. (f, a, n) \<in> set ?cs}"
      unfolding users by (force simp: consumer_user_def)
    have "consumer_of (ac_Users dmz) n =
        \<lparr>dc_Name = n, dc_SubAllow = sorted_list_of_set {a. \<exists>f. (f, a, n) \<in> set ?cs}, dc_PubDeny = [''>'']\<rparr>"
      if "n \<in> u_Label ` set (ac_Users dmz)" for n
    proof -
      have "label_values u_Subscribe (ac_Users dmz) n = {a. \<exists>f. (f, a, n) \<in> set ?cs}"
        unfolding label_values_def users by (force simp: consumer_user_def)
      moreover have "label_values u_PublishDeny (ac_Users dmz) n = {''>''}"
        using that unfolding label_values_def users by (force simp: consumer_user_def)
      ultimately show ?thesis by (simp add: consumer_of_def)
    qed
    then have "map (consumer_of (ac_Users dmz)) (sorted_list_of_set (u_Label ` set (ac_Users dmz))) =
        map (\<lambda>n. \<lparr>dc_Name = n, dc_SubAllow = sorted_list_of_set {a. \<exists>f. (f, a, n) \<in> set ?cs}, dc_PubDeny = [''>'']\<rparr>)
          (sorted_list_of_set (u_Label ` set (ac_Users dmz)))"
      by (intro map_cong refl) simp
    then show ?thesis by (simp add: aggregate_eq dmz Some labels)
  qed
qed

lemma aggregateDMZConsumers_after_Build_witness:
  "aggregateDMZConsumers ex_model =
     [\<lparr>dc_Name = ''acme'', dc_SubAllow = [''vikasa.exdot.share.acme.>''], dc_PubDeny = [''>'']\<rparr>,
      \<lparr>dc_Name = ''bolt'', dc_SubAllow = [''vikasa.peer.exdot.i90.>''], dc_PubDeny = [''>'']\<rparr>]"
proof -
  define zz where "zz = the (t_DMZ ex_topology)"
  have z: "t_DMZ ex_topology = Some zz" by (simp add: zz_def ex_topology_def)
  have cs: "complete_shares (dmz_Shares zz) = [(''vikasa.exdot.d7.speed.>'', ''vikasa.exdot.share.acme.>'', ''acme''), (''vikasa.exdot.d7.>'', ''vikasa.peer.exdot.i90.>'', ''bolt'')]" unfolding zz_def by code_simp
  have sets: "{a. \<exists>f. (f, a, n) \<in> set [(f1, a1, n1), (f2, a2, n2)]} = (if n = n1 then {a1} else {}) \<union> (if n = n2 then {a2} else {})"
      "{n. \<exists>f a. (f, a, n) \<in> set [(f1, a1, n1), (f2, a2, n2)]} = {n1, n2}" for n f1 a1 n1 f2 a2 n2 :: string
    by auto
  show ?thesis using aggregateDMZConsumers_after_Build [OF ex_model, unfolded z option.case cs sets] by simp
qed

end
