(* ===== verification/Issue_Rotation.thy ===== *)
theory Issue_Rotation
  imports Issue_Safety
begin

section \<open>Rotated credentials are revoked first\<close>

text \<open>
  A run that rotates a cabinet appends the public key of the old credential to the log of retired
  credentials before it overwrites the credential. The theorem holds in every state the run passes
  through, so a run that stops anywhere never loses a key that was in use.
\<close>


subsection \<open>Names\<close>

definition issue_exts :: "string list" where
  "issue_exts = [''.nkey'', ''.key'', ''.jwt'', ''.creds'', ''.crt'', ''.index'', ''.conf'', ''.jsonl'']"

lemma ext_neq:
  assumes "has_ext e p" and "has_ext e' q" and "e \<in> set issue_exts" and "e' \<in> set issue_exts" and "e \<noteq> e'"
  shows "p \<noteq> q"
proof
  assume pq: "p = q"
  have "list_all (\<lambda>a. list_all (\<lambda>b. a = b \<or> \<not> HasSuffix a b) issue_exts) issue_exts" by code_simp
  then have "\<not> HasSuffix e e'" "\<not> HasSuffix e' e"
    using assms(3-5) by (auto simp: list_all_iff)
  then show False
    using has_ext_clash [of e q e'] has_ext_clash [of e' q e] assms(1,2) pq by (cases "length e \<le> length e'") auto
qed

lemma Join_slash_free: "CHR ''/'' \<notin> set x \<Longrightarrow> proper_ext e \<Longrightarrow> Join d (x @ e) = d @ [x @ e]"
proof -
  assume x: "CHR ''/'' \<notin> set x" "proper_ext e"
  then have "split_char CHR ''/'' (x @ e) = [x @ e]"
    by (intro split_char_no_sep) (auto simp: proper_ext_def)
  moreover have "x @ e \<noteq> []" "x @ e \<noteq> ''.''" "x @ e \<noteq> ''..''"
    using x(2) by (auto simp: proper_ext_def dest!: arg_cong [where f = length])
  ultimately show ?thesis by (auto simp: Join_def)
qed

subsection \<open>What the log says\<close>

definition log_path :: "path \<Rightarrow> path" where
  "log_path dir = auditLogPath dir retiredLogFile"

text \<open>The public keys the log revokes for an account.\<close>

definition logged :: "nats_lib \<Rightarrow> path \<Rightarrow> string \<Rightarrow> fs \<Rightarrow> string set" where
  "logged lib dir acct s = re_Pub ` set (revoked_for lib (content s (log_path dir)) acct)"

definition whole_log :: "path \<Rightarrow> fs \<Rightarrow> bool" where
  "whole_log dir s \<longleftrightarrow> whole_lines (content s (log_path dir))"

lemma log_path_eq: "log_path dir = dir @ [''revocations'', ''retired.jsonl'']"
  by (simp add: log_path_def retired_log_path)

text \<open>
  The guarantee of a rotation, for the credential file \<open>q\<close> with the public key \<open>pub\<close> of the account
  \<open>acct\<close>: what the log says it keeps saying, and the file is as before or its key is in the log.
\<close>

definition retires :: "nats_lib \<Rightarrow> path \<Rightarrow> path \<Rightarrow> string \<Rightarrow> string \<Rightarrow> fs \<Rightarrow> fs \<Rightarrow> bool" where
  "retires lib dir q acct pub s t \<longleftrightarrow>
     (\<forall>a. logged lib dir a s \<subseteq> logged lib dir a t) \<and> (lookup t q = lookup s q \<or> pub \<in> logged lib dir acct t)"

interpretation rt: guarantee "retires lib dir q acct pub" for lib dir q acct pub
proof
  show "retires lib dir q acct pub s u" if "retires lib dir q acct pub s t" "retires lib dir q acct pub t u" for s t u
    using that unfolding retires_def by (metis subsetD subset_trans)
qed (simp add: retires_def)

lemma rt_guarantee [steps]: "guarantee (retires lib dir q acct pub)"
  by (rule rt.guarantee_axioms)

text \<open>The condition between two steps, before and after the key was logged.\<close>

definition due :: "bool \<Rightarrow> nats_lib \<Rightarrow> path \<Rightarrow> path \<Rightarrow> node \<Rightarrow> string \<Rightarrow> string \<Rightarrow> fs \<Rightarrow> bool" where
  "due b lib dir q n acct pub s \<longleftrightarrow>
     whole_log dir s \<and> is_reg s q \<and> (if b then pub \<in> logged lib dir acct s else lookup s q = Some n)"

lemma due_same:
  assumes "due b lib dir q n acct pub s" and "content s' (log_path dir) = content s (log_path dir)" and "lookup s' q = lookup s q"
  shows "retires lib dir q acct pub s s' \<and> due b lib dir q n acct pub s'"
  using assms by (auto simp: due_def retires_def logged_def whole_log_def is_reg_def)

lemma due_written:
  assumes "due True lib dir q n acct pub s" and "content s' (log_path dir) = content s (log_path dir)" and "is_reg s' q"
  shows "retires lib dir q acct pub s s' \<and> due True lib dir q n acct pub s'"
  using assms by (auto simp: due_def retires_def logged_def whole_log_def)

lemma due_WriteFile:
  assumes "p = q \<Longrightarrow> b" and "p \<noteq> log_path dir"
  shows "steps (due b lib dir q n acct pub) (retires lib dir q acct pub) (WriteFile p d m)"
proof (rule st_WriteFile [OF rt.guarantee_axioms])
  fix s s' assume s: "due b lib dir q n acct pub s" "\<And>r. r \<noteq> p \<Longrightarrow> lookup s' r = lookup s r" "is_reg s' p"
  have log: "content s' (log_path dir) = content s (log_path dir)"
    using s(2) [of "log_path dir"] assms(2) by (simp add: content_def)
  show "retires lib dir q acct pub s s' \<and> due b lib dir q n acct pub s'"
  proof (cases "p = q")
    case True
    with assms(1) s log due_written show ?thesis by (metis (full_types))
  next
    case False
    with s log show ?thesis by (intro due_same) auto
  qed
qed

lemma due_MkdirAll [steps]: "steps (due b lib dir q n acct pub) (retires lib dir q acct pub) (MkdirAll p m)"
proof (rule st_MkdirAll [OF rt.guarantee_axioms])
  fix p m s s' assume s: "due b lib dir q n acct pub s" "op_create p (Dir m) s = Inr s'"
  then have p: "lookup s p = None" "\<And>r. lookup s' r = (if r = p then Some (Dir m) else lookup s r)"
    by (auto dest!: op_create_lookup)
  then have "content s' (log_path dir) = content s (log_path dir)" by (auto simp: content_def)
  moreover have "lookup s' q = lookup s q" using s(1) p by (auto simp: due_def is_reg_def)
  ultimately show "retires lib dir q acct pub s s' \<and> due b lib dir q n acct pub s'" by (rule due_same [OF s(1)])
qed

text \<open>A run that leaves both files alone.\<close>

lemma due_frame:
  assumes "ensures (\<lambda>_. True) (unchanged q) f (\<lambda>_ _. True)" and "ensures (\<lambda>_. True) (unchanged (log_path dir)) f (\<lambda>_ _. True)"
  shows "steps (due b lib dir q n acct pub) (retires lib dir q acct pub) f"
proof -
  let ?P = "due b lib dir q n acct pub" let ?R = "\<lambda>s t. unchanged q s t \<and> unchanged (log_path dir) s t"
  have R: "?P s \<Longrightarrow> ?R s t \<Longrightarrow> retires lib dir q acct pub s t \<and> ?P t" for s t
    by (intro due_same) (auto simp: unchanged_def content_def)
  have "ensures (\<lambda>_. True) ?R f (\<lambda>x s. True \<and> True)" by (rule ensures_conj [OF assms])
  then show ?thesis
    using R rt.guarantee_axioms unfolding steps_def ensures_def evolves_def by fastforce
qed

text \<open>Another record in the log.\<close>

lemma append_logged:
  assumes "whole_lines c0"
  shows "re_Pub ` set (revoked_for lib c0 a) \<subseteq> re_Pub ` set (revoked_for lib (c0 @ take k (retired_line (retired_members r))) a)"
proof (cases "k \<le> length (Marshal (retired_members r))")
  case True
  then have "take k (retired_line (retired_members r)) = take k (Marshal (retired_members r))"
    by (simp add: retired_line_def)
  moreover have "newline \<notin> set (take k (Marshal (retired_members r)))"
    using Marshal_line in_set_takeD by fast
  ultimately show ?thesis using revoked_for_torn [OF assms] by (simp add: image_mono)
next
  case False
  then have "take k (retired_line (retired_members r)) = retired_line (retired_members r)"
    by (simp add: retired_line_def)
  then show ?thesis
    using image_mono [OF load_line_grows [of "load_log lib c0" a lib "Marshal (retired_members r)"], of re_Pub]
    by (simp add: revoked_for_def load_log_append [OF assms])
qed


lemma evolves_conj: "evolves R w w' \<Longrightarrow> evolves R' w w' \<Longrightarrow> evolves (\<lambda>s t. R s t \<and> R' s t) w w'"
  by (auto simp: evolves_def)

lemma evolves_mono: "evolves R w w' \<Longrightarrow> (\<And>t. R (w_fs w) t \<Longrightarrow> R' (w_fs w) t) \<Longrightarrow> evolves R' w w'"
  by (auto simp: evolves_def)

lemma due_append:
  assumes "q \<noteq> log_path dir" and "\<not> prefix q (butlast (log_path dir))"
  shows "ensures (due b lib dir q n acct pub) (retires lib dir q acct pub)
    (appendAuditRecord dir retiredLogFile (retired_members r))
    (\<lambda>_ s. due b lib dir q n acct pub s \<and>
      (rr_OldUserPub r = pub \<and> rr_Account r = acct \<and> pub \<noteq> [] \<longrightarrow> pub \<in> logged lib dir acct s))"
  unfolding ensures_def
proof (intro allI impI)
  let ?P = "due b lib dir q n acct pub" let ?f = "appendAuditRecord dir retiredLogFile (retired_members r)"
  let ?p = "log_path dir" let ?line = "retired_line (retired_members r)"
  fix w :: world assume P: "?P (w_fs w)"
  define c0 where "c0 = content (w_fs w) ?p"
  have whole: "whole_lines c0" using P by (simp add: due_def whole_log_def c0_def)
  have p: "?p \<noteq> []" by (simp add: log_path_eq)
  have f: "?f = appendJSONLine ?p (retired_members r)" by (simp add: appendAuditRecord_def log_path_def)
  have log: "ensures (\<lambda>s. content s ?p = c0) (keeps (\<lambda>s. \<exists>k. content s ?p = c0 @ take k ?line)) ?f
      (\<lambda>_ s. content s ?p = c0 @ ?line)"
    unfolding f by (rule audit_content [OF p])
  have qf: "ensures (\<lambda>_. True) (unchanged q) ?f (\<lambda>_ _. True)"
    unfolding f using assms by (intro frame_audit) auto
  obtain x w' where run: "?f w = (x, w')" by (cases "?f w")
  have start: "content (w_fs w) ?p = c0" by (simp add: c0_def)
  have q: "evolves (unchanged q) w w'" by (rule ensuresD(1) [OF qf TrueI run])
  have l: "evolves (keeps (\<lambda>s. \<exists>k. content s ?p = c0 @ take k ?line)) w w'" by (rule ensuresD(1) [OF log start run])
  have R: "retires lib dir q acct pub (w_fs w) t" if "lookup t q = lookup (w_fs w) q" "\<exists>k. content t ?p = c0 @ take k ?line" for t
  proof -
    from that(2) obtain k where "content t ?p = c0 @ take k ?line" by blast
    then have "logged lib dir a (w_fs w) \<subseteq> logged lib dir a t" for a
      using append_logged [OF whole, of lib a k r] by (simp add: logged_def start)
    with that(1) show ?thesis by (simp add: retires_def)
  qed
  have k0: "\<exists>k. content (w_fs w) ?p = c0 @ take k ?line" by (intro exI [of _ 0]) (simp add: start)
  have "evolves (retires lib dir q acct pub) w w'"
  proof (rule evolves_mono [OF evolves_conj [OF q l]])
    fix t assume t: "unchanged q (w_fs w) t \<and> keeps (\<lambda>s. \<exists>k. content s ?p = c0 @ take k ?line) (w_fs w) t"
    show "retires lib dir q acct pub (w_fs w) t"
      by (rule R) (use t k0 in \<open>simp_all add: unchanged_def keeps_def\<close>)
  qed
  moreover have "?P (w_fs w') \<and> (rr_OldUserPub r = pub \<and> rr_Account r = acct \<and> pub \<noteq> [] \<longrightarrow> pub \<in> logged lib dir acct (w_fs w'))"
    if "x = Inr y" for y
  proof -
    have c: "content (w_fs w') ?p = c0 @ ?line" using ensuresD(2) [OF log start run that] .
    have "lookup (w_fs w') q = lookup (w_fs w) q" using q by (simp add: evolves_def unchanged_def)
    moreover have "logged lib dir acct (w_fs w) \<subseteq> logged lib dir acct (w_fs w')"
      using append_logged [OF whole, of lib acct "length ?line" r] by (simp add: logged_def start c)
    ultimately have "?P (w_fs w')"
      using P by (auto simp: due_def whole_log_def c whole_lines_append is_reg_def)
    moreover have "pub \<in> logged lib dir acct (w_fs w')" if "rr_OldUserPub r = pub" "rr_Account r = acct" "pub \<noteq> []"
      using that revoked_for_append [OF whole, of r lib acct] by (simp add: logged_def c revoked_entry_def)
    ultimately show ?thesis by blast
  qed
  ultimately show "evolves (retires lib dir q acct pub) w (snd (?f w)) \<and>
      (\<forall>y. fst (?f w) = Inr y \<longrightarrow> ?P (w_fs (snd (?f w))) \<and>
        (rr_OldUserPub r = pub \<and> rr_Account r = acct \<and> pub \<noteq> [] \<longrightarrow> pub \<in> logged lib dir acct (w_fs (snd (?f w)))))"
    by (simp add: run)
qed


subsection \<open>The steps of the run\<close>

text \<open>The credential file of cabinet \<open>i\<close> in district \<open>d\<close>.\<close>

definition creds_path :: "path \<Rightarrow> string \<Rightarrow> string \<Rightarrow> path" where
  "creds_path dir d i = dir @ [''cabinets'', d, i @ ''.creds'']"

lemma creds_path_facts:
  "has_ext ''.creds'' (creds_path dir d i)" "creds_path dir d i \<noteq> log_path dir"
  "\<not> prefix (creds_path dir d i) (dir @ [x])" "\<not> prefix (creds_path dir d i) (butlast (log_path dir))"
  by (simp_all add: creds_path_def has_ext_def HasSuffix_iff log_path_eq prefix_def butlast_append)

lemma other_logs:
  "auditLogPath dir retiredOperatorSKLogFile = dir @ [''revocations'', ''retired-operator-sk.jsonl'']"
  "auditLogPath dir retiredAccountSKLogFile = dir @ [''revocations'', ''retired-account-sk.jsonl'']"
proof -
  have "plain_name retiredOperatorSKLogFile" "split_char CHR ''/'' retiredOperatorSKLogFile = [''retired-operator-sk.jsonl'']"
    "plain_name retiredAccountSKLogFile" "split_char CHR ''/'' retiredAccountSKLogFile = [''retired-account-sk.jsonl'']"
    by code_simp+
  then show "auditLogPath dir retiredOperatorSKLogFile = dir @ [''revocations'', ''retired-operator-sk.jsonl'']"
    "auditLogPath dir retiredAccountSKLogFile = dir @ [''revocations'', ''retired-account-sk.jsonl'']"
    by (simp_all add: auditLogPath_eq)
qed

lemma due_other_log:
  assumes "auditLogPath dir name = dir @ [''revocations'', x]" and "x \<noteq> ''retired.jsonl''"
  shows "steps (due b lib dir (creds_path dir d i) n acct pub) (retires lib dir (creds_path dir d i) acct pub)
    (appendAuditRecord dir name v)"
  unfolding appendAuditRecord_def assms(1)
proof (rule due_frame)
  show "ensures (\<lambda>_. True) (unchanged (creds_path dir d i)) (appendJSONLine (dir @ [''revocations'', x]) v) (\<lambda>_ _. True)"
    by (rule frame_audit) (auto simp: creds_path_def prefix_def butlast_append)
  show "ensures (\<lambda>_. True) (unchanged (log_path dir)) (appendJSONLine (dir @ [''revocations'', x]) v) (\<lambda>_ _. True)"
    by (rule frame_audit) (use assms(2) in \<open>auto simp: log_path_eq prefix_def butlast_append\<close>)
qed

lemma due_write_ext:
  assumes "has_ext e p" and "e \<in> {''.nkey'', ''.key'', ''.jwt'', ''.crt'', ''.index'', ''.conf''}"
  shows "steps (due b lib dir (creds_path dir d i) n acct pub) (retires lib dir (creds_path dir d i) acct pub) (WriteFile p x m)"
proof (rule due_WriteFile)
  have e: "e \<in> set issue_exts" "e \<noteq> ''.creds''" "e \<noteq> ''.jsonl''" "''.creds'' \<in> set issue_exts" "''.jsonl'' \<in> set issue_exts"
    using assms(2) by (auto simp: issue_exts_def)
  show "p \<noteq> log_path dir"
    using ext_neq [OF assms(1) log_ext(1) e(1,5,3)] by (simp add: log_path_def)
  show "p = creds_path dir d i \<Longrightarrow> b"
    using ext_neq [OF assms(1) creds_path_facts(1) e(1,4,2)] by simp
qed

lemma due_Join_ext:
  assumes "e \<in> {''.nkey'', ''.key'', ''.jwt'', ''.crt''}"
  shows "steps (due b lib dir (creds_path dir d i) n acct pub) (retires lib dir (creds_path dir d i) acct pub)
    (WriteFile (Join r (x @ e)) y m)"
proof -
  have "proper_ext e" using assms proper_exts by auto
  from due_write_ext [OF has_ext_Join [OF this]] assms show ?thesis by auto
qed

lemma due_named_files:
  "steps (due b lib dir (creds_path dir d i) n acct pub) (retires lib dir (creds_path dir d i) acct pub)
     (WriteFile (Join r ''operator.jwt'') y m)"
  "steps (due b lib dir (creds_path dir d i) n acct pub) (retires lib dir (creds_path dir d i) acct pub)
     (WriteFile (Join r ''accounts.index'') y m)"
  "steps (due b lib dir (creds_path dir d i) n acct pub) (retires lib dir (creds_path dir d i) acct pub)
     (WriteFile (Join r ''resolver.conf'') y m)"
  by (rule due_write_ext [OF names_ext(1)], simp, rule due_write_ext [OF names_ext(2)], simp,
      rule due_write_ext [OF names_ext(3)], simp)

lemma due_key:
  assumes "has_ext e p" and "e \<in> {''.nkey'', ''.key'', ''.jwt'', ''.crt'', ''.index'', ''.conf''}"
  shows "steps (due b lib dir (creds_path dir d i) n acct pub) (retires lib dir (creds_path dir d i) acct pub)
      (ensureKeypair lib p k force)"
    and "steps (due b lib dir (creds_path dir d i) n acct pub) (retires lib dir (creds_path dir d i) acct pub)
      (ensureLeafKey lib p force)"
  unfolding ensureKeypair_def mint_key_def ensureLeafKey_def mint_leaf_key_def
  by (intro steps due_write_ext [OF assms] st_quiet [OF _ quiet_NewClientKey])+

lemma due_ca:
  "steps (due b lib dir (creds_path dir d i) n acct pub) (retires lib dir (creds_path dir d i) acct pub)
     (LoadOrCreateCA plib (Join r ''cabinet-ca.crt'') (Join r ''cabinet-ca.key''))"
proof -
  have "steps (due b lib dir (creds_path dir d i) n acct pub) (retires lib dir (creds_path dir d i) acct pub)
      (WriteFile (Join r ''cabinet-ca.crt'') y m)"
    "steps (due b lib dir (creds_path dir d i) n acct pub) (retires lib dir (creds_path dir d i) acct pub)
      (WriteFile (Join r ''cabinet-ca.key'') y m)" for y m
    using due_Join_ext [of "''.crt''" _ _ _ _ _ _ _ _ r "''cabinet-ca''"] due_Join_ext [of "''.key''" _ _ _ _ _ _ _ _ r "''cabinet-ca''"]
    by simp_all
  then show ?thesis unfolding LoadOrCreateCA_def mint_ca_def
    by (intro steps st_quiet [OF _ quiet_randSerial] st_quiet [OF _ quiet_create_cert])
qed

lemma due_secure [steps]:
  "steps (due b lib dir q n acct pub) (retires lib dir q acct pub) (requireOwnerOnly e)"
  "steps (due b lib dir q n acct pub) (retires lib dir q acct pub) (public_key lib kp)"
  "steps (due b lib dir q n acct pub) (retires lib dir q acct pub) (secure_dir e)"
  unfolding secure_dir_def requireOwnerOnly_def public_key_def by (intro steps)+

lemma due_operator:
  "steps (due b lib dir (creds_path dir d i) n acct pub) (retires lib dir (creds_path dir d i) acct pub)
     (ensureOperator lib dir dot rots)"
proof -
  have key: "has_ext ''.nkey'' (Join dir ''operator.nkey'')" "has_ext ''.nkey'' (Join dir ''operator-sk.nkey'')"
    using has_ext_Join [OF proper_exts(1), of dir "''operator''"] has_ext_Join [OF proper_exts(1), of dir "''operator-sk''"]
    by simp_all
  show ?thesis unfolding ensureOperator_def captureRetiredOperatorSK_def
    by (intro steps due_key(1) [OF key(1)] due_key(1) [OF key(2)] due_named_files due_other_log [OF other_logs(1)]) simp_all
qed

lemma due_accounts:
  "steps (due b lib dir (creds_path dir d i) n acct pub) (retires lib dir (creds_path dir d i) acct pub)
     (ensureAccounts lib dir accountsDir model rots)"
proof -
  have key: "has_ext ''.nkey'' (Join accountsDir (x @ ''.nkey''))" "has_ext ''.nkey'' (Join accountsDir (x @ ''-sk.nkey''))" for x
    using has_ext_Join [OF proper_exts(1), of accountsDir x] has_ext_Join [OF proper_exts(1), of accountsDir "x @ ''-sk''"]
    by simp_all
  show ?thesis unfolding ensureAccounts_def ensure_account_def captureRetiredAccountSK_def
    by (intro steps due_key(1) [OF key(1)] due_key(1) [OF key(2)] due_other_log [OF other_logs(2)]) simp_all
qed

lemma due_bundle:
  "steps (due b lib dir (creds_path dir d i) n acct pub) (retires lib dir (creds_path dir d i) acct pub)
     (writeResolverBundle lib res accts pubs sk dir r)"
  unfolding writeResolverBundle_def write_account_def loadRevocations_def
  by (intro steps due_Join_ext due_named_files) simp_all


lemma due_consumers:
  "steps (due b lib dir (creds_path dir d i) n acct pub) (retires lib dir (creds_path dir d i) acct pub)
     (mintDMZConsumers lib res model dir sk dmzpub)"
proof -
  have dmz: "Join dir ''dmz'' = dir @ [''dmz'']"
  proof -
    have "split_char CHR ''/'' ''dmz'' = [''dmz'']" by code_simp
    then show ?thesis by (simp add: Join_def)
  qed
  have creds: "steps (due b lib dir (creds_path dir d i) n acct pub) (retires lib dir (creds_path dir d i) acct pub)
      (WriteFile (Join (Join dir ''dmz'') (x @ ''.creds'')) y m)" if "\<not> unsafe_name x" for x y m
  proof -
    have "Join (Join dir ''dmz'') (x @ ''.creds'') = dir @ [''dmz'', x @ ''.creds'']"
      using that Join_slash_free [OF _ proper_exts(4), of x "Join dir ''dmz''"] by (simp add: unsafe_name_def dmz)
    then show ?thesis by (intro due_WriteFile) (simp_all add: creds_path_def log_path_eq)
  qed
  have key: "has_ext ''.nkey'' (Join r (x @ ''.nkey''))" for r x by (rule has_ext_Join [OF proper_exts(1)])
  show ?thesis unfolding mintDMZConsumers_def mint_one_consumer_def mintDMZConsumer_def Let_def
    by (intro steps due_key(1) [OF key] creds) simp_all
qed

lemma due_cabinet:
  assumes "Join distDir (cab_ID c @ ''.creds'') = creds_path dir d i \<Longrightarrow> b" and "\<And>x y. quiet (sign x y)"
  shows "steps (due b lib dir (creds_path dir d i) n acct pub) (retires lib dir (creds_path dir d i) acct pub)
     (mintCabinet lib c distDir apub sk sign rotating)"
proof -
  have key: "has_ext ''.nkey'' (Join distDir (cab_ID c @ ''.nkey''))" "has_ext ''.key'' (Join distDir (cab_ID c @ ''.key''))"
    by (rule has_ext_Join [OF proper_exts(1)], rule has_ext_Join [OF proper_exts(2)])
  have "has_ext ''.creds'' (Join distDir (cab_ID c @ ''.creds''))" by (rule has_ext_Join [OF proper_exts(4)])
  then have "Join distDir (cab_ID c @ ''.creds'') \<noteq> log_path dir"
    using ext_neq [OF _ log_ext(1)] by (auto simp: issue_exts_def log_path_def)
  then have creds: "steps (due b lib dir (creds_path dir d i) n acct pub) (retires lib dir (creds_path dir d i) acct pub)
      (WriteFile (Join distDir (cab_ID c @ ''.creds'')) y m)" for y m
    by (intro due_WriteFile assms(1))
  show ?thesis unfolding mintCabinet_def
    by (intro steps due_key(1) [OF key(1)] due_key(2) [OF key(2)] creds due_Join_ext st_quiet [OF _ quiet_ClientCSR]
        st_quiet [OF _ assms(2)]) simp_all
qed

lemma quiet_read_old [quiet]: "(\<And>data. quiet (f data)) \<Longrightarrow> quiet (read_old p f)"
  unfolding read_old_def by (intro quiet) (simp split: sum.split add: quiet)

lemma quiet_captureRetired [quiet]: "quiet (captureRetired lib distDir i d acct now)"
  unfolding captureRetired_def old_user_pub_def old_cert_serial_def Let_def
  by (intro quiet) (simp split: option.split add: quiet)+

lemma ens_quiet_result:
  assumes "guarantee R" and "quiet f" and "\<And>w x w'. P (w_fs w) \<Longrightarrow> f w = (Inr x, w') \<Longrightarrow> Q x"
  shows "ensures P R f (\<lambda>x s. P s \<and> Q x)"
proof (rule ensuresI)
  show "evolves R w (snd (f w))" for w
    using assms(1,2) by (simp add: evolves_def quiet_def guarantee.R_refl)
  show "P (w_fs w') \<and> Q x" if "P (w_fs w)" "f w = (Inr x, w')" for w x w'
    using that assms(3) quietD [OF assms(2) that(2)] by simp
qed

lemma due_retire_other:
  "steps (due b lib dir (creds_path dir d i) n acct pub) (retires lib dir (creds_path dir d i) acct pub)
     (retire_cabinet lib dir distDir i' d' acct')"
proof -
  have app: "steps (due b lib dir (creds_path dir d i) n acct pub) (retires lib dir (creds_path dir d i) acct pub)
      (appendAuditRecord dir retiredLogFile (retired_members r))" for r
    unfolding steps_def
    by (rule conjI [OF rt.guarantee_axioms ens_post [OF due_append [OF creds_path_facts(2,4)]]]) simp
  show ?thesis unfolding retire_cabinet_def
    by (intro steps app st_quiet [OF _ quiet_captureRetired])
qed

text \<open>The cabinet itself: what its old file says is in the log afterwards.\<close>

definition old_key :: "nats_lib \<Rightarrow> string \<Rightarrow> string \<Rightarrow> bool" where
  "old_key lib creds pub \<longleftrightarrow> pub \<noteq> [] \<and>
     (\<exists>tok uc. ParseDecoratedJWT lib creds = Inr tok \<and> DecodeUserClaims lib tok = Inr uc \<and> uc_Subject uc = pub)"

lemma captureRetired_key:
  assumes "lookup (w_fs w) (Join distDir (i @ ''.creds'')) = Some (Reg m creds)" and "old_key lib creds pub"
    and run: "captureRetired lib distDir i d acct now w = (Inr rec, w')"
  shows "\<exists>r. rec = Some r \<and> rr_OldUserPub r = pub \<and> rr_Account r = acct"
proof -
  let ?q = "Join distDir (i @ ''.creds'')"
  from run obtain p w1 where rd: "read_old ?q (old_user_pub lib ?q) w = (Inr p, w1)"
    and rest: "rec = None \<longrightarrow> p = []" "\<And>r. rec = Some r \<Longrightarrow> rr_OldUserPub r = p \<and> rr_Account r = acct"
    unfolding captureRetired_def Let_def
    by (elim bindIO_InrE) (auto simp: returnIO_def split: if_splits)
  from rd have "p = pub"
    using assms(1,2)
    by (auto simp: old_key_def read_old_def bindIO_def tryIO_def ReadFile_run op_read_def throwIO_def old_user_pub_def
        wrapIO_def libIO_def liftIO_def returnIO_def split: if_splits)
  with rest assms(2) show ?thesis by (cases rec) (auto simp: old_key_def)
qed

lemma due_retire_self:
  assumes "creds_path dir d i = Join distDir (i @ ''.creds'')" and "old_key lib creds pub"
  shows "ensures (due False lib dir (creds_path dir d i) (Reg m creds) acct pub) (retires lib dir (creds_path dir d i) acct pub)
     (retire_cabinet lib dir distDir i d' acct) (\<lambda>_. due True lib dir (creds_path dir d i) (Reg m creds) acct pub)"
proof -
  let ?P = "\<lambda>b. due b lib dir (creds_path dir d i) (Reg m creds) acct pub" let ?R = "retires lib dir (creds_path dir d i) acct pub"
  let ?Q = "\<lambda>rec. \<exists>r. rec = Some r \<and> rr_OldUserPub r = pub \<and> rr_Account r = acct"
  have cap: "ensures (?P False) ?R (captureRetired lib distDir i d' acct now) (\<lambda>rec s. ?P False s \<and> ?Q rec)" for now
  proof (rule ens_quiet_result [OF rt.guarantee_axioms quiet_captureRetired])
    fix w :: world and rec w' assume w: "?P False (w_fs w)" and run: "captureRetired lib distDir i d' acct now w = (Inr rec, w')"
    have "lookup (w_fs w) (Join distDir (i @ ''.creds'')) = Some (Reg m creds)"
      using w unfolding assms(1) due_def by simp
    from captureRetired_key [OF this assms(2) run] show "?Q rec" .
  qed
  have app: "ensures (?P False) ?R (appendAuditRecord dir retiredLogFile (retired_members r)) (\<lambda>_. ?P True)"
    if "rr_OldUserPub r = pub" "rr_Account r = acct" for r
    using that assms(2)
    by (intro ens_post [OF due_append [OF creds_path_facts(2,4)]]) (auto simp: old_key_def due_def)
  have rec: "ensures (\<lambda>s. ?P False s \<and> ?Q rec) ?R
      (case rec of None \<Rightarrow> returnIO ()
       | Some rec \<Rightarrow> wrapIO (RecordRetired i) (appendAuditRecord dir retiredLogFile (retired_members rec)))
      (\<lambda>_. ?P True)" for rec
  proof (cases "?Q rec")
    case True
    then obtain r where r: "rec = Some r" "rr_OldUserPub r = pub" "rr_Account r = acct" by blast
    from ensures_wrap [OF app [OF r(2,3)]] show ?thesis by (auto simp: r(1) intro: ens_pre)
  next
    case False
    then show ?thesis unfolding ensures_def by (intro allI impI) (erule conjE, erule notE, assumption)
  qed
  show ?thesis unfolding retire_cabinet_def
    by (rule rt.ens_bind [OF rt.ens_quiet [OF quiet_Now] rt.ens_bind [OF ensures_wrap [OF cap] rec]])
qed

lemma due_mint_other:
  assumes "\<And>d' a k. cabinet_scope model t idx sks c = Inr (d', a, k) \<Longrightarrow>
      Join (Join (Join dir ''cabinets'') d') (cab_ID c @ ''.creds'') = creds_path dir d i \<Longrightarrow> b"
    and "\<And>x y. quiet (sign x y)"
  shows "steps (due b lib dir (creds_path dir d i) n acct pub) (retires lib dir (creds_path dir d i) acct pub)
     (mint_one_cabinet lib model t idx dir rots sks pubs sign res c)"
proof (cases "cabinet_scope model t idx sks c")
  case (Inl e)
  then show ?thesis unfolding mint_one_cabinet_def
    by (simp add: liftIO_def [abs_def] bindIO_def [abs_def] steps_def ensures_def rt.guarantee_axioms rt.evolves_refl)
next
  case (Inr y)
  obtain d' a k where y: "y = (d', a, k)" by (cases y)
  have lift: "bindIO (liftIO (Inr (d', a, k))) g = g (d', a, k)" for g :: "_ \<Rightarrow> (issue_error, IssueResult) io"
    by (rule ext) (simp add: bindIO_def liftIO_def)
  show ?thesis unfolding mint_one_cabinet_def Inr y lift Let_def prod.case
    by (intro steps due_retire_other due_cabinet assms) (use assms(1) Inr y in auto)
qed

lemma due_mint_self:
  assumes scope: "\<And>d' a k. cabinet_scope model t idx sks c = Inr (d', a, k) \<Longrightarrow> d' = d \<and> a = acct"
    and path: "Join (Join (Join dir ''cabinets'') d) (cab_ID c @ ''.creds'') = creds_path dir d (cab_ID c)"
    and rot: "cab_ID c \<in> set rots" and old: "old_key lib creds pub" and sign: "\<And>x y. quiet (sign x y)"
  shows "ensures (due False lib dir (creds_path dir d (cab_ID c)) (Reg m creds) acct pub)
     (retires lib dir (creds_path dir d (cab_ID c)) acct pub)
     (mint_one_cabinet lib model t idx dir rots sks pubs sign res c)
     (\<lambda>_. due True lib dir (creds_path dir d (cab_ID c)) (Reg m creds) acct pub)"
proof (cases "cabinet_scope model t idx sks c")
  case (Inl e)
  then show ?thesis unfolding mint_one_cabinet_def
    by (simp add: liftIO_def [abs_def] bindIO_def [abs_def] ensures_def rt.evolves_refl)
next
  case (Inr y)
  with scope obtain k where y: "y = (d, acct, k)" by (cases y) auto
  have lift: "bindIO (liftIO (Inr (d, acct, k))) g = g (d, acct, k)" for g :: "_ \<Rightarrow> (issue_error, IssueResult) io"
    by (rule ext) (simp add: bindIO_def liftIO_def)
  let ?P = "\<lambda>b. due b lib dir (creds_path dir d (cab_ID c)) (Reg m creds) acct pub"
  let ?R = "retires lib dir (creds_path dir d (cab_ID c)) acct pub" let ?D = "Join (Join dir ''cabinets'') d"
  have mk: "ensures (?P False) ?R (wrapIO (MkdirFailed ?D) (osIO (MkdirAll ?D 0x1C0))) (\<lambda>_. ?P False)"
    by (intro ensures_wrap ens_osIO due_MkdirAll [unfolded steps_def, THEN conjunct2])
  have own: "ensures (?P False) ?R (requireOwnerOnly ?D) (\<lambda>_. ?P False)"
    by (intro due_secure [unfolded steps_def, THEN conjunct2])
  have ret: "ensures (?P False) ?R (if cab_ID c \<in> set rots then retire_cabinet lib dir ?D (cab_ID c) d acct else returnIO ())
      (\<lambda>_. ?P True)"
    using rot due_retire_self [OF path [symmetric] old] by simp
  have mint: "steps (?P True) ?R (mintCabinet lib c ?D (gm_string pubs acct) k sign True)"
    by (intro due_cabinet sign) simp
  have fin: "ensures (?P True) ?R (bindIO (mintCabinet lib c ?D (gm_string pubs acct) k sign True)
      (\<lambda>(minted, certMinted). returnIO (g minted certMinted))) (\<lambda>_. ?P True)" for g :: "bool \<Rightarrow> bool \<Rightarrow> IssueResult"
  proof -
    have "steps (?P True) ?R (bindIO (mintCabinet lib c ?D (gm_string pubs acct) k sign True)
      (\<lambda>(minted, certMinted). returnIO (g minted certMinted)))"
      by (intro steps mint)
    then show ?thesis by (simp add: steps_def)
  qed
  show ?thesis unfolding mint_one_cabinet_def Inr y lift Let_def prod.case
    using rot by (simp only: simp_thms if_True) (rule rt.ens_bind [OF mk rt.ens_bind [OF own rt.ens_bind [OF ret [unfolded if_P [OF rot]] fin]]])
qed

lemma steps_ensures: "steps P R f \<Longrightarrow> ensures P R f (\<lambda>_. P)"
  by (simp add: steps_def)

lemma foldIO_append: "foldIO f s (xs @ ys) = bindIO (foldIO f s xs) (\<lambda>s'. foldIO f s' ys)"
  by (induction xs arbitrary: s) (auto simp: bindIO_def returnIO_def split: sum.splits prod.splits)

text \<open>A list of steps, one of which takes the condition on from \<open>P\<close> to \<open>P'\<close>.\<close>

lemma ens_fold_at:
  assumes "guarantee R" and "x \<in> set xs" and "distinct (map k xs)"
    and "\<And>s. ensures P R (f s x) (\<lambda>_. P')"
    and "\<And>s y. y \<in> set xs \<Longrightarrow> k y \<noteq> k x \<Longrightarrow> steps P R (f s y)"
    and "\<And>s y. y \<in> set xs \<Longrightarrow> k y \<noteq> k x \<Longrightarrow> steps P' R (f s y)"
  shows "ensures P R (foldIO f s xs) (\<lambda>_. P')"
proof -
  obtain ys zs where xs: "xs = ys @ x # zs" using split_list [OF assms(2)] by blast
  have k: "k y \<noteq> k x" if "y \<in> set ys \<union> set zs" for y
  proof -
    have "k x \<notin> k ` set ys" "k x \<notin> k ` set zs" using assms(3) by (auto simp: xs)
    with that show ?thesis by (metis UnE image_eqI)
  qed
  have "ensures P R (foldIO f s ys) (\<lambda>_. P)" for s
    using assms(1,5) k by (auto simp: steps_def xs intro: guarantee.ens_fold)
  moreover have "ensures P' R (foldIO f s zs) (\<lambda>_. P')" for s
    using assms(1,6) k by (auto simp: steps_def xs intro: guarantee.ens_fold)
  ultimately show ?thesis
    unfolding xs foldIO_append foldIO.simps(2)
    by (intro guarantee.ens_bind [OF assms(1), where M = "\<lambda>_. P"] guarantee.ens_bind [OF assms(1) assms(4)])
qed

lemma creds_path_Join:
  assumes "CHR ''/'' \<notin> set d" and "plain_name d" and "CHR ''/'' \<notin> set i"
  shows "Join (Join (Join dir ''cabinets'') d) (i @ ''.creds'') = creds_path dir d i"
proof -
  have "split_char CHR ''/'' ''cabinets'' = [''cabinets'']" by code_simp
  then have "Join (Join dir ''cabinets'') d = dir @ [''cabinets'', d]"
    using assms(1,2) by (simp add: Join_def split_char_no_sep plain_name_def plain_component_def)
  then show ?thesis by (simp add: creds_path_def Join_slash_free [OF assms(3) proper_exts(4)])
qed

lemma due_mintCabinets:
  assumes "c \<in> set (inv_Cabinets iv)" and "distinct (map cab_ID (inv_Cabinets iv))"
    and "list_all (\<lambda>c. CHR ''/'' \<notin> set (cab_ID c)) (inv_Cabinets iv)"
    and "cab_ID c \<in> set rots" and "PartitionIndex t = Inr idx" and "map_of idx (cab_Partition c) = Some d"
    and "CHR ''/'' \<notin> set d" and "plain_name d" and "old_key lib creds pub"
  shows "ensures (due False lib dir (creds_path dir d (cab_ID c)) (Reg m creds) (DistrictAccountName d) pub)
     (retires lib dir (creds_path dir d (cab_ID c)) (DistrictAccountName d) pub)
     (mintCabinets lib res model iv (Some t) dir rots sks pubs)
     (\<lambda>_. due True lib dir (creds_path dir d (cab_ID c)) (Reg m creds) (DistrictAccountName d) pub)"
proof -
  let ?acct = "DistrictAccountName d" let ?q = "creds_path dir d (cab_ID c)"
  let ?P = "\<lambda>b. due b lib dir ?q (Reg m creds) ?acct pub" let ?R = "retires lib dir ?q ?acct pub"
  have id: "CHR ''/'' \<notin> set (cab_ID c)" using assms(1,3) by (auto simp: list_all_iff)
  have scope: "d' = d \<and> a = ?acct" if "cabinet_scope model t idx sks c = Inr (d', a, k)" for d' a k
    using that assms(6) by (auto simp: cabinet_scope_def Let_def split: if_splits option.splits prod.splits bool.splits)
  have other: "Join (Join (Join dir ''cabinets'') d') (cab_ID y @ ''.creds'') \<noteq> ?q"
    if "y \<in> set (inv_Cabinets iv)" "cab_ID y \<noteq> cab_ID c" for d' y
  proof -
    have "CHR ''/'' \<notin> set (cab_ID y)" using that(1) assms(3) by (auto simp: list_all_iff)
    from Join_slash_free [OF this proper_exts(4)] that(2) show ?thesis by (auto simp: creds_path_def)
  qed
  have fold: "ensures (?P False) ?R (foldIO (mint_one_cabinet lib model t idx dir rots sks pubs
      (SignClientCert (pki_lib.truncate lib) ca)) r (inv_Cabinets iv)) (\<lambda>_. ?P True)" for ca r
  proof (rule ens_fold_at [OF rt.guarantee_axioms assms(1,2)])
    show "ensures (?P False) ?R (mint_one_cabinet lib model t idx dir rots sks pubs
        (SignClientCert (pki_lib.truncate lib) ca) s c) (\<lambda>_. ?P True)" for s
      by (rule due_mint_self [OF scope creds_path_Join [OF assms(7,8) id] assms(4,9) quiet_SignClientCert])
    fix s y assume y: "y \<in> set (inv_Cabinets iv)" "cab_ID y \<noteq> cab_ID c"
    have "steps (?P b) ?R (mint_one_cabinet lib model t idx dir rots sks pubs
        (SignClientCert (pki_lib.truncate lib) ca) s y)" for b
      by (rule due_mint_other [OF _ quiet_SignClientCert]) (use other [OF y] in blast)
    then show "steps (?P False) ?R (mint_one_cabinet lib model t idx dir rots sks pubs
        (SignClientCert (pki_lib.truncate lib) ca) s y)"
      and "steps (?P True) ?R (mint_one_cabinet lib model t idx dir rots sks pubs
        (SignClientCert (pki_lib.truncate lib) ca) s y)" by blast+
  qed
  have ca: "ensures (?P False) ?R (wrapIO CAFailed (LoadOrCreateCA plib (Join r ''cabinet-ca.crt'') (Join r ''cabinet-ca.key'')))
      (\<lambda>_. ?P False)" for plib r
    by (intro ensures_wrap due_ca [unfolded steps_def, THEN conjunct2])
  have "ensures (?P False) ?R (bindIO (wrapIO CAFailed (LoadOrCreateCA (pki_lib.truncate lib)
          (Join (Join dir ''ca'') ''cabinet-ca.crt'') (Join (Join dir ''ca'') ''cabinet-ca.key''))) (\<lambda>(ca, caCreated).
        foldIO (mint_one_cabinet lib model t idx dir rots sks pubs (SignClientCert (pki_lib.truncate lib) ca))
          (res\<lparr>ir_CACreated := caCreated\<rparr>) (inv_Cabinets iv))) (\<lambda>_. ?P True)"
    by (rule rt.ens_bind [OF ca]) (auto intro: fold)
  moreover have "ensures (?P False) ?R (throwIO e :: (issue_error, IssueResult) io) (\<lambda>_. ?P True)" for e
    by (simp add: ensures_def throwIO_def rt.evolves_refl)
  ultimately show ?thesis unfolding mintCabinets_def by (simp add: assms(5))
qed

text \<open>
  C1. A rotated credential is revoked before it is replaced: when the cabinet \<open>c\<close> is rotated and its
  credential file \<open>creds\<close> names the key \<open>pub\<close>, then in every state the run passes through, whatever
  fails, the file is the old one or the key is among the revocations of the district's account that
  the log holds.
\<close>

theorem IssueWithRotation_logs_first:
  assumes "c \<in> set (inv_Cabinets iv)" and "distinct (map cab_ID (inv_Cabinets iv))"
    and "list_all (\<lambda>c. CHR ''/'' \<notin> set (cab_ID c)) (inv_Cabinets iv)"
    and "cab_ID c \<in> set (rs_Cabinets spec)" and "PartitionIndex t = Inr idx" and "map_of idx (cab_Partition c) = Some d"
    and "CHR ''/'' \<notin> set d" and "plain_name d" and "old_key lib creds pub"
    and "lookup (w_fs w) (creds_path dir d (cab_ID c)) = Some (Reg m creds)" and "whole_log dir (w_fs w)" and "w_seen w = []"
    and "IssueWithRotation lib (Some model) (Some iv) (Some t) dir spec w = (r, w')"
  shows "\<forall>s\<in>set (w_fs w' # w_seen w').
    lookup s (creds_path dir d (cab_ID c)) = Some (Reg m creds) \<or> pub \<in> logged lib dir (DistrictAccountName d) s"
proof -
  let ?acct = "DistrictAccountName d" let ?q = "creds_path dir d (cab_ID c)"
  let ?P = "\<lambda>b. due b lib dir ?q (Reg m creds) ?acct pub" let ?R = "retires lib dir ?q ?acct pub"
  have pre: "ensures (?P False) ?R (forIO secure_dir ds) (\<lambda>_. ?P False)"
    "ensures (?P False) ?R (ensureOperator lib dir dot rots) (\<lambda>_. ?P False)"
    "ensures (?P False) ?R (ensureAccounts lib dir ad model ars) (\<lambda>_. ?P False)" for ds dot rots ad ars
    by (rule due_operator due_accounts st_for [OF rt.guarantee_axioms due_secure(3)] steps_ensures)+
  have post: "ensures (?P True) ?R (bindIO (case x of None \<Rightarrow> returnIO res
       | Some dmzSK \<Rightarrow> mintDMZConsumers lib res model dir dmzSK pub') (\<lambda>res. writeResolverBundle lib res accts pubs sk dir rd))
     (\<lambda>_. ?P True)" for x res pub' accts pubs sk rd
  proof -
    have "steps (?P True) ?R (bindIO (case x of None \<Rightarrow> returnIO res
       | Some dmzSK \<Rightarrow> mintDMZConsumers lib res model dir dmzSK pub') (\<lambda>res. writeResolverBundle lib res accts pubs sk dir rd))"
      by (intro steps due_consumers due_bundle)
    then show ?thesis by (simp add: steps_def)
  qed
  have fails: "ensures (?P False) ?R (throwIO e :: (issue_error, IssueResult) io) (\<lambda>_. ?P True)" for e
    by (simp add: ensures_def throwIO_def rt.evolves_refl)
  have run: "ensures (?P False) ?R (IssueWithRotation lib (Some model) (Some iv) (Some t) dir spec) (\<lambda>_. ?P True)"
  proof -
    have mints: "ensures (?P False) ?R (bindIO (mintCabinets lib res model iv (Some t) dir (rs_Cabinets spec) sks pubs) g)
        (\<lambda>_. ?P True)" if "\<And>x. ensures (?P True) ?R (g x) (\<lambda>_. ?P True)" for res sks pubs and g :: "IssueResult \<Rightarrow> (issue_error, IssueResult) io"
      by (rule rt.ens_bind [OF due_mintCabinets [OF assms(1-9)] that])
    show ?thesis unfolding IssueWithRotation_def Let_def option.case
      by (auto intro!: fails rt.ens_bind [OF pre(1)] rt.ens_bind [OF pre(2)] rt.ens_bind [OF pre(3)] mints post)
  qed
  have start: "?P False (w_fs w)" using assms(10,11) by (simp add: due_def is_reg_def)
  have "evolves ?R w w'" by (rule ensuresD(1) [OF run start assms(13)])
  then show ?thesis using assms(10,12) by (auto simp: evolves_def retires_def)
qed

definition ex_rotation_cabinet :: Cabinet where
  "ex_rotation_cabinet = \<lparr>cab_ID = ''c2'', cab_Partition = ''d7/0'', cab_Filter = ''vikasa.exdot.d7.speed''\<rparr>"

definition ex_rotation_inventory :: Inventory where
  "ex_rotation_inventory = \<lparr>inv_DOT = ''exdot'', inv_Cabinets = [ex_rotation_cabinet]\<rparr>"

definition ex_rotation_model :: Model where
  "ex_rotation_model = \<lparr>m_DOT = ''exdot'', m_Accounts =
     [\<lparr>ac_Name = ''DISTRICT_D7'', ac_JetStream = True, ac_Exports = [], ac_Imports = [], ac_Users = []\<rparr>]\<rparr>"

definition ex_rotation :: RotationSpec where
  "ex_rotation = \<lparr>rs_Cabinets = [''c2''], rs_OperatorSK = False, rs_AccountSK = []\<rparr>"

definition ex_creds :: string where "ex_creds = ''U'' @ [newline] @ ''s''"

definition ex_rotation_world :: world where
  "ex_rotation_world = ex_ca_world
     [([''b'', ''cabinets'', ''d7'', ''c2.creds''], Reg 0x180 ex_creds), ([''b'', ''cabinets'', ''d7''], Dir 0x1C0),
      ([''b'', ''cabinets''], Dir 0x1C0), ([''b''], Dir 0x1C0)]"

lemma ex_rotation_runs:
  "let (r, w') = IssueWithRotation ex_nats (Some ex_rotation_model) (Some ex_rotation_inventory) (Some ex_topology) [''b''] ex_rotation ex_rotation_world
   in \<not> isl r \<and> lookup (w_fs w') [''b'', ''cabinets'', ''d7'', ''c2.creds''] \<noteq> Some (Reg 0x180 ex_creds)"
  by code_simp

lemma ex_rotation_index: "PartitionIndex ex_topology = Inr (projr (PartitionIndex ex_topology))"
    "map_of (projr (PartitionIndex ex_topology)) ''d7/0'' = Some ''d7''"
  by code_simp+

lemma ex_rotation_setup:
  "ex_rotation_cabinet \<in> set (inv_Cabinets ex_rotation_inventory)" "distinct (map cab_ID (inv_Cabinets ex_rotation_inventory))"
  "list_all (\<lambda>c. CHR ''/'' \<notin> set (cab_ID c)) (inv_Cabinets ex_rotation_inventory)"
  "cab_ID ex_rotation_cabinet \<in> set (rs_Cabinets ex_rotation)"
  "map_of (projr (PartitionIndex ex_topology)) (cab_Partition ex_rotation_cabinet) = Some ''d7''"
  "CHR ''/'' \<notin> set ''d7''" "plain_name ''d7''" "old_key ex_nats ex_creds ''U''"
  "lookup (w_fs ex_rotation_world) (creds_path [''b''] ''d7'' (cab_ID ex_rotation_cabinet)) = Some (Reg 0x180 ex_creds)"
  "whole_log [''b''] (w_fs ex_rotation_world)" "w_seen ex_rotation_world = []" "DistrictAccountName ''d7'' = ''DISTRICT_D7''"
proof -
  show "plain_name ''d7''" "DistrictAccountName ''d7'' = ''DISTRICT_D7''" by code_simp+
  show "old_key ex_nats ex_creds ''U''"
    by (simp add: old_key_def ex_nats_def pki_lib.defs nats_lib.defs ex_pki_def ex_creds_def newline_def)
  show "map_of (projr (PartitionIndex ex_topology)) (cab_Partition ex_rotation_cabinet) = Some ''d7''"
    using ex_rotation_index(2) by (simp add: ex_rotation_cabinet_def)
qed (simp_all add: ex_rotation_cabinet_def ex_rotation_inventory_def ex_rotation_def ex_rotation_world_def ex_ca_world_def
  creds_path_def lookup_def whole_log_def log_path_eq content_def whole_lines_def)

text \<open>The run of the example succeeds, so its credential was replaced and the key is in the log.\<close>

theorem IssueWithRotation_logs_first_witness:
  "let (r, w') = IssueWithRotation ex_nats (Some ex_rotation_model) (Some ex_rotation_inventory) (Some ex_topology) [''b'']
     ex_rotation ex_rotation_world
   in \<not> isl r \<and> ''U'' \<in> logged ex_nats [''b''] ''DISTRICT_D7'' (w_fs w')"
proof -
  let ?run = "IssueWithRotation ex_nats (Some ex_rotation_model) (Some ex_rotation_inventory) (Some ex_topology) [''b'']
     ex_rotation ex_rotation_world"
  obtain r w' where run: "?run = (r, w')" by (cases ?run)
  note ex = ex_rotation_setup
  have "\<forall>s\<in>set (w_fs w' # w_seen w'). lookup s (creds_path [''b''] ''d7'' (cab_ID ex_rotation_cabinet)) = Some (Reg 0x180 ex_creds) \<or>
      ''U'' \<in> logged ex_nats [''b''] (DistrictAccountName ''d7'') s"
    by (rule IssueWithRotation_logs_first [OF ex(1-4) ex_rotation_index(1) ex(5-11) run])
  then show ?thesis using ex_rotation_runs by (auto simp: run ex(12) creds_path_def ex_rotation_cabinet_def)
qed

end
