(* ===== verification/Issue_Revoked.thy ===== *)
theory Issue_Revoked
  imports Issue_Rotation
begin

section \<open>Rotated keys are revoked in the resolver\<close>

text \<open>
  The last link of a rotation: what the audit log holds when the account JWTs are written ends up as
  a revocation in the JWT of its account, which is what the NATS servers load. The lemmas follow one
  successful run from its result backwards: the loop over the accounts, the revocations it was given,
  the log they were read from.
\<close>

subsection \<open>One account\<close>

definition jwt_path :: "path \<Rightarrow> acct \<Rightarrow> path" where
  "jwt_path rd a = Join rd (at_pub a @ ''.jwt'')"

lemma jwt_path_ext: "has_ext ''.jwt'' (jwt_path rd a)"
  unfolding jwt_path_def by (rule has_ext_Join [OF proper_exts(3)])

definition account_result :: "acct \<Rightarrow> AccountResult" where
  "account_result a = \<lparr>ar_Name = ac_Name (at_def a), ar_Pub = at_pub a, ar_Minted = at_minted a, ar_SigningPub = at_skPub a,
     ar_SigningMinted = at_skMinted a, ar_SigningRotated = at_skRotated a\<rparr>"

lemma account_result_simps [simp]: "ar_Pub (account_result a) = at_pub a" "ar_Name (account_result a) = ac_Name (at_def a)"
  by (simp_all add: account_result_def)

definition published :: "nats_lib \<Rightarrow> path \<Rightarrow> revokedEntry list gomap \<Rightarrow> acct \<Rightarrow> fs \<Rightarrow> bool" where
  "published lib rd revoked a s \<longleftrightarrow>
     (\<exists>ims sk t jwt m.
        EncodeAccount lib (account_claims_of a ims (entries revoked (ac_Name (at_def a)))) sk t = Inr jwt \<and>
        lookup s (jwt_path rd a) = Some (Reg m jwt))"

lemma WriteFile_Inr:
  assumes "WriteFile p d m w = (Inr u, w')"
  shows "(\<exists>m'. lookup (w_fs w') p = Some (Reg m' d)) \<or> p = []" and "q \<noteq> p \<Longrightarrow> lookup (w_fs w') q = lookup (w_fs w) q"
proof -
  have frame: "lookup (w_fs w') q = lookup (w_fs w) q \<and> (\<exists>m'. lookup (w_fs w') p = Some (Reg m' d))" if "p \<noteq> q" for q
    using ensuresD [OF frame_WriteFile [OF that, where P = "\<lambda>_. True"] TrueI assms]
    by (auto simp: evolves_def unchanged_def)
  show "q \<noteq> p \<Longrightarrow> lookup (w_fs w') q = lookup (w_fs w) q" using frame [of q] by auto
  show "(\<exists>m'. lookup (w_fs w') p = Some (Reg m' d)) \<or> p = []" using frame [of "[]"] by auto
qed

lemma Now_Inr: "Now w = (Inr t, w') \<Longrightarrow> w_fs w' = w_fs w"
  by (auto simp: Now_def)

lemma write_account_run:
  assumes "write_account lib revoked pubs sk rd st a w = (Inr st', w')"
  shows "published lib rd revoked a (w_fs w') \<and> ir_Accounts (fst st') = ir_Accounts (fst st) @ [account_result a] \<and>
    (\<forall>q. q \<noteq> jwt_path rd a \<longrightarrow> lookup (w_fs w') q = lookup (w_fs w) q)"
proof -
  let ?n = "ac_Name (at_def a)"
  from assms(1) obtain ims w0 t w1 jwt w2 u w3 where raw:
    "liftIO (import_claims ?n pubs (ac_Imports (at_def a))) w = (Inr ims, w0)" "(Now :: (issue_error, _) io) w0 = (Inr t, w1)"
    "wrapIO (EncodeAccountJWT ?n)
      (libIO (EncodeAccount lib (account_claims_of a ims (entries revoked ?n)) sk t)) w1 = (Inr jwt, w2)"
    "wrapIO WriteAccountJWT (osIO (WriteFile (Join rd (at_pub a @ ''.jwt'')) jwt 0x1A4)) w2 = (Inr u, w3)"
    "(returnIO ((fst st)\<lparr>ir_Revoked := ir_Revoked (fst st) + length (entries revoked ?n),
       ir_Accounts := ir_Accounts (fst st) @ [\<lparr>ar_Name = ?n, ar_Pub = at_pub a, ar_Minted = at_minted a,
         ar_SigningPub = at_skPub a, ar_SigningMinted = at_skMinted a, ar_SigningRotated = at_skRotated a\<rparr>]\<rparr>, snd st @ [?n @ '' '' @ at_pub a]) :: (issue_error, _) io) w3 = (Inr st', w')"
    unfolding write_account_def Let_def by (elim bindIO_InrE) (rule that)
  then have run: "(Now :: (issue_error, _) io) w = (Inr t, w1)"
    "EncodeAccount lib (account_claims_of a ims (entries revoked ?n)) sk t = Inr jwt"
    "WriteFile (jwt_path rd a) jwt 0x1A4 w1 = (Inr u, w')" and
    res: "ir_Accounts (fst st') = ir_Accounts (fst st) @ [account_result a]"
    by (auto simp: liftIO_Inr libIO_Inr wrapIO_Inr osIO_Inr returnIO_def jwt_path_def account_result_def)
  note wr = WriteFile_Inr [OF run(3)]
  have "jwt_path rd a \<noteq> []" using jwt_path_ext by (simp add: has_ext_def)
  with wr(1) run(2) have "published lib rd revoked a (w_fs w')"
    unfolding published_def by blast
  moreover have "lookup (w_fs w') q = lookup (w_fs w) q" if "q \<noteq> jwt_path rd a" for q
    using wr(2) [OF that] Now_Inr [OF run(1)] by simp
  ultimately show ?thesis using res by blast
qed

lemma published_same: "published lib rd revoked a s \<Longrightarrow> lookup s' (jwt_path rd a) = lookup s (jwt_path rd a) \<Longrightarrow>
    published lib rd revoked a s'"
  by (simp add: published_def)

lemma write_accounts_run:
  assumes "foldIO (write_account lib revoked pubs sk rd) st as w = (Inr st', w')"
  shows "ir_Accounts (fst st') = ir_Accounts (fst st) @ map account_result as \<and>
    (\<forall>q. q \<notin> jwt_path rd ` set as \<longrightarrow> lookup (w_fs w') q = lookup (w_fs w) q) \<and>
    (distinct (map (jwt_path rd) as) \<longrightarrow> (\<forall>a\<in>set as. published lib rd revoked a (w_fs w')))"
  using assms
proof (induction as arbitrary: st w)
  case Nil
  then show ?case by (simp add: returnIO_def)
next
  case (Cons a as)
  from Cons.prems(1) obtain st1 w1 where one: "write_account lib revoked pubs sk rd st a w = (Inr st1, w1)"
    and rest: "foldIO (write_account lib revoked pubs sk rd) st1 as w1 = (Inr st', w')"
    unfolding foldIO.simps by (elim bindIO_InrE)
  have head: "published lib rd revoked a (w_fs w1) \<and> ir_Accounts (fst st1) = ir_Accounts (fst st) @ [account_result a] \<and>
      (\<forall>q. q \<noteq> jwt_path rd a \<longrightarrow> lookup (w_fs w1) q = lookup (w_fs w) q)"
    by (rule write_account_run [OF one])
  have tail: "ir_Accounts (fst st') = ir_Accounts (fst st1) @ map account_result as \<and>
    (\<forall>q. q \<notin> jwt_path rd ` set as \<longrightarrow> lookup (w_fs w') q = lookup (w_fs w1) q) \<and>
    (distinct (map (jwt_path rd) as) \<longrightarrow> (\<forall>a\<in>set as. published lib rd revoked a (w_fs w')))"
    by (rule Cons.IH [OF rest])
  have "published lib rd revoked a (w_fs w')" if "distinct (map (jwt_path rd) (a # as))"
    by (rule published_same [of lib rd revoked a "w_fs w1"]) (use head tail that in simp_all)
  with tail have "distinct (map (jwt_path rd) (a # as)) \<longrightarrow> (\<forall>x\<in>set (a # as). published lib rd revoked x (w_fs w'))" by simp
  moreover have "lookup (w_fs w') q = lookup (w_fs w) q" if "q \<notin> jwt_path rd ` set (a # as)" for q
    using head tail that by simp
  moreover have "ir_Accounts (fst st') = ir_Accounts (fst st) @ map account_result (a # as)" using head tail by simp
  ultimately show ?case by blast
qed

subsection \<open>The bundle\<close>

lemma loadRevocations_quiet: "quiet (loadRevocations lib p)"
  unfolding loadRevocations_def by (intro quiet) (simp add: quiet split: sum.split)

lemma jwt_path_other:
  assumes "has_ext e q" and "e \<in> {''.index'', ''.conf''}"
  shows "jwt_path rd a \<noteq> q"
proof -
  have "''.jwt'' \<in> set issue_exts" "e \<in> set issue_exts" "''.jwt'' \<noteq> e" using assms(2) by (auto simp: issue_exts_def)
  then show ?thesis by (rule ext_neq [OF jwt_path_ext assms(1)])
qed

lemma bundle_published:
  assumes "writeResolverBundle lib res0 accts pubs sk dir rd w = (Inr res, w')"
    and "list_all (\<lambda>r. CHR ''/'' \<notin> set (ar_Pub r)) (ir_Accounts res)" and "distinct (map ar_Pub (ir_Accounts res))"
    and "a \<in> set accts"
  shows "published lib rd (load_log lib (content (w_fs w) (log_path dir))) a (w_fs w') \<and> account_result a \<in> set (ir_Accounts res)"
proof -
  from assms(1) obtain revoked w1 st w2 u w3 v w4 where raw:
    "wrapIO LoadRevocations (loadRevocations lib (auditLogPath dir retiredLogFile)) w = (Inr revoked, w1)"
    "foldIO (write_account lib revoked pubs sk rd) (res0, []) accts w1 = (Inr st, w2)"
    "wrapIO WriteIndex (osIO (WriteFile (Join dir ''accounts.index'') (join [newline] (sort (snd st)) @ [newline]) 0x1A4)) w2 = (Inr u, w3)"
    "wrapIO WriteResolverConf (osIO (WriteFile (Join dir ''resolver.conf'') resolverConf 0x1A4)) w3 = (Inr v, w4)"
    "(returnIO (fst st) :: (issue_error, _) io) w4 = (Inr res, w')"
    unfolding writeResolverBundle_def case_prod_unfold by (elim bindIO_InrE) (rule that)
  note load = raw(1) [unfolded wrapIO_Inr] and fold = raw(2) and wr = raw(3,4) [unfolded wrapIO_Inr osIO_Inr]
  have res: "res = fst st" "w' = w4" using raw(5) by (simp_all add: returnIO_def)
  have log: "revoked = load_log lib (content (w_fs w) (log_path dir))"
    using loadRevocations_content [OF load] by (simp add: log_path_def)
  note accts = write_accounts_run [OF fold]
  from accts have results: "ir_Accounts res = ir_Accounts res0 @ map account_result accts" by (simp add: res(1))
  have free: "CHR ''/'' \<notin> set (at_pub x)" if "x \<in> set accts" for x
  proof -
    have "list_all (\<lambda>x. CHR ''/'' \<notin> set (at_pub x)) accts"
      using assms(2) by (simp add: results list.pred_map comp_def)
    with that show ?thesis by (simp add: list_all_iff)
  qed
  have "distinct (map at_pub accts)"
    using assms(3) by (simp add: results comp_def)
  then have "distinct (map (jwt_path rd) accts)"
    using free by (auto simp: distinct_map inj_on_def jwt_path_def Join_slash_free [OF _ proper_exts(3)])
  moreover have "lookup (w_fs w') (jwt_path rd a) = lookup (w_fs w2) (jwt_path rd a)"
    using WriteFile_Inr(2) [OF wr(1), of "jwt_path rd a"] WriteFile_Inr(2) [OF wr(2), of "jwt_path rd a"]
      jwt_path_other [OF names_ext(2)] jwt_path_other [OF names_ext(3)] by (simp add: res(2))
  ultimately show ?thesis
    using accts assms(4) published_same [of lib rd revoked a "w_fs w2" "w_fs w'"] by (auto simp: results log)
qed

subsection \<open>The cabinet's account\<close>

text \<open>In a loop that succeeds, every step has.\<close>

lemma foldIO_Inr_step:
  assumes "foldIO f s xs w = (Inr s', w')" and "x \<in> set xs"
  obtains t v t' v' where "f t x v = (Inr t', v')"
  using assms by (induction xs arbitrary: s w) (auto elim!: bindIO_InrE)

lemma map_of_fold_update:
  "map_of (fold (\<lambda>a. AList.update (f a) (g a)) xs m) k = Some v \<Longrightarrow> map_of m k = None \<Longrightarrow> k \<in> f ` set xs"
proof (induction xs arbitrary: m)
  case (Cons x xs)
  then show ?case by (cases "f x = k") (auto simp: update_conv')
qed simp

lemma mintCabinets_account:
  assumes "mintCabinets lib res model iv (Some t) dir rots sks pubs w = (Inr res', w')"
    and "c \<in> set (inv_Cabinets iv)" and "PartitionIndex t = Inr idx" and "map_of idx (cab_Partition c) = Some d"
  obtains k where "map_of sks (DistrictAccountName d) = Some k"
proof -
  from assms(1,3) obtain ca cc w1 where
    "foldIO (mint_one_cabinet lib model t idx dir rots sks pubs (SignClientCert (pki_lib.truncate lib) ca))
       (res\<lparr>ir_CACreated := cc\<rparr>) (inv_Cabinets iv) w1 = (Inr res', w')"
    by (auto simp: mintCabinets_def throwIO_def case_prod_unfold split: if_splits elim!: bindIO_InrE)
  then obtain r v r' v' where
    "mint_one_cabinet lib model t idx dir rots sks pubs (SignClientCert (pki_lib.truncate lib) ca) r c v = (Inr r', v')"
    using assms(2) by (rule foldIO_Inr_step)
  then obtain y where "cabinet_scope model t idx sks c = Inr y"
    unfolding mint_one_cabinet_def by (elim bindIO_InrE) (simp add: liftIO_Inr)
  then have "map_of sks (DistrictAccountName d) \<noteq> None"
    using assms(4) by (auto simp: cabinet_scope_def Let_def split: if_splits option.splits prod.splits bool.splits)
  then show ?thesis using that by blast
qed

subsection \<open>A successful run\<close>

fun revoked_key :: "revocation \<Rightarrow> string" where
  "revoked_key (RevokeNow pub) = pub"
| "revoked_key (RevokeAt pub _) = pub"

lemma revoked_key_of: "revoked_key (revocation_of e) = re_Pub e"
  by (simp add: revocation_of_def)

text \<open>The account JWT at a path: signed claims about the account that revoke the key.\<close>

definition jwt_revokes :: "nats_lib \<Rightarrow> fs \<Rightarrow> path \<Rightarrow> string \<Rightarrow> string \<Rightarrow> bool" where
  "jwt_revokes lib s p acct_pub pub \<longleftrightarrow>
     (\<exists>claims sk t jwt m. EncodeAccount lib claims sk t = Inr jwt \<and> lookup s p = Some (Reg m jwt) \<and>
        acl_Subject claims = acct_pub \<and> pub \<in> revoked_key ` set (acl_Revocations claims))"

lemma published_revokes:
  assumes "published lib rd (load_log lib (content s0 (log_path dir))) a s" and "pub \<in> logged lib dir (ac_Name (at_def a)) s0"
  shows "jwt_revokes lib s (jwt_path rd a) (at_pub a) pub"
proof -
  let ?es = "entries (load_log lib (content s0 (log_path dir))) (ac_Name (at_def a))"
  from assms(1) obtain ims sk t jwt m where
    "EncodeAccount lib (account_claims_of a ims ?es) sk t = Inr jwt" "lookup s (jwt_path rd a) = Some (Reg m jwt)"
    unfolding published_def by blast
  moreover have "pub \<in> revoked_key ` set (acl_Revocations (account_claims_of a ims ?es))"
    using assms(2) by (simp add: logged_def revoked_for_def entries_def account_claims_of_def image_image revoked_key_of)
  moreover have "acl_Subject (account_claims_of a ims ?es) = at_pub a" by (simp add: account_claims_of_def)
  ultimately show ?thesis unfolding jwt_revokes_def by blast
qed

text \<open>The phases of a successful run with cabinets.\<close>

lemma IssueWithRotation_phases:
  assumes "IssueWithRotation lib (Some model) (Some iv) (Some t) dir spec w = (Inr res, w')"
  obtains w1 skKP w2 accts pubs w3 res0 sks res1 w4 x p res2 w5 opr where
    "forIO secure_dir (bundle_dirs dir) w = (Inr (), w1)"
    and "ensureOperator lib dir (m_DOT model) (rs_OperatorSK spec) w1 = (Inr opr, w2)"
    and "ensureAccounts lib dir (Join dir ''accounts'') model (rs_AccountSK spec) w2 = (Inr (accts, pubs), w3)"
    and "sks = fold (\<lambda>a. AList.update (ac_Name (at_def a)) (at_skKP a)) accts []"
    and "mintCabinets lib res0 model iv (Some t) dir (rs_Cabinets spec) sks pubs w3 = (Inr res1, w4)"
    and "(case x of None \<Rightarrow> returnIO res1 | Some dmzSK \<Rightarrow> mintDMZConsumers lib res1 model dir dmzSK p) w4 = (Inr res2, w5)"
    and "writeResolverBundle lib res2 accts pubs skKP dir (Join dir ''resolver'') w5 = (Inr res, w')"
  using assms unfolding IssueWithRotation_def Let_def option.case
  by (auto simp: throwIO_def case_prod_unfold split: if_splits elim!: bindIO_InrE)

text \<open>
  C2. A successful rotation revokes the old credential where the servers look: when a run that rotates
  the cabinet \<open>c\<close> succeeds, the resolver directory holds, under the public key of the district's
  account, a JWT signed for that account whose revocations contain the public key \<open>pub\<close> that the
  credential had before the run.
\<close>

theorem IssueWithRotation_revokes:
  assumes "c \<in> set (inv_Cabinets iv)" and "distinct (map cab_ID (inv_Cabinets iv))"
    and "list_all (\<lambda>c. CHR ''/'' \<notin> set (cab_ID c)) (inv_Cabinets iv)"
    and "cab_ID c \<in> set (rs_Cabinets spec)" and "PartitionIndex t = Inr idx" and "map_of idx (cab_Partition c) = Some d"
    and "CHR ''/'' \<notin> set d" and "plain_name d" and "old_key lib creds pub"
    and "lookup (w_fs w) (creds_path dir d (cab_ID c)) = Some (Reg m creds)" and "whole_log dir (w_fs w)"
    and "IssueWithRotation lib (Some model) (Some iv) (Some t) dir spec w = (Inr res, w')"
    and "list_all (\<lambda>r. CHR ''/'' \<notin> set (ar_Pub r)) (ir_Accounts res)" and "distinct (map ar_Pub (ir_Accounts res))"
  shows "\<exists>r\<in>set (ir_Accounts res). ar_Name r = DistrictAccountName d \<and>
    jwt_revokes lib (w_fs w') (Join (Join dir ''resolver'') (ar_Pub r @ ''.jwt'')) (ar_Pub r) pub"
proof -
  let ?P = "\<lambda>b. due b lib dir (creds_path dir d (cab_ID c)) (Reg m creds) (DistrictAccountName d) pub"
  from assms(12) obtain w1 skKP w2 accts pubs w3 res0 sks res1 w4 x p res2 w5 opr where
    run: "forIO secure_dir (bundle_dirs dir) w = (Inr (), w1)"
      "ensureOperator lib dir (m_DOT model) (rs_OperatorSK spec) w1 = (Inr opr, w2)"
      "ensureAccounts lib dir (Join dir ''accounts'') model (rs_AccountSK spec) w2 = (Inr (accts, pubs), w3)"
    and sks: "sks = fold (\<lambda>a. AList.update (ac_Name (at_def a)) (at_skKP a)) accts []"
    and mint: "mintCabinets lib res0 model iv (Some t) dir (rs_Cabinets spec) sks pubs w3 = (Inr res1, w4)"
    and dmz: "(case x of None \<Rightarrow> returnIO res1 | Some dmzSK \<Rightarrow> mintDMZConsumers lib res1 model dir dmzSK p) w4 = (Inr res2, w5)"
    and written: "writeResolverBundle lib res2 accts pubs skKP dir (Join dir ''resolver'') w5 = (Inr res, w')"
    by (rule IssueWithRotation_phases)
  have "?P False (w_fs w)" using assms(10,11) by (simp add: due_def is_reg_def)
  from ensuresD(2) [OF steps_ensures [OF st_for [OF rt.guarantee_axioms due_secure(3)]] this run(1) refl]
  have "?P False (w_fs w1)" .
  from ensuresD(2) [OF steps_ensures [OF due_operator] this run(2) refl] have "?P False (w_fs w2)" .
  from ensuresD(2) [OF steps_ensures [OF due_accounts] this run(3) refl] have "?P False (w_fs w3)" .
  from ensuresD(2) [OF due_mintCabinets [OF assms(1-9)] this mint refl] have minted: "?P True (w_fs w4)" .
  have "steps (?P True) (retires lib dir (creds_path dir d (cab_ID c)) (DistrictAccountName d) pub)
      (case x of None \<Rightarrow> returnIO res1 | Some dmzSK \<Rightarrow> mintDMZConsumers lib res1 model dir dmzSK p)"
    by (intro steps due_consumers)
  from ensuresD(2) [OF steps_ensures [OF this] minted dmz refl] have "?P True (w_fs w5)" .
  then have log: "pub \<in> logged lib dir (DistrictAccountName d) (w_fs w5)" by (simp add: due_def)
  obtain k where "map_of sks (DistrictAccountName d) = Some k"
    using mintCabinets_account [OF mint assms(1,5,6)] .
  then obtain a where a: "a \<in> set accts" "ac_Name (at_def a) = DistrictAccountName d"
    unfolding sks by (auto dest!: map_of_fold_update)
  from bundle_published [OF written assms(13,14) a(1)] log a(2)
  have "jwt_revokes lib (w_fs w') (jwt_path (Join dir ''resolver'') a) (at_pub a) pub \<and> account_result a \<in> set (ir_Accounts res)"
    by (auto intro: published_revokes)
  then show ?thesis using a(2) by (intro bexI [of _ "account_result a"]) (auto simp: jwt_path_def)
qed

lemma ex_rotation_accounts:
  "let (r, w') = IssueWithRotation ex_nats (Some ex_rotation_model) (Some ex_rotation_inventory) (Some ex_topology) [''b''] ex_rotation ex_rotation_world
   in case r of Inl e \<Rightarrow> False
      | Inr res \<Rightarrow> list_all (\<lambda>r. CHR ''/'' \<notin> set (ar_Pub r)) (ir_Accounts res) \<and> distinct (map ar_Pub (ir_Accounts res))"
  by code_simp

theorem IssueWithRotation_revokes_witness:
  "let (r, w') = IssueWithRotation ex_nats (Some ex_rotation_model) (Some ex_rotation_inventory) (Some ex_topology) [''b''] ex_rotation ex_rotation_world
   in case r of Inl e \<Rightarrow> False
      | Inr res \<Rightarrow> list_ex (\<lambda>a. ar_Name a = ''DISTRICT_D7'' \<and>
          jwt_revokes ex_nats (w_fs w') (Join (Join [''b''] ''resolver'') (ar_Pub a @ ''.jwt'')) (ar_Pub a) ''U'') (ir_Accounts res)"
proof -
  let ?run = "IssueWithRotation ex_nats (Some ex_rotation_model) (Some ex_rotation_inventory) (Some ex_topology) [''b'']
     ex_rotation ex_rotation_world"
  obtain r w' where run: "?run = (r, w')" by (cases ?run)
  with ex_rotation_accounts obtain res where res: "r = Inr res" "list_all (\<lambda>r. CHR ''/'' \<notin> set (ar_Pub r)) (ir_Accounts res)"
    "distinct (map ar_Pub (ir_Accounts res))" by (cases r) auto
  note ex = ex_rotation_setup
  have "\<exists>a\<in>set (ir_Accounts res). ar_Name a = DistrictAccountName ''d7'' \<and>
    jwt_revokes ex_nats (w_fs w') (Join (Join [''b''] ''resolver'') (ar_Pub a @ ''.jwt'')) (ar_Pub a) ''U''"
    by (rule IssueWithRotation_revokes [OF ex(1-4) ex_rotation_index(1) ex(5-10) run [unfolded res(1)] res(2,3)])
  then show ?thesis by (simp add: run res(1) list_ex_iff ex(12))
qed

end
