(* ===== verification/Issue_Cmd.thy ===== *)
theory Issue_Cmd
  imports Issuance
begin

section \<open>The issuing command\<close>

text \<open>
  File cmd/issue/main.go: the options of the command, the choice of the cabinets to rotate and the
  call of the issuer. The decoded input files and what the scan finds at the output directory are
  arguments; the selection is in theory CredHealth. The outcome is the preview of a dry run or the
  result that is printed.
\<close>

record issueOptions =
  is_spec :: spec_file
  is_out :: path
  is_cabinets :: "inventory_file option" \<comment> \<open>None for the empty path\<close>
  is_rotate :: string
  is_rotateExpiring :: int
  is_apply :: bool
  is_rotateOperatorSK :: bool
  is_rotateAccountSK :: string

datatype issue_cmd_error =
    IssueLoadSpec topo_error | IssueBuildAccounts accounts_error | IssueLoadCabinets fleet_error
  | RotateRequiresCabinets | ApplyWithoutExpiring | SelectExpiringFailed scan_error | IssueFailed issue_error

text \<open>The numbers of the summary that is printed at the end.\<close>

record issue_counts =
  ic_Accounts :: "nat \<times> nat" \<comment> \<open>minted and reused\<close>
  ic_SigningKeys :: "nat \<times> nat \<times> nat" \<comment> \<open>minted, reused and rotated\<close>
  ic_Cabinets :: "nat \<times> nat"
  ic_Certs :: "nat \<times> nat"

datatype issue_outcome =
    DryRun "string list" "string list" \<comment> \<open>the cabinets it would rotate, and those it skips\<close>
  | Issued IssueResult issue_counts "string list"

definition count_if :: "('a \<Rightarrow> bool) \<Rightarrow> 'a list \<Rightarrow> nat \<times> nat" where
  \<comment> \<open>\<^theory_text>\<open>if p(x) { yes++ } else { no++ }\<close>\<close>
  "count_if p xs = foldl (\<lambda>(yes, no) x. if p x then (yes + 1, no) else (yes, no + 1)) (0, 0) xs"

definition count_account :: "nat \<times> nat \<times> nat \<Rightarrow> AccountResult \<Rightarrow> nat \<times> nat \<times> nat" where
  "count_account c a =
     (case c of (minted, reused, rotated) \<Rightarrow>
       let (minted, reused) = (if ar_SigningMinted a then (minted + 1, reused) else (minted, reused + 1)) in
       (minted, reused, if ar_SigningRotated a then rotated + 1 else rotated))"

definition count_results :: "IssueResult \<Rightarrow> issue_counts" where
  "count_results res =
     \<lparr>ic_Accounts = count_if ar_Minted (ir_Accounts res),
      ic_SigningKeys = foldl count_account (0, 0, 0) (ir_Accounts res),
      ic_Cabinets = count_if cr_Minted (ir_Cabinets res), ic_Certs = count_if cr_CertMinted (ir_Cabinets res)\<rparr>"

definition split_ids :: "string \<Rightarrow> string list" where
  "split_ids s = filter (\<lambda>i. i \<noteq> []) (map TrimSpace (split_char (CHR '','') s))"

definition issue_inputs ::
    "issueOptions \<Rightarrow> issue_cmd_error + Root \<times> Model \<times> Inventory option" where
  "issue_inputs o1 =
     bindE (case Load (is_spec o1) of Inl e \<Rightarrow> Inl (IssueLoadSpec e) | Inr root \<Rightarrow> Inr root) (\<lambda>root.
     bindE (case BuildAccounts root of Inl e \<Rightarrow> Inl (IssueBuildAccounts e) | Inr model \<Rightarrow> Inr model) (\<lambda>model.
     bindE (case is_cabinets o1 of
         None \<Rightarrow> Inr None
       | Some f \<Rightarrow> (case LoadInventory f of Inl e \<Rightarrow> Inl (IssueLoadCabinets e) | Inr iv \<Rightarrow> Inr (Some iv))) (\<lambda>iv.
     bindE (guardE ((split_ids (is_rotate o1) \<noteq> [] \<or> is_rotateExpiring o1 > 0) \<and> is_cabinets o1 = None)
              RotateRequiresCabinets) (\<lambda>_.
     bindE (guardE (is_apply o1 \<and> is_rotateExpiring o1 = 0) ApplyWithoutExpiring) (\<lambda>_.
     Inr (root, model, iv))))))"

definition issue_rotation ::
    "nats_lib \<Rightarrow> bundle_dir \<Rightarrow> issueOptions \<Rightarrow> Inventory option \<Rightarrow> int \<Rightarrow>
     issue_cmd_error + (string list \<times> string list) option" where
  \<comment> \<open>\<^theory_text>\<open>if o.rotateExpiring > 0\<close>: the cabinets selected and skipped\<close>
  "issue_rotation lib bundle o1 iv now =
     (if is_rotateExpiring o1 > 0 then
        (case selectExpiring (artifact_lib.truncate lib) bundle (is_rotateExpiring o1) now iv of
           Inl e \<Rightarrow> Inl (SelectExpiringFailed e)
         | Inr sel \<Rightarrow> Inr (Some sel))
      else Inr None)"

definition issue_run ::
    "nats_lib \<Rightarrow> bundle_dir \<Rightarrow> issueOptions \<Rightarrow> (issue_cmd_error, issue_outcome) io" where
  "issue_run lib bundle o1 =
     bindIO (liftIO (issue_inputs o1)) (\<lambda>(root, model, iv).
     let issue = (\<lambda>ids skipped.
           bindIO (wrapIO IssueFailed (IssueWithRotation lib (Some model) iv root (is_out o1)
               \<lparr>rs_Cabinets = ids, rs_OperatorSK = is_rotateOperatorSK o1, rs_AccountSK = split_ids (is_rotateAccountSK o1)\<rparr>))
             (\<lambda>res. returnIO (Issued res (count_results res) skipped))) in
     bindIO (if is_rotateExpiring o1 > 0 then Now else returnIO 0) (\<lambda>now.
     bindIO (liftIO (issue_rotation lib bundle o1 iv now)) (\<lambda>sel.
       case sel of
         None \<Rightarrow> issue (split_ids (is_rotate o1)) []
       | Some (selected, skipped) \<Rightarrow>
           if \<not> is_apply o1 then returnIO (DryRun selected skipped)
           else issue (unionStrings (split_ids (is_rotate o1)) selected) skipped)))"

text \<open>
  C38. Without \<^theory_text>\<open>--apply\<close> a sweep for expiring credentials is a preview: whatever it finds, the run
  passes through no other state of the tree than the one it started in, and it issues nothing.
\<close>

theorem issue_run_preview:
  assumes "is_rotateExpiring o1 > 0" and "\<not> is_apply o1" and "issue_run lib bundle o1 w = (r, w')"
  shows "w_fs w' = w_fs w \<and> w_seen w' = w_seen w \<and> (\<forall>res counts skipped. r \<noteq> Inr (Issued res counts skipped))"
  using assms
  by (auto simp: issue_run_def issue_rotation_def bindIO_def liftIO_def Now_def returnIO_def Let_def
      split: sum.splits if_splits prod.splits)

definition ex_sweep :: issueOptions where
  "ex_sweep = \<lparr>is_spec = Decoded (Some ex_wire), is_out = [''creds''], is_cabinets = Some (InventoryRead ex_inventory),
     is_rotate = ''c1, c2'', is_rotateExpiring = 5, is_apply = False, is_rotateOperatorSK = True, is_rotateAccountSK = []\<rparr>"

theorem issue_run_preview_witness:
  "let w = ex_ca_world [] in w_fs (snd (issue_run ex_nats (BundleDir []) ex_sweep w)) = w_fs w \<and>
     w_seen (snd (issue_run ex_nats (BundleDir []) ex_sweep w)) = w_seen w"
proof -
  let ?w = "ex_ca_world []"
  obtain r w' where run: "issue_run ex_nats (BundleDir []) ex_sweep ?w = (r, w')"
    by (cases "issue_run ex_nats (BundleDir []) ex_sweep ?w")
  have "is_rotateExpiring ex_sweep > 0" "\<not> is_apply ex_sweep" by (simp_all add: ex_sweep_def)
  from issue_run_preview [OF this run] show ?thesis unfolding Let_def run by simp
qed

end
