(* ===== verification/Plan.thy ===== *)
theory Plan
  imports Topology
begin

section \<open>The deployment plan\<close>

text \<open>
  Package internal/plan, files plan.go and subject.go: the substrate-independent plan and Build,
  which turns a topology into regional partition streams, one central shard per partition, the
  DMZ egress stream and the leaf DNS records. Build walks the district and partition maps in Go's
  unspecified order; here that order is the order of the association lists, so what is proved for
  every list holds for every order, and \<open>same_topology\<close> relates the lists of one topology.
  The fixed-size integers of the plan never leave the range of a byte or a constant and are
  modelled as \<open>int\<close>.
\<close>

subsection \<open>The plan\<close>

datatype Tier = TierRegional | TierCentral | TierDMZ

definition Wave :: "Tier \<Rightarrow> int" where
  "Wave t = (case t of TierRegional \<Rightarrow> 1 | TierDMZ \<Rightarrow> 2 | TierCentral \<Rightarrow> 0)"

text \<open>Tiers are ordered by provisioning wave.\<close>

instantiation Tier :: linorder
begin

definition less_eq_Tier :: "Tier \<Rightarrow> Tier \<Rightarrow> bool" where
  "less_eq_Tier s t \<longleftrightarrow> Wave s \<le> Wave t"

definition less_Tier :: "Tier \<Rightarrow> Tier \<Rightarrow> bool" where
  "less_Tier s t \<longleftrightarrow> Wave s < Wave t"

instance
  by standard (auto simp: less_eq_Tier_def less_Tier_def Wave_def split: Tier.splits)

end

record Source =
  so_Name :: string
  so_Domain :: string
  so_FilterSubject :: string
  so_TransformSource :: string
  so_TransformDest :: string

record Stream =
  st_Name :: string
  st_Cluster :: string
  st_JSDomain :: string
  st_Replicas :: int
  st_MaxAge :: string
  st_MaxBytes :: int
  st_Duplicates :: string
  st_RePublishSource :: string
  st_RePublishDest :: string
  st_Tier :: Tier
  st_Sources :: "Source list"

record DNSRecord =
  dns_Name :: string
  dns_Target :: string

record Plan =
  pl_DOT :: string
  pl_Streams :: "Stream list"
  pl_DNS :: "DNSRecord list"

record partEntry =
  pe_district :: string
  pe_partition :: string
  pe_cluster :: string
  pe_stream :: string

datatype plan_error =
    NilTopology | NilDot | NilCentral | NilCentralCluster
  | ClusterNotFound string | JsDomainNil string
  | PartitionClusterNil string string
  | StreamNameCollision string string
  | LeafEndpointNil string
  | LeafDNSCollision string
  | ShareOutsideDistricts string
  | PlanPanic

subsection \<open>Constants\<close>

definition gib :: int where "gib = 2 ^ 30"

definition regionalMaxBytes :: int where "regionalMaxBytes = 50 * gib"

definition centralMaxBytes :: int where "centralMaxBytes = 20 * gib"

definition dmzMaxBytes :: int where "dmzMaxBytes = 10 * gib"

definition centralMaxAge :: string where "centralMaxAge = ''15m''"

definition dmzMaxAge :: string where "dmzMaxAge = ''1h''"

definition dmzDedupeWindow :: string where "dmzDedupeWindow = ''5m''"

subsection \<open>Build\<close>

definition getCluster :: "Topology \<Rightarrow> string \<Rightarrow> plan_error + Cluster" where
  "getCluster t i =
     bindE (derefE (gm_ptr (t_Cluster t) i) (ClusterNotFound i)) (\<lambda>c.
     bindE (guardE (c_JsDomain c = None) (JsDomainNil i)) (\<lambda>_. Inr c))"

text \<open>The two nested loops that collect the partitions, and the districts' subject spaces.\<close>

definition partition_entry_of ::
    "string \<Rightarrow> string \<Rightarrow> string \<times> Partition option \<Rightarrow> plan_error + partEntry list" where
  "partition_entry_of dot distID kp =
     (case snd kp of
        None \<Rightarrow> Inr []
      | Some p \<Rightarrow>
          bindE (derefE (pa_Cluster p) (PartitionClusterNil distID (fst kp))) (\<lambda>cl.
            Inr [\<lparr>pe_district = distID, pe_partition = fst kp, pe_cluster = cl,
                  pe_stream = PartitionStreamName dot distID (fst kp)\<rparr>]))"

definition district_entries_of ::
    "string \<Rightarrow> string \<times> District option \<Rightarrow> plan_error + partEntry list" where
  "district_entries_of dot kp =
     (case snd kp of
        None \<Rightarrow> Inr []
      | Some d \<Rightarrow>
          bindE (mapE (partition_entry_of dot (fst kp)) (di_Partition d)) (\<lambda>ps. Inr (concat ps)))"

definition collect_parts :: "string \<Rightarrow> District option gomap \<Rightarrow> plan_error + partEntry list" where
  "collect_parts dot ds =
     bindE (mapE (district_entries_of dot) ds) (\<lambda>pss. Inr (concat pss))"

definition district_spaces :: "string \<Rightarrow> District option gomap \<Rightarrow> string gomap" where
  "district_spaces dot ds =
     concat (map (\<lambda>kp. case snd kp of None \<Rightarrow> []
                       | Some d \<Rightarrow> [(fst kp, SubjectSpace dot (fst kp) (di_SubjectPrefix d))]) ds)"

fun check_collisions :: "partEntry list \<Rightarrow> plan_error + unit" where
  \<comment> \<open>\<^theory_text>\<open>for i := 1; i < len(parts); i++\<close> over neighbours\<close>
  "check_collisions (p # q # ps) =
     bindE (guardE (pe_stream q = pe_stream p) (StreamNameCollision (pe_partition p) (pe_partition q)))
       (\<lambda>_. check_collisions (q # ps))"
| "check_collisions _ = Inr ()"

subsubsection \<open>Regional streams\<close>

definition regional_stream :: "partEntry \<Rightarrow> string \<Rightarrow> Stream" where
  "regional_stream p jsDomain =
     \<lparr>st_Name = pe_stream p, st_Cluster = pe_cluster p, st_JSDomain = jsDomain, st_Replicas = 3,
      st_MaxAge = ''6h'', st_MaxBytes = regionalMaxBytes, st_Duplicates = [],
      st_RePublishSource = [], st_RePublishDest = [], st_Tier = TierRegional, st_Sources = []\<rparr>"

definition central_source :: "partEntry \<Rightarrow> string \<Rightarrow> Source" where
  "central_source p jsDomain =
     \<lparr>so_Name = pe_stream p, so_Domain = jsDomain, so_FilterSubject = [], so_TransformSource = [],
      so_TransformDest = []\<rparr>"

type_synonym regional_state = "Stream list \<times> Source list \<times> DNSRecord list \<times> string gomap"

fun regional_step ::
    "string \<Rightarrow> Topology \<Rightarrow> regional_state \<Rightarrow> partEntry \<Rightarrow> plan_error + regional_state" where
  "regional_step dot t (streams, sources, dns, dnsSeen) p =
     bindE (getCluster t (pe_cluster p)) (\<lambda>cluster.
     bindE (derefE (c_LeafEndpoint cluster) (LeafEndpointNil (pe_cluster p))) (\<lambda>leafEndpoint.
     bindE (derefE (c_JsDomain cluster) PlanPanic) (\<lambda>jsDomain.
     let dnsName = LeafDNSName dot (pe_partition p);
         key = pe_district p @ ''/'' @ pe_partition p
     in if map_of dnsSeen dnsName \<noteq> None then Inl (LeafDNSCollision dnsName)
        else Inr (streams @ [regional_stream p jsDomain],
                  sources @ [central_source p jsDomain],
                  dns @ [\<lparr>dns_Name = dnsName, dns_Target = leafEndpoint\<rparr>],
                  AList.update dnsName key dnsSeen))))"

definition buildRegional ::
    "string \<Rightarrow> Topology \<Rightarrow> partEntry list \<Rightarrow>
     plan_error + (Stream list \<times> Source list \<times> DNSRecord list)" where
  "buildRegional dot t parts =
     bindE (foldE (regional_step dot t) ([], [], [], []) parts) (\<lambda>(streams, sources, dns, seen).
       Inr (streams, sources, sort_key dns_Name dns))"

subsubsection \<open>Central shards\<close>

definition central_shard :: "string \<Rightarrow> string \<Rightarrow> string \<Rightarrow> int \<Rightarrow> partEntry \<Rightarrow> Source \<Rightarrow> Stream" where
  "central_shard dot cluster jsDomain replicas part src =
     \<lparr>st_Name = CentralShardStreamName dot (pe_district part) (pe_partition part),
      st_Cluster = cluster, st_JSDomain = jsDomain, st_Replicas = replicas,
      st_MaxAge = centralMaxAge, st_MaxBytes = centralMaxBytes, st_Duplicates = [],
      st_RePublishSource = [], st_RePublishDest = [], st_Tier = TierCentral, st_Sources = [src]\<rparr>"

definition append_at :: "string \<Rightarrow> 'a \<Rightarrow> 'a list gomap \<Rightarrow> 'a list gomap" where
  \<comment> \<open>\<^theory_text>\<open>m[k] = append(m[k], x)\<close>\<close>
  "append_at k x m = AList.update k ((case map_of m k of None \<Rightarrow> [] | Some xs \<Rightarrow> xs) @ [x]) m"

definition buildCentralShards ::
    "string \<Rightarrow> Topology \<Rightarrow> Central \<Rightarrow> partEntry list \<Rightarrow> Source list \<Rightarrow>
     plan_error + (Stream list \<times> Cluster \<times> string list gomap)" where
  "buildCentralShards dot t central parts centralSources =
     bindE (derefE (ce_Cluster central) PlanPanic) (\<lambda>centralClusterID.
     bindE (getCluster t centralClusterID) (\<lambda>centralCluster.
     bindE (derefE (c_JsDomain centralCluster) PlanPanic) (\<lambda>centralJSDomain.
     let centralReplicas = (case ce_Replicas central of None \<Rightarrow> 3 | Some n \<Rightarrow> uint n)
     in if length parts > length centralSources then Inl PlanPanic
        else Inr (map (\<lambda>(part, src).
                    central_shard dot centralClusterID centralJSDomain centralReplicas part src)
                    (zip parts centralSources),
                  centralCluster,
                  fold (\<lambda>part. append_at (pe_district part)
                    (CentralShardStreamName dot (pe_district part) (pe_partition part))) parts []))))"

subsubsection \<open>The DMZ stream\<close>

text \<open>Go walks \<open>districtSpace\<close> anew, in any order, for each share; here every walk has the order of the list.\<close>

definition districtOf :: "string gomap \<Rightarrow> string \<Rightarrow> string option" where
  "districtOf districtSpace from_subject =
     map_option fst (find (\<lambda>ds. UnderPrefix from_subject (snd ds)) districtSpace)"

definition share_sources ::
    "string gomap \<Rightarrow> string list gomap \<Rightarrow> string \<Rightarrow> Share \<Rightarrow> plan_error + Source list" where
  "share_sources districtSpace centralByDistrict centralJSDomain s =
     (case (sh_From s, sh_As s) of
        (Some f, Some a) \<Rightarrow>
          bindE (derefE (districtOf districtSpace f) (ShareOutsideDistricts f)) (\<lambda>distID.
            Inr (map (\<lambda>shardName. \<lparr>so_Name = shardName, so_Domain = centralJSDomain,
                        so_FilterSubject = [], so_TransformSource = f, so_TransformDest = a\<rparr>)
                   (case map_of centralByDistrict distID of None \<Rightarrow> [] | Some ns \<Rightarrow> ns)))
      | _ \<Rightarrow> Inr [])"

definition buildDMZ ::
    "string \<Rightarrow> Topology \<Rightarrow> Cluster \<Rightarrow> string list gomap \<Rightarrow> string gomap \<Rightarrow>
     plan_error + Stream option" where
  "buildDMZ dot t centralCluster centralByDistrict districtSpace =
     (case t_DMZ t of
        None \<Rightarrow> Inr None
      | Some dmz \<Rightarrow>
          (case dmz_Cluster dmz of
             None \<Rightarrow> Inr None
           | Some dmzClusterID \<Rightarrow>
               bindE (getCluster t dmzClusterID) (\<lambda>dmzCluster.
               bindE (derefE (c_JsDomain centralCluster) PlanPanic) (\<lambda>centralJSDomain.
               bindE (mapE (share_sources districtSpace centralByDistrict centralJSDomain)
                        (dmz_Shares dmz)) (\<lambda>dmzSources.
               bindE (derefE (c_JsDomain dmzCluster) PlanPanic) (\<lambda>dmzJSDomain.
               Inr (Some \<lparr>st_Name = DMZStreamName dot, st_Cluster = dmzClusterID,
                 st_JSDomain = dmzJSDomain,
                 st_Replicas = (case dmz_Replicas dmz of None \<Rightarrow> 3 | Some n \<Rightarrow> uint n),
                 st_MaxAge = dmzMaxAge, st_MaxBytes = dmzMaxBytes, st_Duplicates = dmzDedupeWindow,
                 st_RePublishSource = RootSpace, st_RePublishDest = RootSpace,
                 st_Tier = TierDMZ, st_Sources = concat dmzSources\<rparr>)))))))"

definition stream_order :: "Stream \<Rightarrow> int \<times> string" where
  "stream_order s = (Wave (st_Tier s), st_Name s)"

definition Build :: "Root \<Rightarrow> plan_error + Plan" where
  "Build root =
     bindE (derefE root NilTopology) (\<lambda>t.
     bindE (derefE (t_Dot t) NilDot) (\<lambda>dot.
     bindE (derefE (t_Central t) NilCentral) (\<lambda>central.
     bindE (guardE (ce_Cluster central = None) NilCentralCluster) (\<lambda>_.
     bindE (collect_parts dot (t_District t)) (\<lambda>collected.
     let parts = sort_key pe_stream collected in
     bindE (check_collisions parts) (\<lambda>_.
     bindE (buildRegional dot t parts) (\<lambda>(regionalStreams, centralSources, dns).
     bindE (buildCentralShards dot t central parts centralSources)
       (\<lambda>(centralShards, centralCluster, centralByDistrict).
     bindE (buildDMZ dot t centralCluster centralByDistrict (district_spaces dot (t_District t)))
       (\<lambda>dmzStream.
     let allStreams = centralShards @ regionalStreams @
           (case dmzStream of None \<Rightarrow> [] | Some s \<Rightarrow> [s])
     in Inr \<lparr>pl_DOT = dot, pl_Streams = sort_key stream_order allStreams, pl_DNS = dns\<rparr>)))))))))"

subsection \<open>What Build collects\<close>

text \<open>
  The specification side of the collecting loops: the entries of the partitions that name a
  cluster, and the condition that all of them do.
\<close>

definition entry_of :: "string \<Rightarrow> string \<Rightarrow> string \<times> Partition option \<Rightarrow> partEntry list" where
  "entry_of dot i kp =
     (case snd kp of None \<Rightarrow> [] | Some pa \<Rightarrow>
        (case pa_Cluster pa of None \<Rightarrow> [] | Some cl \<Rightarrow>
           [\<lparr>pe_district = i, pe_partition = fst kp, pe_cluster = cl,
             pe_stream = PartitionStreamName dot i (fst kp)\<rparr>]))"

definition entries_of :: "string \<Rightarrow> string \<times> District option \<Rightarrow> partEntry list" where
  "entries_of dot kp =
     (case snd kp of None \<Rightarrow> [] | Some d \<Rightarrow> concat (map (entry_of dot (fst kp)) (di_Partition d)))"

definition all_entries :: "string \<Rightarrow> District option gomap \<Rightarrow> partEntry list" where
  "all_entries dot ds = concat (map (entries_of dot) ds)"

definition placed_partition :: "string \<times> Partition option \<Rightarrow> bool" where
  "placed_partition kp \<longleftrightarrow> (case snd kp of None \<Rightarrow> True | Some pa \<Rightarrow> pa_Cluster pa \<noteq> None)"

definition placed_district :: "string \<times> District option \<Rightarrow> bool" where
  "placed_district kp \<longleftrightarrow>
     (case snd kp of None \<Rightarrow> True | Some d \<Rightarrow> (\<forall>q\<in>set (di_Partition d). placed_partition q))"

lemma partition_entry_of_iff:
  "partition_entry_of dot i kp = Inr es \<longleftrightarrow> placed_partition kp \<and> es = entry_of dot i kp"
  by (auto simp: partition_entry_of_def placed_partition_def entry_of_def split: option.splits)

lemma district_entries_of_iff:
  "district_entries_of dot kp = Inr es \<longleftrightarrow> placed_district kp \<and> es = entries_of dot kp"
  using mapE_iff_map [where f = "partition_entry_of dot (fst kp)", OF partition_entry_of_iff]
  by (auto simp: district_entries_of_def placed_district_def entries_of_def split: option.splits)

lemma collect_parts_iff:
  "collect_parts dot ds = Inr ps \<longleftrightarrow> (\<forall>kp\<in>set ds. placed_district kp) \<and> ps = all_entries dot ds"
  using mapE_iff_map [where f = "district_entries_of dot" and xs = ds, OF district_entries_of_iff]
  by (auto simp: collect_parts_def all_entries_def)

lemma check_collisions_iff:
  "sorted (map pe_stream ps) \<Longrightarrow> check_collisions ps = Inr u \<longleftrightarrow> distinct (map pe_stream ps)"
proof (induction ps rule: check_collisions.induct)
  case (1 p q ps)
  have "pe_stream p \<notin> set (map pe_stream (q # ps))" if "pe_stream q \<noteq> pe_stream p"
    using 1(2) that by (auto simp: antisym)
  with 1 show ?case by auto
qed simp_all

text \<open>The partitions of a topology and where they run.\<close>

definition placed :: "Topology \<Rightarrow> string \<Rightarrow> string \<Rightarrow> string \<Rightarrow> bool" where
  "placed t i p cl \<longleftrightarrow>
     (\<exists>d pa. gm_ptr (t_District t) i = Some d \<and> gm_ptr (di_Partition d) p = Some pa \<and>
        pa_Cluster pa = Some cl)"

lemma entry_of_member:
  "e \<in> set (entry_of dot i kp) \<longleftrightarrow>
     (\<exists>pa cl. snd kp = Some pa \<and> pa_Cluster pa = Some cl \<and>
        e = \<lparr>pe_district = i, pe_partition = fst kp, pe_cluster = cl,
             pe_stream = PartitionStreamName dot i (fst kp)\<rparr>)"
  by (cases "snd kp"; cases "pa_Cluster (the (snd kp))") (auto simp: entry_of_def)

lemma entries_of_member:
  "e \<in> set (entries_of dot kp) \<longleftrightarrow>
     (\<exists>d. snd kp = Some d \<and> (\<exists>q\<in>set (di_Partition d). e \<in> set (entry_of dot (fst kp) q)))"
  by (cases "snd kp") (auto simp: entries_of_def)

lemma all_entries_member:
  assumes "go_maps t"
  shows "e \<in> set (all_entries dot (t_District t)) \<longleftrightarrow>
     placed t (pe_district e) (pe_partition e) (pe_cluster e) \<and>
     pe_stream e = PartitionStreamName dot (pe_district e) (pe_partition e)"
proof -
  have d: "distinct (map fst (t_District t))"
    using assms by (simp add: go_maps_def)
  have p: "distinct (map fst (di_Partition d))" if "(i, Some d) \<in> set (t_District t)" for i d
    using assms that by (auto simp: go_maps_def)
  show ?thesis
    unfolding all_entries_def placed_def
    by (cases e) (force simp: entries_of_member entry_of_member gm_ptr_member [OF d] gm_ptr_member [OF p])
qed

subsection \<open>What each pass of Build produces\<close>

text \<open>A cluster id that every pass can use, and the domain and endpoint it stands for.\<close>

definition has_domain :: "Topology \<Rightarrow> string \<Rightarrow> bool" where
  "has_domain t i \<longleftrightarrow> (\<exists>c. gm_ptr (t_Cluster t) i = Some c \<and> c_JsDomain c \<noteq> None)"

definition has_leaf :: "Topology \<Rightarrow> string \<Rightarrow> bool" where
  "has_leaf t i \<longleftrightarrow> (\<exists>c. gm_ptr (t_Cluster t) i = Some c \<and> c_LeafEndpoint c \<noteq> None)"

definition js_domain :: "Topology \<Rightarrow> string \<Rightarrow> string" where
  "js_domain t i = the (c_JsDomain (the (gm_ptr (t_Cluster t) i)))"

definition leaf_endpoint :: "Topology \<Rightarrow> string \<Rightarrow> string" where
  "leaf_endpoint t i = the (c_LeafEndpoint (the (gm_ptr (t_Cluster t) i)))"

lemma getCluster_iff:
  "getCluster t i = Inr c \<longleftrightarrow> gm_ptr (t_Cluster t) i = Some c \<and> has_domain t i"
  by (auto simp: getCluster_def has_domain_def)

definition regional_of :: "Topology \<Rightarrow> partEntry \<Rightarrow> Stream" where
  "regional_of t p = regional_stream p (js_domain t (pe_cluster p))"

definition source_of :: "Topology \<Rightarrow> partEntry \<Rightarrow> Source" where
  "source_of t p = central_source p (js_domain t (pe_cluster p))"

definition leaf_name_of :: "string \<Rightarrow> partEntry \<Rightarrow> string" where
  "leaf_name_of dot p = LeafDNSName dot (pe_partition p)"

definition record_of :: "string \<Rightarrow> Topology \<Rightarrow> partEntry \<Rightarrow> DNSRecord" where
  "record_of dot t p = \<lparr>dns_Name = leaf_name_of dot p, dns_Target = leaf_endpoint t (pe_cluster p)\<rparr>"

lemma regional_step_iff:
  "regional_step dot t (ss, so, dn, seen) p = Inr st \<longleftrightarrow>
     has_domain t (pe_cluster p) \<and> has_leaf t (pe_cluster p) \<and>
     map_of seen (leaf_name_of dot p) = None \<and>
     st = (ss @ [regional_of t p], so @ [source_of t p], dn @ [record_of dot t p],
           AList.update (leaf_name_of dot p) (pe_district p @ ''/'' @ pe_partition p) seen)"
  by (auto simp: getCluster_iff has_domain_def has_leaf_def regional_of_def source_of_def record_of_def
      js_domain_def leaf_endpoint_def leaf_name_of_def Let_def)

lemma regional_loop_iff:
  "(\<exists>seen'. foldE (regional_step dot t) (ss, so, dn, seen) ps = Inr (ss', so', dn', seen')) \<longleftrightarrow>
     (\<forall>p\<in>set ps. has_domain t (pe_cluster p) \<and> has_leaf t (pe_cluster p) \<and>
        map_of seen (leaf_name_of dot p) = None) \<and>
     distinct (map (leaf_name_of dot) ps) \<and>
     ss' = ss @ map (regional_of t) ps \<and> so' = so @ map (source_of t) ps \<and>
     dn' = dn @ map (record_of dot t) ps"
proof (induction ps arbitrary: ss so dn seen)
  case (Cons p ps)
  show ?case
    by (simp add: regional_step_iff Cons.IH del: regional_step.simps)
       (auto simp: update_conv' image_iff; metis)
qed auto

lemma buildRegional_iff:
  "buildRegional dot t ps = Inr (rs, cs, dns) \<longleftrightarrow>
     (\<forall>p\<in>set ps. has_domain t (pe_cluster p) \<and> has_leaf t (pe_cluster p)) \<and>
     distinct (map (leaf_name_of dot) ps) \<and>
     rs = map (regional_of t) ps \<and> cs = map (source_of t) ps \<and>
     dns = sort_key dns_Name (map (record_of dot t) ps)"
  using regional_loop_iff [of dot t "[]" "[]" "[]" "[]" ps]
  by (auto simp: buildRegional_def split_beta')

definition shard_name :: "string \<Rightarrow> partEntry \<Rightarrow> string" where
  "shard_name dot p = CentralShardStreamName dot (pe_district p) (pe_partition p)"

definition shard_of :: "string \<Rightarrow> Topology \<Rightarrow> string \<Rightarrow> int \<Rightarrow> partEntry \<Rightarrow> Stream" where
  "shard_of dot t cc n p = central_shard dot cc (js_domain t cc) n p (source_of t p)"

definition replicas_of :: "8 word option \<Rightarrow> int" where
  "replicas_of r = (case r of None \<Rightarrow> 3 | Some n \<Rightarrow> uint n)"

definition shards_by_district :: "string \<Rightarrow> partEntry list \<Rightarrow> string list gomap" where
  "shards_by_district dot ps = fold (\<lambda>p. append_at (pe_district p) (shard_name dot p)) ps []"

lemma zip_map_same: "zip xs (map f xs) = map (\<lambda>x. (x, f x)) xs"
  by (induction xs) simp_all

lemma buildCentralShards_iff:
  "buildCentralShards dot t ce ps (map (source_of t) ps) = Inr (shards, c, byd) \<longleftrightarrow>
     (\<exists>cc. ce_Cluster ce = Some cc \<and> has_domain t cc \<and> gm_ptr (t_Cluster t) cc = Some c \<and>
        shards = map (shard_of dot t cc (replicas_of (ce_Replicas ce))) ps \<and>
        byd = shards_by_district dot ps)"
  by (auto simp: buildCentralShards_def getCluster_iff has_domain_def shard_of_def js_domain_def
      replicas_of_def shards_by_district_def shard_name_def zip_map_same comp_def Let_def)

lemma map_of_append_at:
  "map_of (append_at k x m) j =
     (if j = k then Some ((case map_of m k of None \<Rightarrow> [] | Some xs \<Rightarrow> xs) @ [x]) else map_of m j)"
  by (simp add: append_at_def update_conv')

text \<open>The shard names of a district are those of its entries, in their order.\<close>

lemma shards_by_district_get:
  "(case map_of (shards_by_district dot ps) i of None \<Rightarrow> [] | Some ns \<Rightarrow> ns) =
     map (shard_name dot) (filter (\<lambda>p. pe_district p = i) ps)"
proof -
  have "(case map_of (fold (\<lambda>p. append_at (pe_district p) (shard_name dot p)) ps m) i of
           None \<Rightarrow> [] | Some ns \<Rightarrow> ns) =
        (case map_of m i of None \<Rightarrow> [] | Some ns \<Rightarrow> ns) @
          map (shard_name dot) (filter (\<lambda>p. pe_district p = i) ps)" for m
    by (induction ps arbitrary: m) (auto simp: map_of_append_at)
  then show ?thesis by (simp add: shards_by_district_def)
qed

text \<open>The DMZ stream, when every share lies in a district.\<close>

definition share_located :: "string gomap \<Rightarrow> Share \<Rightarrow> bool" where
  "share_located spaces s \<longleftrightarrow>
     (\<forall>f a. sh_From s = Some f \<and> sh_As s = Some a \<longrightarrow> districtOf spaces f \<noteq> None)"

definition share_source_list :: "string gomap \<Rightarrow> string list gomap \<Rightarrow> string \<Rightarrow> Share \<Rightarrow> Source list" where
  "share_source_list spaces byd js s =
     (case (sh_From s, sh_As s) of
        (Some f, Some a) \<Rightarrow>
          map (\<lambda>n. \<lparr>so_Name = n, so_Domain = js, so_FilterSubject = [], so_TransformSource = f,
                so_TransformDest = a\<rparr>)
            (case map_of byd (the (districtOf spaces f)) of None \<Rightarrow> [] | Some ns \<Rightarrow> ns)
      | _ \<Rightarrow> [])"

lemma share_sources_iff:
  "share_sources spaces byd js s = Inr xs \<longleftrightarrow>
     share_located spaces s \<and> xs = share_source_list spaces byd js s"
  by (auto simp: share_sources_def share_located_def share_source_list_def split: option.splits)

lemma share_sources_all_iff:
  "mapE (share_sources spaces byd js) ss = Inr xs \<longleftrightarrow>
     (\<forall>s\<in>set ss. share_located spaces s) \<and> xs = map (share_source_list spaces byd js) ss"
  by (rule mapE_iff_map) (rule share_sources_iff)

definition dmz_cluster :: "Topology \<Rightarrow> (DMZ \<times> string) option" where
  "dmz_cluster t =
     (case t_DMZ t of None \<Rightarrow> None | Some z \<Rightarrow> map_option (Pair z) (dmz_Cluster z))"

definition dmz_stream :: "string \<Rightarrow> Topology \<Rightarrow> string \<Rightarrow> string list gomap \<Rightarrow> DMZ \<Rightarrow> string \<Rightarrow> Stream" where
  "dmz_stream dot t js byd z dc =
     \<lparr>st_Name = DMZStreamName dot, st_Cluster = dc, st_JSDomain = js_domain t dc,
      st_Replicas = replicas_of (dmz_Replicas z), st_MaxAge = dmzMaxAge, st_MaxBytes = dmzMaxBytes,
      st_Duplicates = dmzDedupeWindow, st_RePublishSource = RootSpace, st_RePublishDest = RootSpace,
      st_Tier = TierDMZ,
      st_Sources = concat (map (share_source_list (district_spaces dot (t_District t)) byd js)
        (dmz_Shares z))\<rparr>"

lemma buildDMZ_iff:
  assumes "c_JsDomain c = Some js"
  shows "buildDMZ dot t c byd (district_spaces dot (t_District t)) = Inr so \<longleftrightarrow>
     (\<forall>z dc. dmz_cluster t = Some (z, dc) \<longrightarrow> has_domain t dc \<and>
        (\<forall>s\<in>set (dmz_Shares z). share_located (district_spaces dot (t_District t)) s)) \<and>
     so = map_option (\<lambda>(z, dc). dmz_stream dot t js byd z dc) (dmz_cluster t)"
proof (cases "dmz_cluster t")
  case None
  then show ?thesis by (auto simp: buildDMZ_def dmz_cluster_def split: option.splits)
next
  case (Some zd)
  then obtain z dc where zd: "zd = (z, dc)" "t_DMZ t = Some z" "dmz_Cluster z = Some dc"
    by (auto simp: dmz_cluster_def split: option.splits)
  show ?thesis
    using assms Some zd
    by (auto simp: buildDMZ_def getCluster_iff share_sources_all_iff has_domain_def dmz_stream_def
        js_domain_def replicas_of_def)
qed

text \<open>The plan as a function of the topology, and when Build returns it.\<close>

definition parts_of :: "string \<Rightarrow> Topology \<Rightarrow> partEntry list" where
  "parts_of dot t = sort_key pe_stream (all_entries dot (t_District t))"

definition dmz_streams :: "string \<Rightarrow> Topology \<Rightarrow> string \<Rightarrow> Stream list" where
  "dmz_streams dot t cc =
     (case dmz_cluster t of None \<Rightarrow> []
      | Some (z, dc) \<Rightarrow>
          [dmz_stream dot t (js_domain t cc) (shards_by_district dot (parts_of dot t)) z dc])"

definition plan_streams :: "string \<Rightarrow> Topology \<Rightarrow> Central \<Rightarrow> string \<Rightarrow> Stream list" where
  "plan_streams dot t ce cc =
     map (shard_of dot t cc (replicas_of (ce_Replicas ce))) (parts_of dot t) @
     map (regional_of t) (parts_of dot t) @ dmz_streams dot t cc"

definition plan_of :: "string \<Rightarrow> Topology \<Rightarrow> Central \<Rightarrow> string \<Rightarrow> Plan" where
  "plan_of dot t ce cc =
     \<lparr>pl_DOT = dot, pl_Streams = sort_key stream_order (plan_streams dot t ce cc),
      pl_DNS = sort_key dns_Name (map (record_of dot t) (parts_of dot t))\<rparr>"

definition shares_located :: "string \<Rightarrow> Topology \<Rightarrow> bool" where
  "shares_located dot t \<longleftrightarrow>
     (\<forall>z dc. dmz_cluster t = Some (z, dc) \<longrightarrow>
        (\<forall>s\<in>set (dmz_Shares z). share_located (district_spaces dot (t_District t)) s))"

definition plannable :: "string \<Rightarrow> Topology \<Rightarrow> string \<Rightarrow> bool" where
  "plannable dot t cc \<longleftrightarrow>
     (\<forall>kp\<in>set (t_District t). placed_district kp) \<and>
     distinct (map pe_stream (parts_of dot t)) \<and>
     (\<forall>p\<in>set (parts_of dot t). has_domain t (pe_cluster p) \<and> has_leaf t (pe_cluster p)) \<and>
     distinct (map (leaf_name_of dot) (parts_of dot t)) \<and>
     has_domain t cc \<and>
     (\<forall>z dc. dmz_cluster t = Some (z, dc) \<longrightarrow> has_domain t dc) \<and>
     shares_located dot t"

lemma Build_iff:
  "Build (Some t) = Inr p \<longleftrightarrow>
     (\<exists>dot ce cc. t_Dot t = Some dot \<and> t_Central t = Some ce \<and> ce_Cluster ce = Some cc \<and>
        plannable dot t cc \<and> p = plan_of dot t ce cc)"
proof (cases "t_Dot t")
  case (Some dot)
  show ?thesis
  proof (cases "t_Central t")
    case (Some ce)
    let ?ps = "parts_of dot t" and ?sp = "district_spaces dot (t_District t)"
    let ?tail = "bindE (check_collisions ?ps) (\<lambda>_. bindE (buildRegional dot t ?ps) (\<lambda>(rs, cs, dns).
        bindE (buildCentralShards dot t ce ?ps cs) (\<lambda>(shards, c, byd).
        bindE (buildDMZ dot t c byd ?sp) (\<lambda>dmz.
        Inr \<lparr>pl_DOT = dot, pl_Streams = sort_key stream_order (shards @ rs @
              (case dmz of None \<Rightarrow> [] | Some s \<Rightarrow> [s])), pl_DNS = dns\<rparr>))))"
    have sorted: "sorted (map pe_stream ?ps)" by (simp add: parts_of_def)
    have build: "Build (Some t) = Inr p \<longleftrightarrow> ce_Cluster ce \<noteq> None \<and>
        (\<forall>kp\<in>set (t_District t). placed_district kp) \<and> ?tail = Inr p"
      using \<open>t_Dot t = Some dot\<close> Some
      by (auto simp: Build_def derefE_def collect_parts_iff Let_def parts_of_def guardE_def simp del: bindE_eq_Inr
          simp add: bindE_eq_Inr [where m = "collect_parts dot (t_District t)"] split: option.splits)
    have dmz: "c_JsDomain c = Some (js_domain t cc)" if "gm_ptr (t_Cluster t) cc = Some c" "has_domain t cc" for c cc
      using that by (auto simp: js_domain_def has_domain_def)
    have tail: "?tail = Inr p \<longleftrightarrow> (\<exists>cc. ce_Cluster ce = Some cc \<and>
          distinct (map pe_stream ?ps) \<and>
          (\<forall>p\<in>set ?ps. has_domain t (pe_cluster p) \<and> has_leaf t (pe_cluster p)) \<and>
          distinct (map (leaf_name_of dot) ?ps) \<and> has_domain t cc \<and>
          (\<forall>z dc. dmz_cluster t = Some (z, dc) \<longrightarrow> has_domain t dc) \<and> shares_located dot t \<and>
          p = plan_of dot t ce cc)"
    proof -
      let ?fin = "\<lambda>shards so. \<lparr>pl_DOT = dot, pl_Streams = sort_key stream_order (shards @ map (regional_of t) ?ps @
              (case so of None \<Rightarrow> [] | Some s \<Rightarrow> [s])), pl_DNS = sort_key dns_Name (map (record_of dot t) ?ps)\<rparr>"
      have "?tail = Inr p \<longleftrightarrow> distinct (map pe_stream ?ps) \<and>
          (\<forall>p\<in>set ?ps. has_domain t (pe_cluster p) \<and> has_leaf t (pe_cluster p)) \<and>
          distinct (map (leaf_name_of dot) ?ps) \<and>
          (\<exists>shards c byd. buildCentralShards dot t ce ?ps (map (source_of t) ?ps) = Inr (shards, c, byd) \<and>
            (\<exists>so. buildDMZ dot t c byd ?sp = Inr so \<and> p = ?fin shards so))"
        by (auto simp: check_collisions_iff [OF sorted] buildRegional_iff)
      also have "(\<exists>shards c byd. buildCentralShards dot t ce ?ps (map (source_of t) ?ps) = Inr (shards, c, byd) \<and>
            (\<exists>so. buildDMZ dot t c byd ?sp = Inr so \<and> p = ?fin shards so)) \<longleftrightarrow>
          (\<exists>cc c. ce_Cluster ce = Some cc \<and> has_domain t cc \<and> gm_ptr (t_Cluster t) cc = Some c \<and>
            (\<exists>so. buildDMZ dot t c (shards_by_district dot ?ps) ?sp = Inr so \<and>
              p = ?fin (map (shard_of dot t cc (replicas_of (ce_Replicas ce))) ?ps) so))"
        unfolding buildCentralShards_iff by blast
      also have "\<dots> \<longleftrightarrow> (\<exists>cc c. ce_Cluster ce = Some cc \<and> has_domain t cc \<and> gm_ptr (t_Cluster t) cc = Some c \<and>
          (\<forall>z dc. dmz_cluster t = Some (z, dc) \<longrightarrow> has_domain t dc) \<and> shares_located dot t \<and>
          p = plan_of dot t ce cc)"
        by (intro ex_cong1 conj_cong refl)
           (auto simp: buildDMZ_iff [OF dmz] shares_located_def plan_of_def plan_streams_def
             dmz_streams_def split: option.splits)
      finally show ?thesis by (auto simp: has_domain_def)
    qed
    show ?thesis
      unfolding build tail plannable_def using \<open>t_Dot t = Some dot\<close> Some by auto
  qed (simp add: Build_def derefE_def \<open>t_Dot t = Some dot\<close>)
qed (simp add: Build_def derefE_def)

subsection \<open>Content of a plan\<close>

text \<open>The entry Build makes of a partition.\<close>

definition entry :: "string \<Rightarrow> Topology \<Rightarrow> partEntry \<Rightarrow> bool" where
  "entry dot t e \<longleftrightarrow> placed t (pe_district e) (pe_partition e) (pe_cluster e) \<and>
     pe_stream e = PartitionStreamName dot (pe_district e) (pe_partition e)"

lemma parts_of_set: "go_maps t \<Longrightarrow> set (parts_of dot t) = {e. entry dot t e}"
  by (auto simp: parts_of_def entry_def all_entries_member)

lemma placed_cluster_unique: "placed t i k cl \<Longrightarrow> placed t i k cl' \<Longrightarrow> cl = cl'"
  by (auto simp: placed_def)

definition placed_pairs :: "Topology \<Rightarrow> (string \<times> string) set" where
  "placed_pairs t = {(i, k). \<exists>cl. placed t i k cl}"

lemma parts_of_length:
  assumes "go_maps t" and "distinct (map pe_stream (parts_of dot t))"
  shows "length (parts_of dot t) = card (placed_pairs t)"
proof -
  have "bij_betw (\<lambda>e. (pe_district e, pe_partition e)) (set (parts_of dot t)) (placed_pairs t)"
    unfolding bij_betw_def parts_of_set [OF assms(1)]
  proof
    show "inj_on (\<lambda>e. (pe_district e, pe_partition e)) {e. entry dot t e}"
      by (rule inj_onI) (auto simp: entry_def intro!: partEntry.equality dest: placed_cluster_unique)
    show "(\<lambda>e. (pe_district e, pe_partition e)) ` {e. entry dot t e} = placed_pairs t"
    proof (intro equalityI subsetI)
      fix q assume "q \<in> placed_pairs t"
      then obtain i k cl where q: "q = (i, k)" "placed t i k cl" by (auto simp: placed_pairs_def)
      then have "entry dot t \<lparr>pe_district = i, pe_partition = k, pe_cluster = cl,
          pe_stream = PartitionStreamName dot i k\<rparr>" by (simp add: entry_def)
      with q show "q \<in> (\<lambda>e. (pe_district e, pe_partition e)) ` {e. entry dot t e}" by force
    qed (auto simp: entry_def placed_pairs_def)
  qed
  then have "card (set (parts_of dot t)) = card (placed_pairs t)" by (rule bij_betw_same_card)
  with assms(2) show ?thesis by (simp add: distinct_map distinct_card)
qed

lemma tier_simps [simp]:
  "st_Tier (regional_of t e) = TierRegional" "st_Name (regional_of t e) = pe_stream e"
  "st_Tier (shard_of dot t cc n e) = TierCentral" "st_Name (shard_of dot t cc n e) = shard_name dot e"
  "st_Tier (dmz_stream dot t js byd z dc) = TierDMZ"
  "st_Name (dmz_stream dot t js byd z dc) = DMZStreamName dot"
  by (simp_all add: regional_of_def regional_stream_def shard_of_def central_shard_def shard_name_def
      dmz_stream_def)

lemma dmz_streams_tier: "s \<in> set (dmz_streams dot t cc) \<Longrightarrow> st_Tier s = TierDMZ"
  by (auto simp: dmz_streams_def split: option.splits)

lemma plan_of_tiers:
  assumes "go_maps t"
  shows "{s \<in> set (pl_Streams (plan_of dot t ce cc)). st_Tier s = TierRegional} = regional_of t ` {e. entry dot t e}"
    and "{s \<in> set (pl_Streams (plan_of dot t ce cc)). st_Tier s = TierCentral} =
        shard_of dot t cc (replicas_of (ce_Replicas ce)) ` {e. entry dot t e}"
    and "{s \<in> set (pl_Streams (plan_of dot t ce cc)). st_Tier s = TierDMZ} = set (dmz_streams dot t cc)"
    and "set (pl_DNS (plan_of dot t ce cc)) = record_of dot t ` {e. entry dot t e}"
  by (auto simp: plan_of_def plan_streams_def parts_of_set [OF assms] dest: dmz_streams_tier)

subsection \<open>Properties\<close>

text \<open>
  C6. Content of a plan: Build makes exactly one regional stream, one central shard and one leaf
  DNS record per partition that names a cluster; the shard of a partition runs on the central
  cluster and sources that partition's regional stream from its cluster's domain, and nothing
  else; the DNS record points at the leaf endpoint of the partition's cluster.
\<close>

theorem Build_content:
  assumes "go_maps t" and "Build (Some t) = Inr p" and "t_Dot t = Some dot"
    and "t_Central t = Some ce" and "ce_Cluster ce = Some cc"
  shows "{s \<in> set (pl_Streams p). st_Tier s = TierRegional} =
      {\<lparr>st_Name = PartitionStreamName dot (pe_district e) (pe_partition e), st_Cluster = pe_cluster e,
         st_JSDomain = js_domain t (pe_cluster e), st_Replicas = 3, st_MaxAge = ''6h'',
         st_MaxBytes = 50 * 2 ^ 30, st_Duplicates = [], st_RePublishSource = [], st_RePublishDest = [],
         st_Tier = TierRegional, st_Sources = []\<rparr> |e. entry dot t e} \<and>
    {s \<in> set (pl_Streams p). st_Tier s = TierCentral} =
      {\<lparr>st_Name = CentralShardStreamName dot (pe_district e) (pe_partition e), st_Cluster = cc,
         st_JSDomain = js_domain t cc, st_Replicas = (case ce_Replicas ce of None \<Rightarrow> 3 | Some n \<Rightarrow> uint n),
         st_MaxAge = ''15m'', st_MaxBytes = 20 * 2 ^ 30, st_Duplicates = [], st_RePublishSource = [],
         st_RePublishDest = [], st_Tier = TierCentral,
         st_Sources = [\<lparr>so_Name = PartitionStreamName dot (pe_district e) (pe_partition e),
           so_Domain = js_domain t (pe_cluster e), so_FilterSubject = [], so_TransformSource = [],
           so_TransformDest = []\<rparr>]\<rparr> |e. entry dot t e} \<and>
    set (pl_DNS p) = {\<lparr>dns_Name = LeafDNSName dot (pe_partition e),
         dns_Target = leaf_endpoint t (pe_cluster e)\<rparr> |e. entry dot t e} \<and>
    length (pl_Streams p) = 2 * card (placed_pairs t) + (if dmz_cluster t = None then 0 else 1) \<and>
    length (pl_DNS p) = card (placed_pairs t)"
proof -
  from assms have p: "p = plan_of dot t ce cc" and d: "distinct (map pe_stream (parts_of dot t))"
    by (auto simp: Build_iff plannable_def)
  have "length (dmz_streams dot t cc) = (if dmz_cluster t = None then 0 else 1)"
    by (auto simp: dmz_streams_def)
  then have len: "length (pl_Streams p) = 2 * card (placed_pairs t) + (if dmz_cluster t = None then 0 else 1)"
    "length (pl_DNS p) = card (placed_pairs t)"
    using parts_of_length [OF assms(1) d] by (simp_all add: p plan_of_def plan_streams_def)
  have literal: "regional_stream e (js_domain t (pe_cluster e)) =
      \<lparr>st_Name = PartitionStreamName dot (pe_district e) (pe_partition e), st_Cluster = pe_cluster e,
         st_JSDomain = js_domain t (pe_cluster e), st_Replicas = 3, st_MaxAge = ''6h'',
         st_MaxBytes = 50 * 2 ^ 30, st_Duplicates = [], st_RePublishSource = [], st_RePublishDest = [],
         st_Tier = TierRegional, st_Sources = []\<rparr>"
    "central_source e d = \<lparr>so_Name = PartitionStreamName dot (pe_district e) (pe_partition e),
       so_Domain = d, so_FilterSubject = [], so_TransformSource = [], so_TransformDest = []\<rparr>"
    if "entry dot t e" for e d
    using that by (simp_all add: entry_def regional_stream_def central_source_def regionalMaxBytes_def gib_def)
  have "{s \<in> set (pl_Streams p). st_Tier s = TierRegional} = {regional_stream e (js_domain t (pe_cluster e)) |e. entry dot t e}"
    "{s \<in> set (pl_Streams p). st_Tier s = TierCentral} =
      {central_shard dot cc (js_domain t cc) (replicas_of (ce_Replicas ce)) e
         (central_source e (js_domain t (pe_cluster e))) |e. entry dot t e}"
    unfolding p plan_of_tiers [OF assms(1)] by (auto simp: regional_of_def shard_of_def source_of_def)
  moreover have "set (pl_DNS p) = {\<lparr>dns_Name = LeafDNSName dot (pe_partition e),
         dns_Target = leaf_endpoint t (pe_cluster e)\<rparr> |e. entry dot t e}"
    unfolding p plan_of_tiers [OF assms(1)] by (auto simp: record_of_def leaf_name_of_def)
  ultimately show ?thesis
    using len by (simp add: literal central_shard_def centralMaxBytes_def centralMaxAge_def gib_def replicas_of_def
        cong: rev_conj_cong)
qed

text \<open>
  Provisioning order: a plan lists its streams by wave and then by name, so every source is
  provisioned no later than the streams of its own wave, and its DNS records strictly by name,
  hence without a duplicate name.
\<close>

theorem Build_sorted:
  assumes "Build (Some t) = Inr p"
  shows "sorted (map stream_order (pl_Streams p)) \<and> sorted_wrt (<) (map dns_Name (pl_DNS p))"
proof -
  from assms obtain dot ce cc where p: "p = plan_of dot t ce cc"
    and d: "distinct (map (leaf_name_of dot) (parts_of dot t))"
    by (auto simp: Build_iff plannable_def)
  have "dns_Name \<circ> record_of dot t = leaf_name_of dot"
    by (simp add: record_of_def fun_eq_iff)
  with d have "distinct (map dns_Name (pl_DNS p))"
    by (simp add: p plan_of_def sk.distinct_map_srt)
  then show ?thesis by (simp add: p plan_of_def strict_sorted_iff)
qed

subsection \<open>The districts a share draws from\<close>

text \<open>A subject lies in the space of a district; the shares draw from one district each.\<close>

definition covers :: "string \<Rightarrow> Topology \<Rightarrow> string \<Rightarrow> string \<Rightarrow> bool" where
  "covers dot t i f \<longleftrightarrow>
     (\<exists>d. gm_ptr (t_District t) i = Some d \<and> UnderPrefix f (SubjectSpace dot i (di_SubjectPrefix d)))"

definition unambiguous :: "string \<Rightarrow> Topology \<Rightarrow> bool" where
  "unambiguous dot t \<longleftrightarrow>
     (\<forall>z s f i j. t_DMZ t = Some z \<and> s \<in> set (dmz_Shares z) \<and> sh_From s = Some f \<and>
        covers dot t i f \<and> covers dot t j f \<longrightarrow> i = j)"

lemma district_spaces_member:
  "(i, sp) \<in> set (district_spaces dot ds) \<longleftrightarrow>
     (\<exists>d. (i, Some d) \<in> set ds \<and> sp = SubjectSpace dot i (di_SubjectPrefix d))"
  by (force simp: district_spaces_def split: option.splits)

lemma covers_iff:
  assumes "go_maps t"
  shows "covers dot t i f \<longleftrightarrow> (\<exists>sp. (i, sp) \<in> set (district_spaces dot (t_District t)) \<and> UnderPrefix f sp)"
  using assms by (auto simp: covers_def district_spaces_member gm_ptr_member go_maps_def)

lemma districtOf_covers:
  "go_maps t \<Longrightarrow> districtOf (district_spaces dot (t_District t)) f = Some i \<Longrightarrow> covers dot t i f"
  by (auto simp: districtOf_def covers_iff find_Some_iff) (metis nth_mem snd_conv)

lemma districtOf_None:
  "go_maps t \<Longrightarrow> districtOf (district_spaces dot (t_District t)) f = None \<longleftrightarrow> (\<nexists>i. covers dot t i f)"
  by (auto simp: districtOf_def covers_iff find_None_iff)

lemma districtOf_unique:
  assumes "go_maps t" and "covers dot t i f" and "\<And>j. covers dot t j f \<Longrightarrow> j = i"
  shows "districtOf (district_spaces dot (t_District t)) f = Some i"
  using assms districtOf_None [of t dot f] districtOf_covers [of t dot f]
  by (cases "districtOf (district_spaces dot (t_District t)) f") auto

lemma share_source_list_member:
  "src \<in> set (share_source_list spaces (shards_by_district dot ps) js s) \<longleftrightarrow>
     (\<exists>f a e. sh_From s = Some f \<and> sh_As s = Some a \<and> e \<in> set ps \<and>
        pe_district e = the (districtOf spaces f) \<and>
        src = \<lparr>so_Name = shard_name dot e, so_Domain = js, so_FilterSubject = [],
               so_TransformSource = f, so_TransformDest = a\<rparr>)"
  by (cases "sh_From s"; cases "sh_As s") (auto simp: share_source_list_def shards_by_district_get)

text \<open>
  C7. DMZ fan-out: when every share draws from one district only, the DMZ stream of a plan has
  exactly one kind of source: for each share and each partition of the district whose subject
  space contains the share's \<open>from\<close>, that partition's central shard in the central domain, with
  the share's transform. No other subject reaches the DMZ.
\<close>

theorem Build_dmz_fanout:
  assumes "go_maps t" and "unambiguous dot t" and "Build (Some t) = Inr p"
    and "t_Dot t = Some dot" and "t_DMZ t = Some z" and "t_Central t = Some ce"
    and "ce_Cluster ce = Some cc"
    and "s \<in> set (pl_Streams p)" and "st_Tier s = TierDMZ"
  shows "src \<in> set (st_Sources s) \<longleftrightarrow>
     (\<exists>sh f a i k cl. sh \<in> set (dmz_Shares z) \<and> sh_From sh = Some f \<and> sh_As sh = Some a \<and>
        covers dot t i f \<and> placed t i k cl \<and>
        src = \<lparr>so_Name = CentralShardStreamName dot i k, so_Domain = js_domain t cc,
               so_FilterSubject = [], so_TransformSource = f, so_TransformDest = a\<rparr>)"
proof -
  let ?sp = "district_spaces dot (t_District t)"
  from assms(3-7) have p: "p = plan_of dot t ce cc" and loc: "shares_located dot t"
    by (auto simp: Build_iff plannable_def)
  from assms(8,9) have "s \<in> set (dmz_streams dot t cc)"
    unfolding p using plan_of_tiers(3) [OF assms(1)] by blast
  then obtain dc where dc: "dmz_cluster t = Some (z, dc)"
    and s: "s = dmz_stream dot t (js_domain t cc) (shards_by_district dot (parts_of dot t)) z dc"
    using assms(5) by (cases "dmz_Cluster z") (auto simp: dmz_streams_def dmz_cluster_def)
  have at: "the (districtOf ?sp f) = i \<longleftrightarrow> covers dot t i f"
    if "sh \<in> set (dmz_Shares z)" "sh_From sh = Some f" "sh_As sh = Some a" for sh f a i
  proof -
    from loc dc that have "districtOf ?sp f \<noteq> None"
      by (auto simp: shares_located_def share_located_def)
    then obtain j where j: "districtOf ?sp f = Some j" by blast
    have "covers dot t j f" by (rule districtOf_covers [OF assms(1) j])
    with assms(2,5) that j show ?thesis unfolding unambiguous_def by (metis option.sel)
  qed
  have "src \<in> set (st_Sources s) \<longleftrightarrow> (\<exists>sh\<in>set (dmz_Shares z). \<exists>f a e. sh_From sh = Some f \<and>
      sh_As sh = Some a \<and> entry dot t e \<and> pe_district e = the (districtOf ?sp f) \<and>
      src = \<lparr>so_Name = shard_name dot e, so_Domain = js_domain t cc, so_FilterSubject = [],
             so_TransformSource = f, so_TransformDest = a\<rparr>)"
    by (simp add: s dmz_stream_def share_source_list_member parts_of_set [OF assms(1)])
  also have "\<dots> \<longleftrightarrow> (\<exists>sh f a i k cl. sh \<in> set (dmz_Shares z) \<and> sh_From sh = Some f \<and> sh_As sh = Some a \<and>
        covers dot t i f \<and> placed t i k cl \<and>
        src = \<lparr>so_Name = CentralShardStreamName dot i k, so_Domain = js_domain t cc,
               so_FilterSubject = [], so_TransformSource = f, so_TransformDest = a\<rparr>)" (is "?L \<longleftrightarrow> ?R")
  proof
    assume ?L
    then obtain sh f a e where *: "sh \<in> set (dmz_Shares z)" "sh_From sh = Some f" "sh_As sh = Some a"
        "entry dot t e" "pe_district e = the (districtOf ?sp f)"
        "src = \<lparr>so_Name = shard_name dot e, so_Domain = js_domain t cc, so_FilterSubject = [],
           so_TransformSource = f, so_TransformDest = a\<rparr>" by blast
    then have "covers dot t (pe_district e) f" using at by metis
    with * show ?R unfolding entry_def shard_name_def by blast
  next
    assume ?R
    then obtain sh f a i k cl where *: "sh \<in> set (dmz_Shares z)" "sh_From sh = Some f" "sh_As sh = Some a"
        "covers dot t i f" "placed t i k cl"
        "src = \<lparr>so_Name = CentralShardStreamName dot i k, so_Domain = js_domain t cc,
           so_FilterSubject = [], so_TransformSource = f, so_TransformDest = a\<rparr>" by blast
    let ?e = "\<lparr>pe_district = i, pe_partition = k, pe_cluster = cl, pe_stream = PartitionStreamName dot i k\<rparr>"
    have "entry dot t ?e" "shard_name dot ?e = CentralShardStreamName dot i k"
      using * by (simp_all add: entry_def shard_name_def)
    moreover have "pe_district ?e = the (districtOf ?sp f)" using at [of sh f a i] * by simp
    ultimately show ?L using *(1-3,6)
      by (intro bexI [of _ sh] exI [of _ f] exI [of _ a] exI [of _ ?e]) simp_all
  qed
  finally show ?thesis .
qed

subsection \<open>Independence of the map order\<close>

text \<open>Two representations of one topology: the maps list the same entries in any order.\<close>

definition same_district :: "District option \<Rightarrow> District option \<Rightarrow> bool" where
  "same_district = rel_option (\<lambda>d d'. di_Id d = di_Id d' \<and> di_SubjectPrefix d = di_SubjectPrefix d' \<and>
     mset (di_Partition d) = mset (di_Partition d'))"

definition same_topology :: "Topology \<Rightarrow> Topology \<Rightarrow> bool" where
  "same_topology t t' \<longleftrightarrow> t_Dot t = t_Dot t' \<and> t_Central t = t_Central t' \<and> t_DMZ t = t_DMZ t' \<and>
     mset (t_Cluster t) = mset (t_Cluster t') \<and>
     (\<exists>ds. list_all2 (rel_prod (=) same_district) (t_District t) ds \<and> mset ds = mset (t_District t'))"

lemma same_district_simps [simp]:
  "same_district None q \<longleftrightarrow> q = None"
  "same_district p None \<longleftrightarrow> p = None"
  "same_district (Some d) (Some d') \<longleftrightarrow> di_Id d = di_Id d' \<and>
     di_SubjectPrefix d = di_SubjectPrefix d' \<and> mset (di_Partition d) = mset (di_Partition d')"
  by (auto simp: same_district_def)

lemma same_district_cases:
  assumes "rel_prod (=) same_district kp kq"
  obtains i where "kp = (i, None)" "kq = (i, None)"
    | i d d' where "kp = (i, Some d)" "kq = (i, Some d')" "di_Id d = di_Id d'"
        "di_SubjectPrefix d = di_SubjectPrefix d'" "mset (di_Partition d) = mset (di_Partition d')"
  using assms by (cases kp; cases kq; cases "snd kp"; cases "snd kq") auto

lemma list_all2_member2: "list_all2 R xs ys \<Longrightarrow> y \<in> set ys \<Longrightarrow> \<exists>x\<in>set xs. R x y"
  by (induction rule: list_all2_induct) auto

lemma mset_concat_map: "mset (concat (map f xs)) = (\<Sum>x\<in>#mset xs. mset (f x))"
  by (induction xs) simp_all

lemma entries_of_same:
  "rel_prod (=) same_district kp kq \<Longrightarrow> mset (entries_of dot kp) = mset (entries_of dot kq)"
  by (erule same_district_cases) (simp_all add: entries_of_def mset_concat_map)

lemma all_entries_same:
  assumes "same_topology t t'"
  shows "mset (all_entries dot (t_District t)) = mset (all_entries dot (t_District t'))"
proof -
  from assms obtain ds where ds: "list_all2 (rel_prod (=) same_district) (t_District t) ds"
    "mset ds = mset (t_District t')" by (auto simp: same_topology_def)
  from ds(1) have "mset (all_entries dot (t_District t)) = mset (all_entries dot ds)"
    by (induction rule: list_all2_induct) (auto simp: all_entries_def entries_of_same)
  with ds(2) show ?thesis by (simp add: all_entries_def mset_concat_map)
qed

lemma placed_district_same: "rel_prod (=) same_district kp kq \<Longrightarrow> placed_district kp = placed_district kq"
  by (erule same_district_cases) (auto simp: placed_district_def dest!: mset_eq_setD)

lemma placed_all_same:
  assumes "same_topology t t'"
  shows "(\<forall>kp\<in>set (t_District t). placed_district kp) \<longleftrightarrow> (\<forall>kp\<in>set (t_District t'). placed_district kp)"
proof -
  from assms obtain ds where ds: "list_all2 (rel_prod (=) same_district) (t_District t) ds"
    "mset ds = mset (t_District t')" by (auto simp: same_topology_def)
  from ds(1) have "(\<forall>kp\<in>set (t_District t). placed_district kp) \<longleftrightarrow> (\<forall>kp\<in>set ds. placed_district kp)"
    by (induction rule: list_all2_induct) (auto simp: placed_district_same)
  with ds(2) show ?thesis by (metis mset_eq_setD)
qed

lemma spaces_same:
  assumes "same_topology t t'"
  shows "set (district_spaces dot (t_District t)) = set (district_spaces dot (t_District t'))"
proof -
  have one: "(case snd kp of None \<Rightarrow> [] | Some d \<Rightarrow> [(fst kp, SubjectSpace dot (fst kp) (di_SubjectPrefix d))]) =
      (case snd kq of None \<Rightarrow> [] | Some d \<Rightarrow> [(fst kq, SubjectSpace dot (fst kq) (di_SubjectPrefix d))])"
    if "rel_prod (=) same_district kp kq" for kp kq
    using that by (rule same_district_cases) simp_all
  from assms obtain ds where ds: "list_all2 (rel_prod (=) same_district) (t_District t) ds"
    "mset ds = mset (t_District t')" by (auto simp: same_topology_def)
  from ds(1) have "district_spaces dot (t_District t) = district_spaces dot ds"
    by (induction rule: list_all2_induct) (use one in \<open>auto simp: district_spaces_def\<close>)
  moreover have "set ds = set (t_District t')" using ds(2) by (rule mset_eq_setD)
  ultimately show ?thesis by (simp add: district_spaces_def)
qed

lemma same_go_maps:
  assumes "same_topology t t'" and "go_maps t"
  shows "go_maps t'"
proof -
  from assms(1) obtain ds where ds: "list_all2 (rel_prod (=) same_district) (t_District t) ds"
    "mset ds = mset (t_District t')" by (auto simp: same_topology_def)
  have "map fst (t_District t) = map fst ds"
    using ds(1) by (induction rule: list_all2_induct) (auto simp: rel_prod_conv)
  with ds(2) assms(2) have keys: "distinct (map fst (t_District t'))"
    by (metis go_maps_def mset_eq_imp_distinct_iff mset_map)
  have cl: "distinct (map fst (t_Cluster t'))"
    using assms by (metis go_maps_def same_topology_def mset_eq_imp_distinct_iff mset_map)
  have "distinct (map fst (di_Partition d))" if "(i, Some d) \<in> set (t_District t')" for i d
  proof -
    from that ds(2) have "(i, Some d) \<in> set ds" by (metis mset_eq_setD)
    with ds(1) obtain kp where kp: "kp \<in> set (t_District t)" "rel_prod (=) same_district kp (i, Some d)"
      by (blast dest: list_all2_member2)
    from kp(2) obtain d' where "kp = (i, Some d')" "mset (di_Partition d') = mset (di_Partition d)"
      by (cases rule: same_district_cases) auto
    with kp(1) assms(2) show ?thesis by (metis go_maps_def mset_eq_imp_distinct_iff mset_map)
  qed
  with keys cl show ?thesis by (auto simp: go_maps_def)
qed

lemma clusters_same:
  assumes "same_topology t t'" and "go_maps t"
  shows "gm_ptr (t_Cluster t') = gm_ptr (t_Cluster t)"
  using assms map_of_mset_cong [of "t_Cluster t" "t_Cluster t'"]
  by (simp add: same_topology_def go_maps_def gm_ptr_def fun_eq_iff)

lemma cluster_facts_same:
  assumes "same_topology t t'" and "go_maps t"
  shows "has_domain t' = has_domain t" "has_leaf t' = has_leaf t" "js_domain t' = js_domain t"
    "leaf_endpoint t' = leaf_endpoint t"
  by (simp_all add: clusters_same [OF assms] has_domain_def has_leaf_def js_domain_def
      leaf_endpoint_def fun_eq_iff)

lemma covers_same:
  assumes "same_topology t t'" and "go_maps t"
  shows "covers dot t' i f \<longleftrightarrow> covers dot t i f"
  using spaces_same [OF assms(1), of dot]
  by (simp add: covers_iff [OF assms(2)] covers_iff [OF same_go_maps [OF assms]])

lemma districtOf_same:
  assumes "same_topology t t'" and "go_maps t" and "unambiguous dot t"
    and "t_DMZ t = Some z" and "s \<in> set (dmz_Shares z)" and "sh_From s = Some f"
  shows "districtOf (district_spaces dot (t_District t')) f = districtOf (district_spaces dot (t_District t)) f"
proof (cases "\<exists>i. covers dot t i f")
  case True
  then obtain i where i: "covers dot t i f" by blast
  then have u: "covers dot t j f \<Longrightarrow> j = i" for j
    using assms(3-6) unfolding unambiguous_def by blast
  have "districtOf (district_spaces dot (t_District t)) f = Some i"
    by (rule districtOf_unique [OF assms(2) i u])
  moreover have "districtOf (district_spaces dot (t_District t')) f = Some i"
    by (rule districtOf_unique [OF same_go_maps [OF assms(1,2)]]) (simp_all add: covers_same [OF assms(1,2)] i u)
  ultimately show ?thesis by simp
next
  case False
  then show ?thesis
    using districtOf_None [OF assms(2), of dot f] districtOf_None [OF same_go_maps [OF assms(1,2)], of dot f]
    by (simp add: covers_same [OF assms(1,2)])
qed

lemma parts_same:
  assumes "same_topology t t'"
  shows "mset (parts_of dot t') = mset (parts_of dot t)"
    and "distinct (map pe_stream (parts_of dot t)) \<Longrightarrow> parts_of dot t' = parts_of dot t"
proof -
  show m: "mset (parts_of dot t') = mset (parts_of dot t)"
    by (simp add: parts_of_def all_entries_same [OF assms])
  assume "distinct (map pe_stream (parts_of dot t))"
  then show "parts_of dot t' = parts_of dot t"
    unfolding parts_of_def sk.distinct_map_srt
    by (rule sk.srt_cong [OF all_entries_same [OF assms], symmetric])
qed

lemma shares_located_same:
  assumes "same_topology t t'" and "go_maps t" and "unambiguous dot t"
  shows "shares_located dot t' \<longleftrightarrow> shares_located dot t"
proof -
  have z: "t_DMZ t' = t_DMZ t" using assms(1) by (simp add: same_topology_def)
  have "dmz_cluster t' = dmz_cluster t" by (simp add: dmz_cluster_def z)
  moreover have "share_located (district_spaces dot (t_District t')) s =
      share_located (district_spaces dot (t_District t)) s"
    if "dmz_cluster t = Some (zz, dc)" "s \<in> set (dmz_Shares zz)" for zz dc s
  proof -
    from that have "t_DMZ t = Some zz" by (auto simp: dmz_cluster_def split: option.splits)
    with that show ?thesis
      by (auto simp: share_located_def districtOf_same [OF assms])
  qed
  ultimately show ?thesis by (auto simp: shares_located_def)
qed

lemma dmz_streams_same:
  assumes "same_topology t t'" and "go_maps t" and "unambiguous dot t"
    and "distinct (map pe_stream (parts_of dot t))"
  shows "dmz_streams dot t' cc = dmz_streams dot t cc"
proof (cases "dmz_cluster t")
  case None
  with assms(1) show ?thesis by (simp add: dmz_streams_def dmz_cluster_def same_topology_def)
next
  case (Some zd)
  obtain z dc where zd: "zd = (z, dc)" by (cases zd)
  have z: "t_DMZ t = Some z" using Some zd by (auto simp: dmz_cluster_def split: option.splits)
  have same: "dmz_cluster t' = dmz_cluster t"
    using assms(1) by (simp add: dmz_cluster_def same_topology_def)
  have "share_source_list (district_spaces dot (t_District t')) byd js s =
      share_source_list (district_spaces dot (t_District t)) byd js s" if "s \<in> set (dmz_Shares z)" for byd js s
    using that by (auto simp: share_source_list_def districtOf_same [OF assms(1-3) z] split: option.split)
  then have eq: "map (share_source_list (district_spaces dot (t_District t')) byd js) (dmz_Shares z) =
      map (share_source_list (district_spaces dot (t_District t)) byd js) (dmz_Shares z)" for byd js
    by (intro map_cong refl)
  show ?thesis
    unfolding dmz_streams_def same Some zd option.case prod.case dmz_stream_def parts_same(2) [OF assms(1,4)]
      cluster_facts_same [OF assms(1,2)] eq ..
qed

lemma plannable_same:
  assumes "same_topology t t'" and "go_maps t" and "unambiguous dot t"
  shows "plannable dot t' cc \<longleftrightarrow> plannable dot t cc"
proof -
  have "set (parts_of dot t') = set (parts_of dot t)"
    using parts_same(1) [OF assms(1)] by (rule mset_eq_setD)
  moreover have "distinct (map f (parts_of dot t')) = distinct (map f (parts_of dot t))" for f :: "partEntry \<Rightarrow> string"
    using parts_same(1) [OF assms(1), of dot] by (metis mset_eq_imp_distinct_iff mset_map)
  moreover have "dmz_cluster t' = dmz_cluster t"
    using assms(1) by (simp add: dmz_cluster_def same_topology_def)
  ultimately show ?thesis
    using placed_all_same [OF assms(1)]
    by (simp add: plannable_def cluster_facts_same [OF assms(1,2)] shares_located_same [OF assms])
qed

lemma plan_of_same:
  assumes "same_topology t t'" and "go_maps t" and "unambiguous dot t"
    and "distinct (map pe_stream (parts_of dot t))"
  shows "plan_of dot t' ce cc = plan_of dot t ce cc"
proof -
  have "regional_of t' = regional_of t" "source_of t' = source_of t" "record_of dot t' = record_of dot t"
    "shard_of dot t' cc n = shard_of dot t cc n" for n
    by (simp_all add: fun_eq_iff regional_of_def source_of_def record_of_def shard_of_def
        cluster_facts_same [OF assms(1,2)])
  then show ?thesis
    by (simp add: plan_of_def plan_streams_def parts_same(2) [OF assms(1,4)] dmz_streams_same [OF assms])
qed

text \<open>
  C32. Determinism: Build's result does not depend on the order in which Go walks the district and
  partition maps. For every two orderings of one topology whose shares each draw from one
  district, Build returns the same plan or returns none for either.
\<close>

theorem Build_deterministic:
  assumes "same_topology t t'" and "go_maps t" and "\<And>dot. t_Dot t = Some dot \<Longrightarrow> unambiguous dot t"
  shows "Build (Some t) = Inr p \<longleftrightarrow> Build (Some t') = Inr p"
proof -
  have same: "t_Dot t' = t_Dot t" "t_Central t' = t_Central t"
    using assms(1) by (simp_all add: same_topology_def)
  have "plannable dot t' cc \<and> p = plan_of dot t' ce cc \<longleftrightarrow> plannable dot t cc \<and> p = plan_of dot t ce cc"
    if "t_Dot t = Some dot" for dot ce cc
    using plannable_same [OF assms(1,2) assms(3) [OF that]] plan_of_same [OF assms(1,2) assms(3) [OF that]]
    by (auto simp: plannable_def)
  then show ?thesis unfolding Build_iff same by blast
qed

subsection \<open>Stream names\<close>

text \<open>A district id that cannot be mistaken for the central tier in a stream name.\<close>

definition central_like :: "string \<Rightarrow> bool" where
  "central_like i \<longleftrightarrow> i = ''central'' \<or> HasPrefix i ''central-''"

lemma underscore_split:
  assumes "a @ CHR ''_'' # x = b @ CHR ''_'' # y" and "CHR ''_'' \<notin> set b"
  shows "a = b \<or> (\<exists>z. a = b @ CHR ''_'' # z)"
  using assms
proof (induction b arbitrary: a)
  case Nil
  then show ?case by (cases a) auto
next
  case (Cons c b)
  then show ?case by (cases a) auto
qed

lemma map_sanitize_inj:
  assumes "map sanitize_byte a = map sanitize_byte b"
    and "\<forall>c\<in>set a. token_byte c" and "\<forall>c\<in>set b. token_byte c"
  shows "a = b"
proof (rule map_inj_on [OF assms(1)])
  show "inj_on sanitize_byte (set a \<union> set b)"
    by (rule inj_onI) (use assms(2,3) sanitize_byte_inj in blast)
qed

lemma sanitize_central:
  assumes "tokenRE i" and "Sanitize i @ ''_'' @ x = ''CENTRAL_'' @ y"
  shows "central_like i"
proof -
  have "Sanitize i @ CHR ''_'' # x = ''CENTRAL'' @ CHR ''_'' # y" using assms(2) by simp
  then have "Sanitize i = ''CENTRAL'' \<or> (\<exists>z. Sanitize i = ''CENTRAL'' @ CHR ''_'' # z)"
    by (rule underscore_split) simp
  then show ?thesis
  proof
    assume "Sanitize i = ''CENTRAL''"
    moreover have "Sanitize ''central'' = ''CENTRAL''" "tokenRE ''central''" by code_simp+
    ultimately have "i = ''central''" using Sanitize_inj [OF assms(1)] by metis
    then show ?thesis by (simp add: central_like_def)
  next
    assume "\<exists>z. Sanitize i = ''CENTRAL'' @ CHR ''_'' # z"
    then obtain z where z: "Sanitize i = ''CENTRAL_'' @ z" by auto
    have eight: "Sanitize ''central-'' = ''CENTRAL_''" by code_simp
    have "Sanitize (take 8 i) = take 8 (Sanitize i)"
      by (simp add: Sanitize_map take_map)
    then have "map sanitize_byte (take 8 i) = map sanitize_byte ''central-''"
      using z eight by (simp add: Sanitize_map)
    moreover have "\<forall>c\<in>set (take 8 i). token_byte c"
      using tokenRE_bytes [OF assms(1)] in_set_takeD by fast
    moreover have "\<forall>c\<in>set ''central-''. token_byte c" by code_simp
    ultimately have "take 8 i = ''central-''" by (rule map_sanitize_inj)
    then have "i = ''central-'' @ drop 8 i" by (metis append_take_drop_id)
    then show ?thesis by (metis central_like_def HasPrefix_append)
  qed
qed

lemma shard_name_eq:
  "shard_name dot p = shard_name dot q \<longleftrightarrow>
     PartitionStreamName dot (pe_district p) (pe_partition p) =
     PartitionStreamName dot (pe_district q) (pe_partition q)"
  by (simp add: shard_name_def CentralShardStreamName_def PartitionStreamName_def)

lemma regional_not_shard:
  assumes "tokenRE i" and "\<not> central_like i"
  shows "PartitionStreamName dot i k \<noteq> CentralShardStreamName dot i' k'"
  using assms sanitize_central [of i "Sanitize k" "Sanitize i' @ ''_'' @ Sanitize k'"]
  by (auto simp: PartitionStreamName_def CentralShardStreamName_def)

lemma dmz_name_differs:
  "PartitionStreamName dot i k \<noteq> DMZStreamName dot" "CentralShardStreamName dot i k \<noteq> DMZStreamName dot"
proof -
  have no: "CHR ''_'' \<notin> set (''DMZ'')" by simp
  show "PartitionStreamName dot i k \<noteq> DMZStreamName dot"
    using no by (auto simp: PartitionStreamName_def DMZStreamName_def) (metis no Un_iff in_set_conv_decomp set_append)
  show "CentralShardStreamName dot i k \<noteq> DMZStreamName dot"
    by (simp add: CentralShardStreamName_def DMZStreamName_def)
qed

text \<open>
  C33. Unique stream names: when no district is called \<open>central\<close> or \<open>central-...\<close>, no two
  streams of a plan share a name, across all three tiers.
\<close>

theorem Build_names_distinct:
  assumes "go_maps t" and "Build (Some t) = Inr p"
    and "\<And>i k cl. placed t i k cl \<Longrightarrow> tokenRE i \<and> \<not> central_like i"
  shows "distinct (map st_Name (pl_Streams p))"
proof -
  from assms(2) obtain dot ce cc where p: "p = plan_of dot t ce cc"
    and d: "distinct (map pe_stream (parts_of dot t))"
    by (auto simp: Build_iff plannable_def)
  have parts: "entry dot t e" if "e \<in> set (parts_of dot t)" for e
    using that parts_of_set [OF assms(1)] by blast
  have name: "pe_stream e = PartitionStreamName dot (pe_district e) (pe_partition e)"
    if "e \<in> set (parts_of dot t)" for e
    using parts [OF that] by (simp add: entry_def)
  have shards: "distinct (map (shard_name dot) (parts_of dot t))"
    using d name unfolding distinct_map inj_on_def shard_name_eq by metis
  have apart: "pe_stream e \<noteq> shard_name dot e'" if "e \<in> set (parts_of dot t)" for e e'
    using parts [OF that] assms(3) unfolding shard_name_def entry_def by (metis regional_not_shard)
  have dmz: "map st_Name (dmz_streams dot t cc) \<in> {[], [DMZStreamName dot]}"
    by (auto simp: dmz_streams_def split: option.split)
  have "map st_Name (plan_streams dot t ce cc) = map (shard_name dot) (parts_of dot t) @
      map pe_stream (parts_of dot t) @ map st_Name (dmz_streams dot t cc)"
    by (simp add: plan_streams_def)
  moreover have "DMZStreamName dot \<notin> shard_name dot ` set (parts_of dot t) \<union> pe_stream ` set (parts_of dot t)"
  proof
    assume "DMZStreamName dot \<in> shard_name dot ` set (parts_of dot t) \<union> pe_stream ` set (parts_of dot t)"
    then obtain e where "e \<in> set (parts_of dot t)"
      "DMZStreamName dot = shard_name dot e \<or> DMZStreamName dot = pe_stream e" by blast
    then show False
      using dmz_name_differs [of dot "pe_district e" "pe_partition e"] name [of e]
      by (simp add: shard_name_def)
  qed
  moreover have "shard_name dot ` set (parts_of dot t) \<inter> pe_stream ` set (parts_of dot t) = {}"
    using apart [THEN not_sym] by auto
  ultimately have "distinct (map st_Name (plan_streams dot t ce cc))"
    using d shards dmz by (fastforce simp: image_iff)
  then show ?thesis by (simp add: p plan_of_def sk.distinct_map_srt)
qed

subsection \<open>Plans of loaded topologies\<close>

lemma entry_of_keys: "e \<in> set (entries_of dot kp) \<Longrightarrow> pe_district e = fst kp"
  by (auto simp: entries_of_member entry_of_member)

lemma entries_of_distinct:
  assumes "\<And>d. snd kp = Some d \<Longrightarrow> distinct (map fst (di_Partition d))"
  shows "distinct (entries_of dot kp)"
proof (cases "snd kp")
  case (Some d)
  have "distinct (concat (map (entry_of dot i) qs))" if "distinct (map fst qs)" for i qs
    using that
  proof (induction qs)
    case (Cons q qs)
    have "set (entry_of dot i q) \<inter> set (concat (map (entry_of dot i) qs)) = {}"
    proof (rule equals0I)
      fix e assume "e \<in> set (entry_of dot i q) \<inter> set (concat (map (entry_of dot i) qs))"
      then obtain r where "r \<in> set qs" "e \<in> set (entry_of dot i q)" "e \<in> set (entry_of dot i r)" by auto
      then have "fst q = fst r" by (auto simp: entry_of_member)
      with Cons.prems \<open>r \<in> set qs\<close> show False by auto
    qed
    moreover have "distinct (entry_of dot i q)" by (simp add: entry_of_def split: option.split)
    ultimately show ?case using Cons by simp
  qed simp
  with Some assms show ?thesis by (simp add: entries_of_def)
qed (simp add: entries_of_def)

lemma parts_of_distinct:
  assumes "go_maps t"
  shows "distinct (parts_of dot t)"
proof -
  have "distinct (concat (map (entries_of dot) ds))"
    if "distinct (map fst ds)" "\<forall>k d. (k, Some d) \<in> set ds \<longrightarrow> distinct (map fst (di_Partition d))" for ds
    using that
  proof (induction ds)
    case (Cons kp ds)
    have "set (entries_of dot kp) \<inter> set (concat (map (entries_of dot) ds)) = {}"
    proof (rule equals0I)
      fix e assume "e \<in> set (entries_of dot kp) \<inter> set (concat (map (entries_of dot) ds))"
      then obtain kq where "kq \<in> set ds" "e \<in> set (entries_of dot kp)" "e \<in> set (entries_of dot kq)" by auto
      then have "fst kp = fst kq" by (metis entry_of_keys)
      with Cons.prems(1) \<open>kq \<in> set ds\<close> show False by auto
    qed
    moreover have "distinct (entries_of dot kp)"
      using Cons.prems(2) by (intro entries_of_distinct) (cases kp, auto)
    moreover have "distinct (concat (map (entries_of dot) ds))"
      using Cons.prems by (intro Cons.IH) auto
    ultimately show ?case by simp
  qed simp
  with assms show ?thesis by (simp add: parts_of_def all_entries_def go_maps_def)
qed

lemma parts_distinct_by:
  assumes "go_maps t" and "\<And>e. entry dot t e \<Longrightarrow> g e = h (pe_district e) (pe_partition e)"
  shows "distinct (map g (parts_of dot t)) \<longleftrightarrow>
     (\<forall>i k cl i' k' cl'. placed t i k cl \<and> placed t i' k' cl' \<and> h i k = h i' k' \<longrightarrow> i = i' \<and> k = k')"
    (is "?L \<longleftrightarrow> ?R")
proof
  assume L: ?L
  show ?R
  proof (intro allI impI)
    fix i k cl i' k' cl' assume *: "placed t i k cl \<and> placed t i' k' cl' \<and> h i k = h i' k'"
    let ?e = "\<lambda>i k cl. \<lparr>pe_district = i, pe_partition = k, pe_cluster = cl,
      pe_stream = PartitionStreamName dot i k\<rparr>"
    have "entry dot t (?e i k cl)" "entry dot t (?e i' k' cl')" using * by (simp_all add: entry_def)
    moreover from this have "g (?e i k cl) = g (?e i' k' cl')" using * assms(2) by simp
    moreover have "inj_on g {e. entry dot t e}"
      using L parts_of_set [OF assms(1), of dot] by (simp add: distinct_map)
    ultimately have "?e i k cl = ?e i' k' cl'" by (simp add: inj_on_def del: partEntry.ext_inject)
    then show "i = i' \<and> k = k'" by simp
  qed
next
  assume R: ?R
  have "inj_on g {e. entry dot t e}"
  proof (rule inj_onI, unfold mem_Collect_eq)
    fix e e' assume e: "entry dot t e" "entry dot t e'" and "g e = g e'"
    then have "h (pe_district e) (pe_partition e) = h (pe_district e') (pe_partition e')"
      using assms(2) by metis
    with e have "pe_district e = pe_district e' \<and> pe_partition e = pe_partition e'"
      using R unfolding entry_def by blast
    with e show "e = e'" by (auto simp: entry_def intro!: partEntry.equality dest: placed_cluster_unique)
  qed
  then show ?L by (simp add: distinct_map parts_of_distinct [OF assms(1)] parts_of_set [OF assms(1)])
qed

lemma wf_cluster_usable:
  assumes "go_maps t" and "\<forall>kp\<in>set (t_Cluster t). wf_cluster kp" and "cl \<in> set (map fst (t_Cluster t))"
  shows "has_domain t cl \<and> has_leaf t cl"
proof -
  from assms(3) obtain c where c: "(cl, c) \<in> set (t_Cluster t)" by auto
  with assms(2) obtain c' where "c = Some c'" "c_JsDomain c' \<noteq> None" "c_LeafEndpoint c' \<noteq> None"
    by (fastforce simp: wf_cluster_def)
  with c assms(1) show ?thesis
    by (auto simp: has_domain_def has_leaf_def go_maps_def gm_ptr_member)
qed

lemma placed_resolved:
  assumes "go_maps t" and "refs_resolved t" and "placed t i k cl"
  shows "cl \<in> set (map fst (t_Cluster t))"
proof -
  from assms(3) obtain d pa where d: "gm_ptr (t_District t) i = Some d"
    and pa: "gm_ptr (di_Partition d) k = Some pa" "pa_Cluster pa = Some cl" by (auto simp: placed_def)
  from assms(1) d have "(i, Some d) \<in> set (t_District t)" by (simp add: go_maps_def gm_ptr_member)
  moreover from this assms(1) pa have "(k, Some pa) \<in> set (di_Partition d)"
    by (auto simp: go_maps_def gm_ptr_member)
  ultimately show ?thesis using assms(2) pa(2) unfolding refs_resolved_def by blast
qed

lemma dmz_cluster_eq: "dmz_cluster t = Some (z, dc) \<longleftrightarrow> t_DMZ t = Some z \<and> dmz_Cluster z = Some dc"
  by (auto simp: dmz_cluster_def split: option.splits)

text \<open>After loading, every cluster a pass of Build looks up is usable.\<close>

lemma loaded_usable:
  assumes "Load f = Inr (Some t)"
  obtains dot ce cc where "go_maps t" "t_Dot t = Some dot" "t_Central t = Some ce" "ce_Cluster ce = Some cc"
    "has_domain t cc" "wf_topology t"
    "\<forall>i k cl. placed t i k cl \<longrightarrow> has_domain t cl \<and> has_leaf t cl"
    "\<forall>z dc. dmz_cluster t = Some (z, dc) \<longrightarrow> has_domain t dc"
proof -
  from assms have wf: "keyed t" "wf_topology t" and refs: "refs_resolved t" by (auto simp: Load_result)
  note maps = keyed_go_maps [OF wf(1)]
  from wf(2) obtain dot ce cc where dot: "t_Dot t = Some dot" "t_Central t = Some ce" "ce_Cluster ce = Some cc"
    and cl: "\<forall>kp\<in>set (t_Cluster t). wf_cluster kp" by (auto simp: wf_topology_def)
  note usable = wf_cluster_usable [OF maps cl]
  show thesis
  proof (rule that [OF maps dot _ wf(2)])
    show "has_domain t cc" using refs dot(2,3) usable unfolding refs_resolved_def by blast
    show "\<forall>i k cl. placed t i k cl \<longrightarrow> has_domain t cl \<and> has_leaf t cl"
      using usable placed_resolved [OF maps refs] by blast
    show "\<forall>z dc. dmz_cluster t = Some (z, dc) \<longrightarrow> has_domain t dc"
      using refs usable unfolding refs_resolved_def dmz_cluster_eq by blast
  qed
qed

lemma shares_located_iff:
  assumes "go_maps t" and "wf_topology t" and "t_Dot t = Some dot"
  shows "shares_located dot t \<longleftrightarrow>
     (\<forall>z s f. t_DMZ t = Some z \<and> s \<in> set (dmz_Shares z) \<and> sh_From s = Some f \<longrightarrow> (\<exists>i. covers dot t i f))"
proof -
  have sh: "\<exists>dc. dmz_cluster t = Some (z, dc)" "\<And>s. s \<in> set (dmz_Shares z) \<Longrightarrow> \<exists>a. sh_As s = Some a"
    if "t_DMZ t = Some z" for z
    using assms(2,3) that by (auto simp: wf_topology_def wf_dmz_def dmz_cluster_eq wf_share_def)
  have "share_located (district_spaces dot (t_District t)) s \<longleftrightarrow>
      (\<forall>f. sh_From s = Some f \<longrightarrow> (\<exists>i. covers dot t i f))" if "sh_As s = Some a" for s a
    using that districtOf_None [OF assms(1)] by (auto simp: share_located_def)
  with sh show ?thesis unfolding shares_located_def dmz_cluster_eq by blast
qed

text \<open>
  C17. When a loaded topology can be planned: Build succeeds exactly when every partition names a
  cluster, no two partitions share a stream name or a leaf DNS name, and every DMZ share draws
  from a subject inside some district. Everything else Build could reject has been ruled out by
  validation.
\<close>

theorem Build_after_Load:
  assumes "Load f = Inr (Some t)" and "t_Dot t = Some dot"
  shows "(\<exists>p. Build (Some t) = Inr p) \<longleftrightarrow>
     (\<forall>kp\<in>set (t_District t). placed_district kp) \<and>
     (\<forall>i k cl i' k' cl'. placed t i k cl \<and> placed t i' k' cl' \<and>
        (PartitionStreamName dot i k = PartitionStreamName dot i' k' \<or> LeafDNSName dot k = LeafDNSName dot k') \<longrightarrow>
        i = i' \<and> k = k') \<and>
     (\<forall>z s f. t_DMZ t = Some z \<and> s \<in> set (dmz_Shares z) \<and> sh_From s = Some f \<longrightarrow> (\<exists>i. covers dot t i f))"
proof -
  from assms obtain ce cc where maps: "go_maps t" and ce: "t_Central t = Some ce" "ce_Cluster ce = Some cc"
    and use: "has_domain t cc" "wf_topology t" "\<forall>i k cl. placed t i k cl \<longrightarrow> has_domain t cl \<and> has_leaf t cl"
      "\<forall>z dc. dmz_cluster t = Some (z, dc) \<longrightarrow> has_domain t dc"
    by (auto elim!: loaded_usable)
  have parts: "\<forall>p\<in>set (parts_of dot t). has_domain t (pe_cluster p) \<and> has_leaf t (pe_cluster p)"
    using use(3) by (auto simp: parts_of_set [OF maps] entry_def)
  have names: "distinct (map pe_stream (parts_of dot t)) \<longleftrightarrow> (\<forall>i k cl i' k' cl'. placed t i k cl \<and>
      placed t i' k' cl' \<and> PartitionStreamName dot i k = PartitionStreamName dot i' k' \<longrightarrow> i = i' \<and> k = k')"
    by (rule parts_distinct_by [OF maps]) (simp add: entry_def)
  have dns: "distinct (map (leaf_name_of dot) (parts_of dot t)) \<longleftrightarrow> (\<forall>i k cl i' k' cl'. placed t i k cl \<and>
      placed t i' k' cl' \<and> LeafDNSName dot k = LeafDNSName dot k' \<longrightarrow> i = i' \<and> k = k')"
    by (rule parts_distinct_by [OF maps]) (simp add: leaf_name_of_def)
  have "(\<exists>p. Build (Some t) = Inr p) \<longleftrightarrow> plannable dot t cc"
    using assms(2) ce by (simp add: Build_iff)
  also have "\<dots> \<longleftrightarrow> (\<forall>kp\<in>set (t_District t). placed_district kp) \<and>
      distinct (map pe_stream (parts_of dot t)) \<and> distinct (map (leaf_name_of dot) (parts_of dot t)) \<and>
      shares_located dot t"
    using parts use(1,4) by (auto simp: plannable_def)
  finally show ?thesis
    unfolding names dns shares_located_iff [OF maps use(2) assms(2)] by blast
qed

subsubsection \<open>Errors\<close>

lemma collect_parts_error:
  "collect_parts dot ds = Inl e \<Longrightarrow> \<exists>i k. e = PartitionClusterNil i k"
  by (auto simp: collect_parts_def district_entries_of_def partition_entry_of_def bindE_eq_Inl
      dest!: mapE_error_member split: option.splits)

lemma check_collisions_error: "check_collisions ps = Inl e \<Longrightarrow> \<exists>a b. e = StreamNameCollision a b"
  by (induction ps rule: check_collisions.induct) (auto simp: bindE_eq_Inl)

lemma getCluster_usable: "has_domain t i \<Longrightarrow> getCluster t i \<noteq> Inl e"
  by (auto simp: getCluster_def has_domain_def bindE_eq_Inl)

lemma buildRegional_error:
  assumes "\<And>p. p \<in> set ps \<Longrightarrow> has_domain t (pe_cluster p) \<and> has_leaf t (pe_cluster p)"
    and "buildRegional dot t ps = Inl e"
  shows "\<exists>n. e = LeafDNSCollision n"
proof -
  from assms(2) obtain p st where p: "p \<in> set ps" "regional_step dot t st p = Inl e"
    by (auto simp: buildRegional_def bindE_eq_Inl split_beta' dest!: foldE_error_member)
  with assms(1) [OF p(1)] show ?thesis
    by (cases st) (auto simp: bindE_eq_Inl getCluster_usable getCluster_iff has_domain_def has_leaf_def
        Let_def split: if_splits)
qed

lemma buildDMZ_error:
  assumes "\<And>z dc. dmz_cluster t = Some (z, dc) \<Longrightarrow> has_domain t dc" and "c_JsDomain c \<noteq> None"
    and "buildDMZ dot t c byd sp = Inl e"
  shows "\<exists>f. e = ShareOutsideDistricts f"
proof -
  have src: "\<exists>f. e = ShareOutsideDistricts f" if "share_sources sp byd js s = Inl e" for js s
    using that by (auto simp: share_sources_def bindE_eq_Inl split: option.splits)
  have "\<exists>z dc. dmz_cluster t = Some (z, dc)"
    using assms(3) by (cases "t_DMZ t"; cases "dmz_Cluster (the (t_DMZ t))") (auto simp: buildDMZ_def dmz_cluster_eq)
  then obtain z dc where z: "t_DMZ t = Some z" "dmz_Cluster z = Some dc" "has_domain t dc"
    using assms(1) by (auto simp: dmz_cluster_eq)
  show ?thesis
    using assms(2,3) z src
    by (auto simp: buildDMZ_def bindE_eq_Inl getCluster_usable getCluster_iff has_domain_def
        dest!: mapE_error_member)
qed

text \<open>
  Build's errors after loading: on a topology that Load accepted, Build fails only with a
  partition without cluster, a stream-name or DNS-name collision, or a share outside every
  district. In particular no nil pointer is dereferenced and no slice index is out of range.
\<close>

theorem Build_errors_after_Load:
  assumes "Load f = Inr (Some t)" and "Build (Some t) = Inl e"
  shows "(\<exists>i k. e = PartitionClusterNil i k) \<or> (\<exists>a b. e = StreamNameCollision a b) \<or>
     (\<exists>n. e = LeafDNSCollision n) \<or> (\<exists>s. e = ShareOutsideDistricts s)"
proof -
  from assms(1) obtain dot ce cc where maps: "go_maps t" and dot: "t_Dot t = Some dot"
    and ce: "t_Central t = Some ce" "ce_Cluster ce = Some cc" "has_domain t cc"
    and use: "\<forall>i k cl. placed t i k cl \<longrightarrow> has_domain t cl \<and> has_leaf t cl"
      "\<forall>z dc. dmz_cluster t = Some (z, dc) \<longrightarrow> has_domain t dc"
    by (auto elim!: loaded_usable)
  let ?ps = "parts_of dot t"
  have parts: "has_domain t (pe_cluster p) \<and> has_leaf t (pe_cluster p)" if "p \<in> set ?ps" for p
    using use(1) that by (auto simp: parts_of_set [OF maps] entry_def)
  have shards: "buildCentralShards dot t ce ?ps (map (source_of t) ?ps) \<noteq> Inl e'" for e'
    using ce by (auto simp: buildCentralShards_def bindE_eq_Inl getCluster_usable getCluster_iff
        has_domain_def Let_def)
  have central: "c_JsDomain c \<noteq> None"
    if "buildCentralShards dot t ce ?ps cs = Inr (x, c, y)" for x c y cs
    using that by (auto simp: buildCentralShards_def Let_def split: if_splits)
  from assms(2) dot ce consider "collect_parts dot (t_District t) = Inl e"
    | "check_collisions ?ps = Inl e" | "buildRegional dot t ?ps = Inl e"
    | cs where "buildCentralShards dot t ce ?ps (map (source_of t) ?ps) = Inl e"
    | cs x c byd where "buildCentralShards dot t ce ?ps cs = Inr (x, c, byd)"
        "buildDMZ dot t c byd (district_spaces dot (t_District t)) = Inl e"
    by (auto simp: Build_def derefE_def bindE_eq_Inl collect_parts_iff parts_of_def Let_def buildRegional_iff)
  then show ?thesis
  proof cases
    case 5
    then have "\<exists>f. e = ShareOutsideDistricts f"
      using use(2) by (intro buildDMZ_error [OF _ central]) auto
    then show ?thesis by blast
  qed (use collect_parts_error check_collisions_error buildRegional_error [OF parts] shards in blast)+
qed

text \<open>
  C34. Bounds: every stream of a plan made from a loaded topology has a positive storage bound that
  fits int64, one to five replicas, and a duplicate window and republish subject exactly on the
  DMZ tier.
\<close>

theorem Build_bounds:
  assumes "Load f = Inr (Some t)" and "Build (Some t) = Inr p" and "s \<in> set (pl_Streams p)"
  shows "0 < st_MaxBytes s \<and> st_MaxBytes s < 2 ^ 63 \<and> 1 \<le> st_Replicas s \<and> st_Replicas s \<le> 5 \<and>
    (st_Duplicates s = (if st_Tier s = TierDMZ then dmzDedupeWindow else [])) \<and>
    (st_RePublishSource s = (if st_Tier s = TierDMZ then RootSpace else []))"
proof -
  from assms(1) have wf: "wf_topology t" by (auto elim!: loaded_usable)
  from assms(2) obtain dot ce cc where ce: "t_Central t = Some ce" and p: "p = plan_of dot t ce cc"
    by (auto simp: Build_iff)
  have r: "1 \<le> replicas_of r \<and> replicas_of r \<le> 5" if "wf_replicas r" for r
  proof (cases r)
    case (Some n)
    with that have "1 \<le> int (unat n)" "int (unat n) \<le> 5" by (auto simp: wf_replicas_def simp del: of_nat_unat)
    with Some show ?thesis by (simp add: replicas_of_def)
  qed (simp add: replicas_of_def)
  have rc: "wf_replicas (ce_Replicas ce)" using wf ce by (auto simp: wf_topology_def)
  have rz: "wf_replicas (dmz_Replicas z)" if "dmz_cluster t = Some (z, dc)" for z dc
    using wf that by (auto simp: wf_topology_def wf_dmz_def dmz_cluster_eq)
  from assms(3) consider e where "s = shard_of dot t cc (replicas_of (ce_Replicas ce)) e"
    | e where "s = regional_of t e"
    | z dc js byd where "dmz_cluster t = Some (z, dc)" "s = dmz_stream dot t js byd z dc"
    by (cases "dmz_cluster t") (auto simp: p plan_of_def plan_streams_def dmz_streams_def)
  then show ?thesis
    by cases (use r [OF rc] r [OF rz] in \<open>auto simp: shard_of_def central_shard_def regional_of_def
      regional_stream_def dmz_stream_def regionalMaxBytes_def centralMaxBytes_def dmzMaxBytes_def gib_def\<close>)
qed

subsection \<open>Examples\<close>

text \<open>The plan of the example topology, written out.\<close>

definition ex_plan :: Plan where
  "ex_plan =
     \<lparr>pl_DOT = ''exdot'',
      pl_Streams =
       [\<lparr>st_Name = ''VIKASA_EXDOT_CENTRAL_D7_D7_0'', st_Cluster = ''core'', st_JSDomain = ''core'',
         st_Replicas = 3, st_MaxAge = ''15m'', st_MaxBytes = 21474836480, st_Duplicates = [],
         st_RePublishSource = [], st_RePublishDest = [], st_Tier = TierCentral,
         st_Sources = [\<lparr>so_Name = ''VIKASA_EXDOT_D7_D7_0'', so_Domain = ''edge-js'',
           so_FilterSubject = [], so_TransformSource = [], so_TransformDest = []\<rparr>]\<rparr>,
        \<lparr>st_Name = ''VIKASA_EXDOT_CENTRAL_D7_D7_1'', st_Cluster = ''core'', st_JSDomain = ''core'',
         st_Replicas = 3, st_MaxAge = ''15m'', st_MaxBytes = 21474836480, st_Duplicates = [],
         st_RePublishSource = [], st_RePublishDest = [], st_Tier = TierCentral,
         st_Sources = [\<lparr>so_Name = ''VIKASA_EXDOT_D7_D7_1'', so_Domain = ''core'',
           so_FilterSubject = [], so_TransformSource = [], so_TransformDest = []\<rparr>]\<rparr>,
        \<lparr>st_Name = ''VIKASA_EXDOT_D7_D7_0'', st_Cluster = ''edge'', st_JSDomain = ''edge-js'',
         st_Replicas = 3, st_MaxAge = ''6h'', st_MaxBytes = 53687091200, st_Duplicates = [],
         st_RePublishSource = [], st_RePublishDest = [], st_Tier = TierRegional, st_Sources = []\<rparr>,
        \<lparr>st_Name = ''VIKASA_EXDOT_D7_D7_1'', st_Cluster = ''core'', st_JSDomain = ''core'',
         st_Replicas = 3, st_MaxAge = ''6h'', st_MaxBytes = 53687091200, st_Duplicates = [],
         st_RePublishSource = [], st_RePublishDest = [], st_Tier = TierRegional, st_Sources = []\<rparr>,
        \<lparr>st_Name = ''VIKASA_EXDOT_DMZ'', st_Cluster = ''core'', st_JSDomain = ''core'',
         st_Replicas = 3, st_MaxAge = ''1h'', st_MaxBytes = 10737418240, st_Duplicates = ''5m'',
         st_RePublishSource = ''vikasa.>'', st_RePublishDest = ''vikasa.>'', st_Tier = TierDMZ,
         st_Sources =
          [\<lparr>so_Name = ''VIKASA_EXDOT_CENTRAL_D7_D7_0'', so_Domain = ''core'', so_FilterSubject = [],
            so_TransformSource = ''vikasa.exdot.d7.speed.>'',
            so_TransformDest = ''vikasa.exdot.share.acme.>''\<rparr>,
           \<lparr>so_Name = ''VIKASA_EXDOT_CENTRAL_D7_D7_1'', so_Domain = ''core'', so_FilterSubject = [],
            so_TransformSource = ''vikasa.exdot.d7.speed.>'',
            so_TransformDest = ''vikasa.exdot.share.acme.>''\<rparr>,
           \<lparr>so_Name = ''VIKASA_EXDOT_CENTRAL_D7_D7_0'', so_Domain = ''core'', so_FilterSubject = [],
            so_TransformSource = ''vikasa.exdot.d7.>'', so_TransformDest = ''vikasa.peer.exdot.i90.>''\<rparr>,
           \<lparr>so_Name = ''VIKASA_EXDOT_CENTRAL_D7_D7_1'', so_Domain = ''core'', so_FilterSubject = [],
            so_TransformSource = ''vikasa.exdot.d7.>'', so_TransformDest = ''vikasa.peer.exdot.i90.>''\<rparr>]\<rparr>],
      pl_DNS =
       [\<lparr>dns_Name = ''leaf-exdot-d7-0.nats.vikasa.exdot'', dns_Target = ''nats.edge:7422''\<rparr>,
        \<lparr>dns_Name = ''leaf-exdot-d7-1.nats.vikasa.exdot'', dns_Target = ''nats.core:7422''\<rparr>]\<rparr>"

lemma ex_build: "Build (Some ex_topology) = Inr ex_plan"
  by code_simp

lemma ex_maps: "go_maps ex_topology"
  using ex_keyed by (rule keyed_go_maps)

lemma ex_covers: "covers dot ex_topology i f \<Longrightarrow> i = ''d7''"
  by (auto simp: covers_def ex_topology_def gm_ptr_def split: if_splits)

lemma ex_unambiguous: "unambiguous dot ex_topology"
  unfolding unambiguous_def using ex_covers by blast

text \<open>The same topology with its maps walked in the opposite order.\<close>

definition ex_reordered :: Topology where
  "ex_reordered = ex_topology
     \<lparr>t_Cluster := rev (t_Cluster ex_topology),
      t_District := [(''d7'', Some \<lparr>di_Id = Some ''d7'',
        di_Partition = [(''d7/0'', Some \<lparr>pa_Cluster = Some ''edge'', pa_Id = Some ''d7/0''\<rparr>),
                        (''d7/1'', Some \<lparr>pa_Cluster = Some ''core'', pa_Id = Some ''d7/1''\<rparr>)],
        di_SubjectPrefix = None\<rparr>)]\<rparr>"

lemma ex_same: "same_topology ex_topology ex_reordered"
  unfolding same_topology_def ex_reordered_def
proof (intro conjI exI)
  show "list_all2 (rel_prod (=) same_district) (t_District ex_topology)
      [(''d7'', Some \<lparr>di_Id = Some ''d7'',
        di_Partition = [(''d7/0'', Some \<lparr>pa_Cluster = Some ''edge'', pa_Id = Some ''d7/0''\<rparr>),
                        (''d7/1'', Some \<lparr>pa_Cluster = Some ''core'', pa_Id = Some ''d7/1''\<rparr>)],
        di_SubjectPrefix = None\<rparr>)]"
    by (simp add: ex_topology_def)
qed simp_all

lemma ex_placed: "placed ex_topology i k cl \<longleftrightarrow>
    i = ''d7'' \<and> (k = ''d7/1'' \<and> cl = ''core'' \<or> k = ''d7/0'' \<and> cl = ''edge'')"
  by (auto simp: placed_def ex_topology_def gm_ptr_def split: if_splits)

text \<open>
  A topology whose district is called \<open>central\<close>: its partition \<open>d7/0\<close> has a regional stream of the
  name that the central shard of partition \<open>0\<close> of district \<open>d7\<close> has.
\<close>

definition clash_wire :: WireTopology where
  "clash_wire =
     \<lparr>wt_Dot = Some ''x'',
      wt_Cluster =
        [\<lparr>wc_Id = Some ''core'', wc_JsDomain = Some ''core'', wc_LeafEndpoint = Some ''nats.core:7422'',
          wc_Substrate = Some \<lparr>wu_Type = ''kubernetes'', wu_Context = None, wu_Namespace = None,
            wu_Hosts = []\<rparr>\<rparr>],
      wt_District =
        [\<lparr>wd_Id = Some ''central'', wd_SubjectPrefix = None,
          wd_Partition = [\<lparr>wp_Id = Some ''d7/0'', wp_Cluster = Some ''core''\<rparr>]\<rparr>,
         \<lparr>wd_Id = Some ''d7'', wd_SubjectPrefix = None,
          wd_Partition = [\<lparr>wp_Id = Some ''0'', wp_Cluster = Some ''core''\<rparr>]\<rparr>],
      wt_Central = Some \<lparr>ce_Cluster = Some ''core'', ce_Replicas = None\<rparr>,
      wt_DMZ = None\<rparr>"

text \<open>
  Two districts whose spaces overlap: \<open>wide\<close> declares the whole DOT as its prefix, so a share
  from district \<open>d7\<close> lies in both. The argument is the order of the districts.
\<close>

definition overlap_topology :: "bool \<Rightarrow> Topology" where
  "overlap_topology wide_first =
     (let d7 = (''d7'', Some \<lparr>di_Id = Some ''d7'',
                  di_Partition = [(''d7/0'', Some \<lparr>pa_Cluster = Some ''core'', pa_Id = Some ''d7/0''\<rparr>)],
                  di_SubjectPrefix = None\<rparr>);
          wide = (''wide'', Some \<lparr>di_Id = Some ''wide'',
                  di_Partition = [(''w0'', Some \<lparr>pa_Cluster = Some ''core'', pa_Id = Some ''w0''\<rparr>)],
                  di_SubjectPrefix = Some ''vikasa.exdot.>''\<rparr>)
      in ex_topology\<lparr>t_District := if wide_first then [wide, d7] else [d7, wide]\<rparr>)"

lemma overlap_valid:
  "Validate (Some (overlap_topology b)) = Inr () \<and> validatePlacement (Some (overlap_topology b)) = Inr ()"
proof -
  have "Validate (Some (overlap_topology True)) = Inr ()" "validatePlacement (Some (overlap_topology True)) = Inr ()"
    "Validate (Some (overlap_topology False)) = Inr ()" "validatePlacement (Some (overlap_topology False)) = Inr ()"
    by code_simp+
  then show ?thesis by (cases b) simp_all
qed

lemma overlap_keyed: "keyed (overlap_topology b)"
  by (cases b) (simp_all add: overlap_topology_def Let_def keyed_def keyed_map_def ex_topology_def)

lemma overlap_same: "same_topology (overlap_topology True) (overlap_topology False)"
  unfolding same_topology_def
proof (intro conjI exI)
  show "list_all2 (rel_prod (=) same_district) (t_District (overlap_topology True))
      (t_District (overlap_topology True))"
    by (simp add: overlap_topology_def Let_def)
  show "mset (t_District (overlap_topology True)) = mset (t_District (overlap_topology False))"
    by (simp add: overlap_topology_def Let_def)
qed (simp_all add: overlap_topology_def Let_def)

lemma outcome_someD: "(case r of Inr (Some t) \<Rightarrow> P t | _ \<Rightarrow> False) \<Longrightarrow> \<exists>t. r = Inr (Some t) \<and> P t"
  by (auto split: sum.splits option.splits)

lemma outcome_valueD: "(case r of Inr p \<Rightarrow> P p | Inl _ \<Rightarrow> False) \<Longrightarrow> \<exists>p. r = Inr p \<and> P p"
  by (auto split: sum.splits)

lemma outcome_errorD: "(case r of Inr _ \<Rightarrow> False | Inl _ \<Rightarrow> True) \<Longrightarrow> \<exists>e. r = Inl e"
  by (auto split: sum.splits)

text \<open>
  An undetected name collision: a spec that Load accepts and Build plans, although two different
  streams of the plan have the same name. The collision check of Build compares the regional
  streams among themselves only.
\<close>

theorem Build_name_clash:
  "\<exists>t p s s'. Load (Decoded (Some clash_wire)) = Inr (Some t) \<and> Build (Some t) = Inr p \<and>
     s \<in> set (pl_Streams p) \<and> s' \<in> set (pl_Streams p) \<and> s \<noteq> s' \<and> st_Name s = st_Name s'"
proof -
  have "case Load (Decoded (Some clash_wire)) of Inr (Some t) \<Rightarrow>
      (case Build (Some t) of Inr p \<Rightarrow>
        (\<exists>s\<in>set (pl_Streams p). \<exists>s'\<in>set (pl_Streams p). st_Tier s \<noteq> st_Tier s' \<and> st_Name s = st_Name s')
      | Inl _ \<Rightarrow> False) | _ \<Rightarrow> False"
    by code_simp
  from outcome_someD [OF this] show ?thesis by (auto dest!: outcome_valueD)
qed

text \<open>
  Overlapping districts: a topology that validation accepts whose plan depends on the order in
  which the district map is walked, because the prefix of one district contains the space of
  another and the first match of a share wins.
\<close>

theorem Build_overlap_order_dependent:
  "\<exists>t t' p p'. keyed t \<and> Validate (Some t) = Inr () \<and> validatePlacement (Some t) = Inr () \<and>
     same_topology t t' \<and> Build (Some t) = Inr p \<and> Build (Some t') = Inr p' \<and> p \<noteq> p'"
proof -
  let ?t = "overlap_topology True" and ?t' = "overlap_topology False"
  let ?differ = "\<lambda>r r'. case r of Inl _ \<Rightarrow> False | Inr p \<Rightarrow> (case r' of Inl _ \<Rightarrow> False
    | Inr p' \<Rightarrow> map st_Sources (pl_Streams p) \<noteq> map st_Sources (pl_Streams p'))"
  have "?differ (Build (Some ?t)) (Build (Some ?t'))" by code_simp
  then obtain p p' where p: "Build (Some ?t) = Inr p" "Build (Some ?t') = Inr p'" "p \<noteq> p'"
    by (cases "Build (Some ?t)"; cases "Build (Some ?t')") auto
  with p show ?thesis using overlap_valid [of True] overlap_keyed [of True] overlap_same by blast
qed

subsection \<open>Witnesses\<close>

lemma ex_names_ok: "placed ex_topology i k cl \<Longrightarrow> tokenRE i \<and> \<not> central_like i"
  by (auto simp: ex_placed central_like_def HasPrefix_def tokenRE_def token_start_def)

theorem Build_content_witness: "length (pl_Streams ex_plan) = 2 * card (placed_pairs ex_topology) + 1"
proof -
  have "dmz_cluster ex_topology \<noteq> None" by (simp add: dmz_cluster_def ex_topology_def)
  then show ?thesis
    using Build_content [OF ex_maps ex_build, of "''exdot''" "\<lparr>ce_Cluster = Some ''core'', ce_Replicas = None\<rparr>" "''core''"]
    by (auto simp: ex_topology_def)
qed

theorem Build_sorted_witness: "sorted_wrt (<) (map dns_Name (pl_DNS ex_plan))"
  using Build_sorted [OF ex_build] by blast

theorem Build_dmz_fanout_witness:
  "\<lparr>so_Name = ''VIKASA_EXDOT_CENTRAL_D7_D7_1'', so_Domain = ''core'', so_FilterSubject = [],
     so_TransformSource = ''vikasa.exdot.d7.>'', so_TransformDest = ''vikasa.peer.exdot.i90.>''\<rparr>
   \<in> set (st_Sources (last (pl_Streams ex_plan)))"
proof -
  have s: "last (pl_Streams ex_plan) \<in> set (pl_Streams ex_plan)" "st_Tier (last (pl_Streams ex_plan)) = TierDMZ"
    by (simp_all add: ex_plan_def)
  have c: "covers ''exdot'' ex_topology ''d7'' ''vikasa.exdot.d7.>''"
    by (simp add: covers_def ex_topology_def gm_ptr_def SubjectSpace_def DefaultSubjectPrefix_def UnderPrefix_refl)
  have n: "CentralShardStreamName ''exdot'' ''d7'' ''d7/1'' = ''VIKASA_EXDOT_CENTRAL_D7_D7_1''"
    "js_domain ex_topology ''core'' = ''core''" by code_simp+
  let ?sh = "\<lparr>sh_Consumer = Some ''bolt'', sh_From = Some ''vikasa.exdot.d7.>'',
    sh_As = Some ''vikasa.peer.exdot.i90.>''\<rparr>"
  have z: "t_Dot ex_topology = Some ''exdot''" "t_DMZ ex_topology = Some (the (t_DMZ ex_topology))"
    "t_Central ex_topology = Some \<lparr>ce_Cluster = Some ''core'', ce_Replicas = None\<rparr>"
    "?sh \<in> set (dmz_Shares (the (t_DMZ ex_topology)))" by (simp_all add: ex_topology_def)
  have pl: "placed ex_topology ''d7'' ''d7/1'' ''core''" by (simp add: ex_placed)
  show ?thesis
    by (rule Build_dmz_fanout [OF ex_maps ex_unambiguous ex_build z(1,2,3) _ s, THEN iffD2], simp,
        rule exI [of _ ?sh], rule exI [of _ "''vikasa.exdot.d7.>''"],
        rule exI [of _ "''vikasa.peer.exdot.i90.>''"], rule exI [of _ "''d7''"],
        rule exI [of _ "''d7/1''"], rule exI [of _ "''core''"])
       (simp only: z(4) c pl n, simp)
qed

theorem Build_deterministic_witness: "Build (Some ex_reordered) = Inr ex_plan"
  using Build_deterministic [OF ex_same ex_maps ex_unambiguous, of ex_plan] ex_build by simp

theorem Build_names_distinct_witness: "distinct (map st_Name (pl_Streams ex_plan))"
  by (rule Build_names_distinct [OF ex_maps ex_build ex_names_ok])

theorem Build_after_Load_witness: "\<exists>i. covers ''exdot'' ex_topology i ''vikasa.exdot.d7.speed.>''"
proof -
  have "\<forall>z s f. t_DMZ ex_topology = Some z \<and> s \<in> set (dmz_Shares z) \<and> sh_From s = Some f \<longrightarrow>
      (\<exists>i. covers ''exdot'' ex_topology i f)"
    using Build_after_Load [OF ex_load, of "''exdot''"] ex_build by (auto simp: ex_topology_def)
  then show ?thesis by (fastforce simp: ex_topology_def)
qed

text \<open>A spec whose share draws from outside every district.\<close>

definition stray_topology :: WireTopology where
  "stray_topology = ex_wire\<lparr>wt_DMZ := Some \<lparr>wz_Cluster = Some ''core'', wz_Replicas = None,
     wz_Shares = [Some \<lparr>ws_Consumer = Some ''acme'', ws_From = Some ''vikasa.exdot.d9.>'', ws_As = None\<rparr>]\<rparr>\<rparr>"

theorem Build_errors_after_Load_witness:
  "\<exists>t e. Load (Decoded (Some stray_topology)) = Inr (Some t) \<and> Build (Some t) = Inl e \<and>
     ((\<exists>i k. e = PartitionClusterNil i k) \<or> (\<exists>a b. e = StreamNameCollision a b) \<or>
      (\<exists>n. e = LeafDNSCollision n) \<or> (\<exists>s. e = ShareOutsideDistricts s))"
proof -
  have "case Load (Decoded (Some stray_topology)) of
      Inr (Some t) \<Rightarrow> (case Build (Some t) of Inr _ \<Rightarrow> False | Inl _ \<Rightarrow> True) | _ \<Rightarrow> False"
    by code_simp
  from outcome_someD [OF this] obtain t e
    where "Load (Decoded (Some stray_topology)) = Inr (Some t)" "Build (Some t) = Inl e"
    by (blast dest: outcome_errorD)
  then show ?thesis using Build_errors_after_Load by metis
qed

theorem Build_bounds_witness: "st_Replicas (last (pl_Streams ex_plan)) \<le> 5"
  using Build_bounds [OF ex_load ex_build, of "last (pl_Streams ex_plan)"]
  by (simp add: ex_plan_def)

end
