(* ===== verification/WriteTree.thy ===== *)
theory WriteTree
  imports File_System
begin

section \<open>Writing the generated tree\<close>

text \<open>
  File internal/render/writetree.go: merging the outputs of the renderers, and writing the result
  below a directory, each file by a temporary file and a rename, with a manifest that lets a later
  run prune the files it no longer produces.
\<close>

datatype tree_error =
    DuplicateOutput string
  | CreateDirFailed path os_error
  | TempFailed path os_error
  | WriteFailed path os_error
  | ChmodFailed path os_error
  | CloseFailed path os_error
  | RenameFailed path os_error
  | ManifestFailed os_error

definition manifestName :: string where "manifestName = ''.vikasa-manifest''"

definition tmpPrefix :: string where "tmpPrefix = ''.tmp-''"

subsection \<open>Merging\<close>

text \<open>The pair of the error and of the map as the call leaves it.\<close>

fun MergeInto :: "string gomap \<Rightarrow> string gomap \<Rightarrow> tree_error option \<times> string gomap" where
  "MergeInto all [] = (None, all)"
| "MergeInto all ((k, v) # part) =
     (if map_of all k \<noteq> None then (Some (DuplicateOutput k), all)
      else MergeInto (AList.update k v all) part)"

subsection \<open>Writing\<close>

definition writeFileAtomic :: "path \<Rightarrow> string \<Rightarrow> (tree_error, unit) io" where
  "writeFileAtomic dest data =
     bindIO (wrapIO (TempFailed dest) (CreateTemp (butlast dest) tmpPrefix)) (\<lambda>tmp.
       onErrorIO (Remove tmp)
         (bindIO (onErrorIO CloseIO (wrapIO (WriteFailed dest) (WriteIO tmp data))) (\<lambda>_.
          bindIO (onErrorIO CloseIO (wrapIO (ChmodFailed dest) (Chmod tmp 0x1A4))) (\<lambda>_.
          bindIO (wrapIO (CloseFailed dest) CloseIO) (\<lambda>_.
          wrapIO (RenameFailed dest) (Rename tmp dest))))))"

definition writeManifest :: "path \<Rightarrow> string list \<Rightarrow> (tree_error, unit) io" where
  "writeManifest dir names =
     wrapIO ManifestFailed (WriteFile (Join dir manifestName) (join [newline] names @ [newline]) 0x1A4)"

definition prune_one :: "path \<Rightarrow> string gomap \<Rightarrow> string \<Rightarrow> (tree_error, unit) io" where
  "prune_one dir files name =
     (if name = [] then returnIO ()
      else if map_of files name \<noteq> None then returnIO ()
      else bindIO (tryIO (Remove (Join dir name))) (\<lambda>_. returnIO ()))"

definition pruneStale :: "path \<Rightarrow> string gomap \<Rightarrow> (tree_error, unit) io" where
  "pruneStale dir files =
     bindIO (tryIO (ReadFile (Join dir manifestName))) (\<lambda>prev.
       case prev of
         Inl err \<Rightarrow> returnIO ()
       | Inr text \<Rightarrow> forIO (prune_one dir files) (split_char newline (TrimSpace text)))"

definition write_one :: "path \<Rightarrow> string gomap \<Rightarrow> string \<Rightarrow> (tree_error, unit) io" where
  "write_one dir files name =
     (let dest = Join dir name in
      bindIO (wrapIO (CreateDirFailed dest) (MkdirAll (butlast dest) 0x1ED)) (\<lambda>_.
      writeFileAtomic dest (the (map_of files name))))"

definition WriteTree :: "path \<Rightarrow> string gomap \<Rightarrow> bool \<Rightarrow> (tree_error, unit) io" where
  "WriteTree dir files prune =
     (let names = sortedKeys files in
      bindIO (if prune then pruneStale dir files else returnIO ()) (\<lambda>_.
      bindIO (forIO (write_one dir files) names) (\<lambda>_.
      if prune then writeManifest dir names else returnIO ())))"

subsection \<open>One file\<close>

lemma true_post: "ensures P R f Q \<Longrightarrow> ensures P R f (\<lambda>_ _. True)"
  by (erule ensures_weaken) simp_all

lemma true_pre: "ensures (\<lambda>_. True) R f Q \<Longrightarrow> ensures P R f Q"
  by (erule ensures_weaken) simp_all

lemma as_becomes: "ensures P (unchanged q) f Q \<Longrightarrow> ensures P (becomes q n) f Q"
  by (erule ensures_mono) (rule unchanged_becomes)

lemma frame_writeFileAtomic:
  assumes "dest \<noteq> q" and "\<not> temp_of (butlast dest) tmpPrefix q"
  shows "ensures P (unchanged q) (writeFileAtomic dest data) (\<lambda>_ _. True)"
  unfolding writeFileAtomic_def
proof (rule uc.ens_bind)
  show "ensures P (unchanged q) (wrapIO (TempFailed dest) (CreateTemp (butlast dest) tmpPrefix))
      (\<lambda>t s. temp_of (butlast dest) tmpPrefix t \<and> (\<exists>m. lookup s t = Some (Reg m [])))"
    by (rule ensures_wrap [OF frame_CreateTemp [OF assms(2)]])
next
  fix t
  show "ensures (\<lambda>s. temp_of (butlast dest) tmpPrefix t \<and> (\<exists>m. lookup s t = Some (Reg m []))) (unchanged q)
      (onErrorIO (Remove t)
         (bindIO (onErrorIO CloseIO (wrapIO (WriteFailed dest) (WriteIO t data))) (\<lambda>_.
          bindIO (onErrorIO CloseIO (wrapIO (ChmodFailed dest) (Chmod t 0x1A4))) (\<lambda>_.
          bindIO (wrapIO (CloseFailed dest) CloseIO) (\<lambda>_.
          wrapIO (RenameFailed dest) (Rename t dest)))))) (\<lambda>_ _. True)"
  proof (cases "t = q")
    case False
    show ?thesis
      by (rule uc.ens_onError uc.ens_bind ensures_wrap frame_Remove frame_WriteIO frame_Chmod frame_Close frame_Rename
          False assms(1))+
  qed (use assms(2) in \<open>simp add: ensures_def\<close>)
qed

lemma atomic_writeFileAtomic:
  assumes "q \<noteq> []" and "\<not> temp_of (butlast q) tmpPrefix q"
  shows "ensures P (becomes q (Reg 0x1A4 data)) (writeFileAtomic q data) (\<lambda>_ s. lookup s q = Some (Reg 0x1A4 data))"
  unfolding writeFileAtomic_def
proof (rule bc.ens_bind)
  show "ensures P (becomes q (Reg 0x1A4 data)) (wrapIO (TempFailed q) (CreateTemp (butlast q) tmpPrefix))
      (\<lambda>t s. temp_of (butlast q) tmpPrefix t \<and> (\<exists>m. lookup s t = Some (Reg m [])))"
    by (rule ensures_mono [OF ensures_wrap [OF frame_CreateTemp [OF assms(2)]] unchanged_becomes])
next
  fix t
  let ?made = "\<lambda>s. temp_of (butlast q) tmpPrefix t \<and> (\<exists>m. lookup s t = Some (Reg m []))"
  show "ensures ?made (becomes q (Reg 0x1A4 data))
      (onErrorIO (Remove t)
         (bindIO (onErrorIO CloseIO (wrapIO (WriteFailed q) (WriteIO t data))) (\<lambda>_.
          bindIO (onErrorIO CloseIO (wrapIO (ChmodFailed q) (Chmod t 0x1A4))) (\<lambda>_.
          bindIO (wrapIO (CloseFailed q) CloseIO) (\<lambda>_.
          wrapIO (RenameFailed q) (Rename t q)))))) (\<lambda>_ s. lookup s q = Some (Reg 0x1A4 data))"
  proof (cases "t = q")
    case False
    have wr: "ensures ?made (unchanged q) (WriteIO t data) (\<lambda>_ s. \<exists>m. lookup s t = Some (Reg m data))"
      using False by (intro uc.ens_WriteIO) (auto simp: unchanged_def dest: op_write_lookup)
    have ch: "ensures (\<lambda>s. \<exists>m. lookup s t = Some (Reg m data)) (unchanged q) (Chmod t 0x1A4)
        (\<lambda>_ s. lookup s t = Some (Reg 0x1A4 data))"
      unfolding Chmod_def using False by (intro uc.ens_prim) (auto simp: unchanged_def dest!: op_chmod_lookup)
    have cl: "ensures (\<lambda>s. lookup s t = Some (Reg 0x1A4 data)) (unchanged q) CloseIO
        (\<lambda>_ s. lookup s t = Some (Reg 0x1A4 data))"
      unfolding CloseIO_def by (intro uc.ens_query) simp
    have rn: "ensures (\<lambda>s. lookup s t = Some (Reg 0x1A4 data)) (becomes q (Reg 0x1A4 data)) (Rename t q)
        (\<lambda>_ s. lookup s q = Some (Reg 0x1A4 data))"
      unfolding Rename_def by (intro bc.ens_prim) (auto simp: becomes_def dest!: op_rename_lookup)
    show ?thesis
    proof (rule bc.ens_onError)
      show "ensures (\<lambda>_. True) (becomes q (Reg 0x1A4 data)) (Remove t) (\<lambda>_ _. True)"
        by (rule as_becomes [OF frame_Remove [OF False]])
    qed (rule bc.ens_bind as_becomes [OF uc.ens_onError [OF ensures_wrap [OF wr] frame_Close]]
        as_becomes [OF uc.ens_onError [OF ensures_wrap [OF ch] frame_Close]]
        as_becomes [OF ensures_wrap [OF cl]] ensures_wrap [OF rn])+
  qed (use assms(2) in \<open>simp add: ensures_def\<close>)
qed

subsection \<open>The tree to write\<close>

text \<open>
  What the renderers hand over: different relative names in clean form, none of them the manifest
  or with a component like a temporary file, none the directory of another or of the manifest.
\<close>

definition good_name :: "string \<Rightarrow> bool" where
  "good_name name \<longleftrightarrow> plain_name name \<and>
     list_all (\<lambda>c. \<not> HasPrefix c tmpPrefix) (split_char CHR ''/'' name)"

definition good_tree :: "string gomap \<Rightarrow> bool" where
  "good_tree files \<longleftrightarrow>
     (let names = manifestName # map fst files in
      distinct names \<and> list_all good_name names \<and>
      list_all (\<lambda>a. list_all (\<lambda>b. \<not> strict_prefix (split_char CHR ''/'' a) (split_char CHR ''/'' b)) names) names)"

text \<open>The files an earlier pruning run recorded.\<close>

definition recorded :: "path \<Rightarrow> fs \<Rightarrow> string list" where
  "recorded dir s = (case op_read (Join dir manifestName) s of
     Inl e \<Rightarrow> [] | Inr text \<Rightarrow> filter (\<lambda>n. n \<noteq> []) (split_char newline (TrimSpace text)))"

lemma good_name_temp: "good_name name \<Longrightarrow> \<not> temp_of d tmpPrefix (Join dir name)"
  by (auto simp: good_name_def Join_plain temp_of_def HasPrefix_iff list_all_iff)
    (metis last_appendR last_in_set last_snoc split_char_not_Nil)

lemma manifest_plain: "plain_name manifestName"
  by code_simp

lemma good_treeD:
  assumes "good_tree files"
  shows "distinct (map fst files)" and "manifestName \<notin> fst ` set files"
    and "n \<in> insert manifestName (fst ` set files) \<Longrightarrow> good_name n"
    and "a \<in> insert manifestName (fst ` set files) \<Longrightarrow> b \<in> insert manifestName (fst ` set files) \<Longrightarrow>
      \<not> strict_prefix (split_char CHR ''/'' a) (split_char CHR ''/'' b)"
proof -
  have *: "\<forall>n\<in>insert manifestName (fst ` set files). good_name n"
    "\<forall>a\<in>insert manifestName (fst ` set files). \<forall>b\<in>insert manifestName (fst ` set files).
       \<not> strict_prefix (split_char CHR ''/'' a) (split_char CHR ''/'' b)"
    using assms by (simp_all add: good_tree_def list_all_iff Let_def)
  then show "n \<in> insert manifestName (fst ` set files) \<Longrightarrow> good_name n" by blast
  show "a \<in> insert manifestName (fst ` set files) \<Longrightarrow> b \<in> insert manifestName (fst ` set files) \<Longrightarrow>
      \<not> strict_prefix (split_char CHR ''/'' a) (split_char CHR ''/'' b)"
    using *(2) by blast
qed (use assms in \<open>simp_all add: good_tree_def Let_def\<close>)

lemma good_tree_manifest:
  assumes "good_tree files" and "name \<in> fst ` set files"
  shows "Join dir manifestName \<noteq> Join dir name"
  using good_treeD [OF assms(1)] assms(2) manifest_plain
  by (metis Join_plain_inj good_name_def insert_iff)

lemma butlast_Join: "plain_name name \<Longrightarrow> butlast (Join dir name) = dir @ butlast (split_char CHR ''/'' name)"
  by (simp add: Join_plain butlast_append)

text \<open>A path that a run may create as the directory of a target.\<close>

definition parent_of :: "path \<Rightarrow> path \<Rightarrow> bool" where
  "parent_of q p \<longleftrightarrow> strict_prefix q p"

lemma take_parent: "p \<noteq> [] \<Longrightarrow> take k (butlast p) = q \<Longrightarrow> parent_of q p"
proof -
  assume p: "p \<noteq> []" "take k (butlast p) = q"
  then have "p = butlast p @ [last p]" by simp
  then have "p = q @ drop k (butlast p) @ [last p]"
    by (metis append.assoc append_take_drop_id p(2))
  then have "strict_prefix q p"
    by (simp only: strict_prefix_def prefix_def) (metis append_is_Nil_conv append_self_conv list.discI)
  then show "parent_of q p" by (simp add: parent_of_def)
qed

lemma good_tree_parent:
  assumes "good_tree files" and "a \<in> insert manifestName (fst ` set files)" and "b \<in> insert manifestName (fst ` set files)"
  shows "\<not> parent_of (Join dir a) (Join dir b)"
  using good_treeD(3) [OF assms(1) assms(2)] good_treeD(3) [OF assms(1) assms(3)] good_treeD(4) [OF assms]
  by (simp add: parent_of_def Join_plain strict_prefix_def good_name_def)

lemma frame_write_one:
  assumes "plain_name name" and "Join dir name \<noteq> q" and "\<not> parent_of q (Join dir name)" 
    and "\<not> temp_of (butlast (Join dir name)) tmpPrefix q"
  shows "ensures P (unchanged q) (write_one dir files name) (\<lambda>_ _. True)"
  unfolding write_one_def Let_def
proof (rule uc.ens_bind)
  show "ensures P (unchanged q) (wrapIO (CreateDirFailed (Join dir name)) (MkdirAll (butlast (Join dir name)) 0x1ED)) (\<lambda>_ _. True)"
    using take_parent [OF Join_plain_nonempty [OF assms(1)]] assms(3)
    by (intro ensures_wrap true_pre [OF frame_MkdirAll]) blast
qed (intro frame_writeFileAtomic assms)

lemma atomic_write_one:
  assumes "good_name name" and "map_of files name = Some data"
  shows "ensures P (becomes (Join dir name) (Reg 0x1A4 data)) (write_one dir files name)
    (\<lambda>_ s. lookup s (Join dir name) = Some (Reg 0x1A4 data))"
  unfolding write_one_def Let_def
proof (rule bc.ens_bind)
  have plain: "plain_name name" using assms(1) by (simp add: good_name_def)
  have "\<not> parent_of (Join dir name) (Join dir name)" by (simp add: parent_of_def)
  then have "ensures P (unchanged (Join dir name)) (wrapIO (CreateDirFailed (Join dir name)) (MkdirAll (butlast (Join dir name)) 0x1ED)) (\<lambda>_ _. True)"
    using take_parent [OF Join_plain_nonempty [OF plain]]
    by (intro ensures_wrap true_pre [OF frame_MkdirAll]) blast
  then show "ensures P (becomes (Join dir name) (Reg 0x1A4 data))
      (wrapIO (CreateDirFailed (Join dir name)) (MkdirAll (butlast (Join dir name)) 0x1ED)) (\<lambda>_ _. True)"
    by (rule ensures_mono) (rule unchanged_becomes)
  show "ensures (\<lambda>_. True) (becomes (Join dir name) (Reg 0x1A4 data)) (writeFileAtomic (Join dir name) (the (map_of files name)))
      (\<lambda>_ s. lookup s (Join dir name) = Some (Reg 0x1A4 data))"
    using atomic_writeFileAtomic [OF Join_plain_nonempty [OF plain] good_name_temp [OF assms(1)]] assms(2)
    by simp
qed

subsection \<open>The whole run\<close>

lemma uc_keep:
  assumes "ensures P (unchanged q) f Q"
  shows "ensures (\<lambda>s. P s \<and> I (lookup s q)) (unchanged q) f (\<lambda>_ s. I (lookup s q))"
  using assms by (auto simp: ensures_def evolves_def unchanged_def)

lemma good_name_plain: "good_name name \<Longrightarrow> plain_name name"
  by (simp add: good_name_def)

lemma frame_prune_one:
  assumes "n \<noteq> [] \<Longrightarrow> map_of files n = None \<Longrightarrow> Join dir n \<noteq> q"
  shows "ensures P (unchanged q) (prune_one dir files n) (\<lambda>_ _. True)"
  unfolding prune_one_def using assms
  by (auto intro!: uc.ens_return uc.ens_bind [OF uc.ens_try [OF frame_Remove]])

definition spares :: "path \<Rightarrow> string gomap \<Rightarrow> path \<Rightarrow> fs \<Rightarrow> bool" where
  "spares dir files q s \<longleftrightarrow> (\<forall>n\<in>set (recorded dir s). map_of files n = None \<longrightarrow> Join dir n \<noteq> q)"

lemma frame_pruneStale: "ensures (spares dir files q) (unchanged q) (pruneStale dir files) (\<lambda>_ _. True)"
proof -
  let ?ok = "\<lambda>text. \<forall>n\<in>set (split_char newline (TrimSpace text)). n \<noteq> [] \<longrightarrow> map_of files n = None \<longrightarrow> Join dir n \<noteq> q"
  show ?thesis unfolding pruneStale_def
  proof (rule uc.ens_bind)
    show "ensures (spares dir files q) (unchanged q) (tryIO (ReadFile (Join dir manifestName)))
        (\<lambda>r s. case r of Inl e \<Rightarrow> True | Inr text \<Rightarrow> ?ok text)"
    proof (rule uc.ens_try)
      show "ensures (spares dir files q) (unchanged q) (ReadFile (Join dir manifestName)) (\<lambda>text s. ?ok text)"
        unfolding ReadFile_def by (rule uc.ens_query) (auto simp: spares_def recorded_def)
    qed simp_all
  next
    fix r
    show "ensures (\<lambda>s. case r of Inl e \<Rightarrow> True | Inr text \<Rightarrow> ?ok text) (unchanged q)
        (case r of Inl err \<Rightarrow> returnIO () | Inr text \<Rightarrow> forIO (prune_one dir files) (split_char newline (TrimSpace text)))
        (\<lambda>_ _. True)"
    proof (cases r)
      case (Inr body)
      show ?thesis
      proof (cases "?ok body")
        case True
        then have "ensures (\<lambda>_. True) (unchanged q) (forIO (prune_one dir files) (split_char newline (TrimSpace body))) (\<lambda>_ _. True)"
          by (intro uc.ens_for frame_prune_one) blast
        with Inr show ?thesis by (simp add: true_pre)
      qed (use Inr in \<open>auto simp: ensures_def\<close>)
    qed (simp add: uc.ens_return)
  qed
qed

lemma frame_manifest:
  "Join dir manifestName \<noteq> q \<Longrightarrow> ensures P (unchanged q) (writeManifest dir names) (\<lambda>_ _. True)"
  unfolding writeManifest_def by (intro ensures_wrap true_post [OF frame_WriteFile])

text \<open>The loop over the names, seen at one of the targets.\<close>

lemma write_loop:
  assumes "good_tree files" and "map_of files name = Some data" and "set ns \<subseteq> fst ` set files"
  shows "ensures (\<lambda>s. A \<longrightarrow> lookup s (Join dir name) = Some (Reg 0x1A4 data))
    (becomes (Join dir name) (Reg 0x1A4 data)) (forIO (write_one dir files) ns)
    (\<lambda>_ s. A \<or> name \<in> set ns \<longrightarrow> lookup s (Join dir name) = Some (Reg 0x1A4 data))"
  using assms(3)
proof (induction ns arbitrary: A)
  case (Cons n ns)
  have name: "name \<in> fst ` set files" using assms(2) by (force dest: map_of_SomeD)
  have good: "good_name name" "good_name n" using good_treeD(3) [OF assms(1)] name Cons.prems by auto
  let ?q = "Join dir name" let ?v = "Reg 0x1A4 data"
  have "ensures (\<lambda>s. A \<longrightarrow> lookup s ?q = Some ?v) (becomes ?q ?v) (write_one dir files n)
      (\<lambda>_ s. A \<or> n = name \<longrightarrow> lookup s ?q = Some ?v)"
  proof (cases "n = name")
    case True
    with atomic_write_one [OF good(1) assms(2)] show ?thesis by (auto elim: ensures_weaken)
  next
    case False
    have "ensures (\<lambda>_. True) (unchanged ?q) (write_one dir files n) (\<lambda>_ _. True)"
      using False good good_tree_parent [OF assms(1), of name n dir] name Cons.prems good_name_temp
      by (intro frame_write_one) (auto simp: good_name_plain Join_plain_inj)
    from as_becomes [OF uc_keep [OF this, where I = "\<lambda>x. A \<longrightarrow> x = Some ?v"]] False show ?thesis by simp
  qed
  then show ?case
    using bc.ens_bind [OF _ Cons.IH [where A = "A \<or> n = name"]] Cons.prems
    by (fastforce elim: ensures_weaken)
qed (simp add: bc.ens_return)

lemma spares_target:
  assumes "map_of files name = Some data" and "list_all plain_name (recorded dir s)" and "plain_name name"
  shows "spares dir files (Join dir name) s"
  using assms by (auto simp: spares_def list_all_iff Join_plain_inj)

lemma WriteTree_target:
  assumes "good_tree files" and "map_of files name = Some data"
  shows "ensures (\<lambda>s. prune \<longrightarrow> list_all plain_name (recorded dir s)) (becomes (Join dir name) (Reg 0x1A4 data))
    (WriteTree dir files prune) (\<lambda>_ s. lookup s (Join dir name) = Some (Reg 0x1A4 data))"
proof -
  let ?q = "Join dir name" let ?v = "Reg 0x1A4 data"
  have name: "name \<in> fst ` set files" using assms(2) by (force dest: map_of_SomeD)
  have good: "good_name name" using good_treeD(3) [OF assms(1)] name by simp
  have pr: "ensures (\<lambda>s. prune \<longrightarrow> list_all plain_name (recorded dir s)) (unchanged ?q)
      (if prune then pruneStale dir files else returnIO ()) (\<lambda>_ _. True)"
  proof (cases prune)
    case True
    have "ensures (\<lambda>s. list_all plain_name (recorded dir s)) (unchanged ?q) (pruneStale dir files) (\<lambda>_ _. True)"
      using spares_target [OF assms(2) _ good_name_plain [OF good]]
      by (intro ensures_weaken [OF frame_pruneStale]) simp_all
    with True show ?thesis by simp
  qed (simp add: uc.ens_return)
  have loop: "ensures (\<lambda>_. True) (becomes ?q ?v) (forIO (write_one dir files) (sortedKeys files)) (\<lambda>_ s. lookup s ?q = Some ?v)"
    using write_loop [OF assms, of "sortedKeys files" False dir] name by simp
  have man: "ensures (\<lambda>s. lookup s ?q = Some ?v) (unchanged ?q)
      (if prune then writeManifest dir (sortedKeys files) else returnIO ()) (\<lambda>_ s. lookup s ?q = Some ?v)"
  proof (cases prune)
    case True
    with uc_keep [OF frame_manifest [OF good_tree_manifest [OF assms(1) name]], where I = "\<lambda>x. x = Some ?v"]
    show ?thesis by (simp add: ensures_def)
  qed (simp add: uc.ens_return)
  show ?thesis unfolding WriteTree_def Let_def
    by (rule bc.ens_bind [OF as_becomes [OF pr]] bc.ens_bind [OF loop] as_becomes [OF man])+
qed

text \<open>And at a path the run has no business with.\<close>

lemma WriteTree_elsewhere:
  assumes "good_tree files" and "\<forall>name\<in>fst ` set files. Join dir name \<noteq> q \<and> \<not> parent_of q (Join dir name)"
    and "\<forall>d. \<not> temp_of d tmpPrefix q" and "prune \<Longrightarrow> Join dir manifestName \<noteq> q"
  shows "ensures (\<lambda>s. prune \<longrightarrow> spares dir files q s) (unchanged q) (WriteTree dir files prune) (\<lambda>_ _. True)"
proof -
  have pr: "ensures (\<lambda>s. prune \<longrightarrow> spares dir files q s) (unchanged q)
      (if prune then pruneStale dir files else returnIO ()) (\<lambda>_ _. True)"
    by (cases prune) (simp_all add: uc.ens_return ensures_weaken [OF frame_pruneStale])
  have loop: "ensures (\<lambda>_. True) (unchanged q) (forIO (write_one dir files) (sortedKeys files)) (\<lambda>_ _. True)"
    using assms(2,3) good_name_plain [OF good_treeD(3) [OF assms(1)]]
    by (intro uc.ens_for frame_write_one) auto
  have man: "ensures (\<lambda>_. True) (unchanged q)
      (if prune then writeManifest dir (sortedKeys files) else returnIO ()) (\<lambda>_ _. True)"
    using assms(4) by (simp add: uc.ens_return frame_manifest)
  show ?thesis unfolding WriteTree_def Let_def
    by (rule uc.ens_bind [OF pr] uc.ens_bind [OF loop] man)+
qed

subsection \<open>Runs without failures\<close>

text \<open>
  A tree into which the targets can be written: no target is a directory or lies below a file, and
  no temporary file of an earlier run was left beside a target.
\<close>

definition writable_at :: "path \<Rightarrow> string \<Rightarrow> fs \<Rightarrow> bool" where
  "writable_at dir n s \<longleftrightarrow> \<not> is_dir s (Join dir n) \<and> (\<forall>p. parent_of p (Join dir n) \<longrightarrow> \<not> is_reg s p) \<and>
     (\<forall>r. lookup s (butlast (Join dir n) @ [tmpPrefix @ r]) = None)"

definition writable :: "path \<Rightarrow> string list \<Rightarrow> fs \<Rightarrow> bool" where
  "writable dir names s \<longleftrightarrow> (\<forall>n\<in>set names. writable_at dir n s)"

lemma writable_cong:
  "(\<And>q. lookup s q = lookup s' q) \<Longrightarrow> writable dir names s = writable dir names s'"
  by (simp add: writable_def writable_at_def is_dir_def is_reg_def)

lemma temp_not_parent:
  assumes "good_name n" and "plain_name n'" and "parent_of p (Join dir n)"
  shows "p \<noteq> butlast (Join dir n') @ [tmpPrefix @ r]"
proof
  assume "p = butlast (Join dir n') @ [tmpPrefix @ r]"
  with assms obtain zs where "dir @ split_char CHR ''/'' n = dir @ butlast (split_char CHR ''/'' n') @ [tmpPrefix @ r] @ zs"
    by (auto simp: parent_of_def strict_prefix_def prefix_def butlast_Join Join_plain good_name_def butlast_append)
  then have "tmpPrefix @ r \<in> set (split_char CHR ''/'' n)" by (simp add: in_set_conv_decomp)
  with assms(1) show False by (auto simp: good_name_def list_all_iff)
qed

text \<open>Directories above a target may be made, files and empty directories removed.\<close>

lemma writable_mkdir:
  assumes "good_tree files" and "n \<in> fst ` set files" and "writable dir (manifestName # map fst files) s"
    and "parent_of p (Join dir n)" and "op_create p (Dir m) s = Inr s'"
  shows "writable dir (manifestName # map fst files) s'"
proof -
  note new = op_create_lookup [OF assms(5)]
  have "writable_at dir n' s'" if "n' \<in> insert manifestName (fst ` set files)" for n'
  proof -
    have "p \<noteq> Join dir n'" "p \<noteq> butlast (Join dir n') @ [tmpPrefix @ r]" for r
      using good_tree_parent [OF assms(1) that, of n dir] assms(2,4) temp_not_parent [OF good_treeD(3) [OF assms(1)]]
        good_name_plain [OF good_treeD(3) [OF assms(1) that]] by blast+
    moreover have "writable_at dir n' s" using assms(3) that by (auto simp: writable_def)
    ultimately show ?thesis using new by (auto simp: writable_at_def is_dir_def is_reg_def)
  qed
  then show ?thesis by (simp add: writable_def)
qed

lemma writable_remove:
  assumes "writable dir names s" and "op_remove p s = Inr s'"
  shows "writable dir names s'"
  using assms(1) op_remove_lookup [OF assms(2)] by (auto simp: writable_def writable_at_def is_dir_def is_reg_def)

lemma writable_put:
  assumes "good_tree files" and "n \<in> insert manifestName (fst ` set files)" and "writable dir (manifestName # map fst files) s"
    and "\<And>q. lookup s' q = (if q = Join dir n then Some (Reg m c) else lookup s q)"
  shows "writable dir (manifestName # map fst files) s'"
proof -
  have "writable_at dir n' s'" if "n' \<in> insert manifestName (fst ` set files)" for n'
  proof -
    have "\<not> parent_of (Join dir n) (Join dir n')" by (rule good_tree_parent [OF assms(1,2) that])
    moreover have "butlast (Join dir n') @ [tmpPrefix @ r] \<noteq> Join dir n" for r
      using good_name_temp [OF good_treeD(3) [OF assms(1,2)]] by (metis temp_of_def)
    moreover have "writable_at dir n' s" using assms(3) that by (auto simp: writable_def)
    ultimately show ?thesis by (auto simp: writable_at_def is_dir_def is_reg_def assms(4))
  qed
  then show ?thesis by (simp add: writable_def)
qed

lemma comp_writeFileAtomic:
  assumes "good_tree files" and "n \<in> fst ` set files"
  shows "completes (\<lambda>s. writable dir (manifestName # map fst files) s \<and> is_dir s (butlast (Join dir n)))
     (writeFileAtomic (Join dir n) data) (\<lambda>_. writable dir (manifestName # map fst files))"
proof -
  let ?q = "Join dir n" let ?W = "writable dir (manifestName # map fst files)"
  define mid where "mid t s \<longleftrightarrow> t \<noteq> [] \<and> t \<noteq> ?q \<and> is_dir s (butlast ?q) \<and> is_reg s t \<and> ?W (del_node t s)" for t s
  have n: "n \<in> insert manifestName (fst ` set files)" using assms(2) by simp
  have good: "good_name n" using good_treeD(3) [OF assms(1) n] .
  have mid_put: "mid t s'" if "mid t s" "\<forall>q. lookup s' q = (if q = t then Some (Reg m c) else lookup s q)" for t s s' m c
  proof -
    have "?W (del_node t s')"
      using that by (intro writable_cong [THEN iffD1, of "del_node t s" "del_node t s'"]) (simp_all add: mid_def)
    moreover have "t \<noteq> butlast ?q" using that(1) by (auto simp: mid_def is_dir_def is_reg_def split: option.splits node.splits)
    ultimately show ?thesis using that by (simp add: mid_def is_dir_def is_reg_def)
  qed
  have create: "completes (\<lambda>s. ?W s \<and> is_dir s (butlast ?q)) (CreateTemp (butlast ?q) tmpPrefix) mid"
  proof -
    have "completes (\<lambda>s. ?W s \<and> is_dir s (butlast ?q))
        (bindIO (prim (op_create (butlast ?q @ [tmpPrefix @ snd u]) (Reg (0x180 AND NOT (fst u)) [])))
          (\<lambda>_. returnIO (butlast ?q @ [tmpPrefix @ snd u]))) mid" for u :: "mode \<times> string"
    proof (rule comp_bind)
      let ?t = "butlast ?q @ [tmpPrefix @ snd u]"
      show "completes (\<lambda>s. ?W s \<and> is_dir s (butlast ?q)) (prim (op_create ?t (Reg (0x180 AND NOT (fst u)) []))) (\<lambda>_. mid ?t)"
      proof (rule comp_prim)
        fix s assume s: "?W s \<and> is_dir s (butlast ?q)"
        with n have free: "lookup s ?t = None" by (auto simp: writable_def writable_at_def)
        have "?t \<noteq> ?q" using good_name_temp [OF good, of "butlast ?q" dir] by (metis temp_of_def)
        moreover have "?W (del_node ?t (set_node ?t x s))" for x
          using s free by (subst writable_cong [of _ s]) simp_all
        moreover have "is_dir (set_node ?t x s) (butlast ?q)" for x using s by (simp add: is_dir_def)
        moreover have "is_reg (set_node ?t (Reg m c) s) ?t" for m c by (simp add: is_reg_def)
        ultimately have "mid ?t (set_node ?t (Reg m []) s)" for m by (simp add: mid_def)
        moreover have "op_create ?t x s = Inr (set_node ?t x s)" for x using s free by (simp add: op_create_def)
        ultimately show "\<exists>s'. op_create ?t (Reg (0x180 AND NOT (fst u)) []) s = Inr s' \<and> mid ?t s'" by blast
      qed
    qed (simp add: comp_return)
    then have "completes (\<lambda>s. ?W s \<and> is_dir s (butlast ?q))
        (\<lambda>w. (\<lambda>u. bindIO (prim (op_create (butlast ?q @ [tmpPrefix @ snd u]) (Reg (0x180 AND NOT (fst u)) [])))
          (\<lambda>_. returnIO (butlast ?q @ [tmpPrefix @ snd u]))) (w_umask w, w_rand w (w_tick w)) w) mid"
      by (rule comp_world)
    then show ?thesis by (simp add: CreateTemp_def [abs_def] Let_def)
  qed
  have wr: "completes (mid t) (WriteIO t d) (\<lambda>_. mid t)" for t d
  proof (rule comp_WriteIO)
    fix s assume s: "mid t s"
    then obtain m c where "lookup s t = Some (Reg m c)" by (auto simp: mid_def is_reg_def split: option.splits node.splits)
    moreover have "mid t (set_node t (Reg m d) s)" using s by (intro mid_put [OF s]) (simp add: mid_def)
    ultimately show "\<exists>s'. op_write t d s = Inr s' \<and> mid t s'" by (simp add: op_write_def)
  qed
  have ch: "completes (mid t) (Chmod t m) (\<lambda>_. mid t)" for t m
    unfolding Chmod_def
  proof (rule comp_prim)
    fix s assume s: "mid t s"
    then obtain m' c where "lookup s t = Some (Reg m' c)" by (auto simp: mid_def is_reg_def split: option.splits node.splits)
    moreover have "mid t (set_node t (Reg m c) s)" using s by (intro mid_put [OF s]) (simp add: mid_def)
    ultimately show "\<exists>s'. op_chmod t m s = Inr s' \<and> mid t s'" by (simp add: op_chmod_def)
  qed
  have cl: "completes (mid t) CloseIO (\<lambda>_. mid t)" for t
    unfolding CloseIO_def by (rule comp_query) simp
  have rn: "completes (mid t) (Rename t ?q) (\<lambda>_. ?W)" for t
    unfolding Rename_def
  proof (rule comp_prim)
    fix s assume s: "mid t s"
    then obtain m c where t: "lookup s t = Some (Reg m c)" by (auto simp: mid_def is_reg_def split: option.splits node.splits)
    have q: "?q \<noteq> []" using good by (simp add: Join_plain_nonempty good_name_def)
    have "\<not> is_dir s ?q" using s n by (auto simp: mid_def writable_def writable_at_def is_dir_def)
    moreover have "?W (set_node ?q (Reg m c) (del_node t s))"
      by (rule writable_put [OF assms(1) n, of dir "del_node t s"]) (use s q in \<open>simp_all add: mid_def\<close>)
    ultimately show "\<exists>s'. op_rename t ?q s = Inr s' \<and> ?W s'"
      using s t by (simp add: op_rename_def mid_def)
  qed
  show ?thesis unfolding writeFileAtomic_def
    by (rule comp_bind [OF comp_wrap [OF create]], rule comp_onError,
        rule comp_bind [OF comp_onError [OF comp_wrap [OF wr]]],
        rule comp_bind [OF comp_onError [OF comp_wrap [OF ch]]],
        rule comp_bind [OF comp_wrap [OF cl]], rule comp_wrap [OF rn])
qed

lemma comp_and_ensures:
  assumes "completes P f Q" and "ensures P' R f Q'"
  shows "completes (\<lambda>s. P s \<and> P' s) f (\<lambda>x s. Q x s \<and> Q' x s)"
  unfolding completes_def
proof (intro allI impI)
  fix w :: world
  assume w: "w_fault w = (\<lambda>_. False) \<and> P (w_fs w) \<and> P' (w_fs w)"
  with assms(1) obtain x w' where run: "f w = (Inr x, w')" "w_fault w' = (\<lambda>_. False)" "Q x (w_fs w')"
    unfolding completes_def by blast
  with ensuresD(2) [OF assms(2)] w have "Q' x (w_fs w')" by blast
  with run show "\<exists>x w'. f w = (Inr x, w') \<and> w_fault w' = (\<lambda>_. False) \<and> Q x (w_fs w') \<and> Q' x (w_fs w')" by blast
qed

text \<open>The tree invariant of a run without failures.\<close>

definition ready :: "path \<Rightarrow> string gomap \<Rightarrow> bool \<Rightarrow> fs \<Rightarrow> bool" where
  "ready dir files prune s \<longleftrightarrow>
     writable dir (manifestName # map fst files) s \<and> (prune \<longrightarrow> is_dir s dir)"

lemma Join_not_dir: "plain_name n \<Longrightarrow> Join dir n \<noteq> dir"
  by (simp add: Join_plain)

lemma comp_write_one:
  assumes "good_tree files" and "n \<in> fst ` set files"
  shows "completes (ready dir files prune) (write_one dir files n) (\<lambda>_. ready dir files prune)"
  unfolding write_one_def Let_def
proof (rule comp_bind)
  let ?q = "Join dir n"
  have good: "good_name n" using good_treeD(3) [OF assms(1)] assms(2) by simp
  then have plain: "plain_name n" by (rule good_name_plain)
  have parent: "parent_of (take k (butlast ?q)) ?q" for k
    by (rule take_parent [OF Join_plain_nonempty [OF plain] refl])
  have "completes (ready dir files prune) (MkdirAll (butlast ?q) 0x1ED)
      (\<lambda>_ s. ready dir files prune s \<and> is_dir s (butlast ?q))"
  proof (rule comp_MkdirAll)
    fix s k assume s: "ready dir files prune s"
    show "\<not> is_reg s (take k (butlast ?q))"
      using s parent assms(2) by (force simp: ready_def writable_def writable_at_def)
    fix m s' assume op: "op_create (take k (butlast ?q)) (Dir m) s = Inr s'"
    with s writable_mkdir [OF assms _ parent op] op_create_lookup [OF op] show "ready dir files prune s'"
      by (auto simp: ready_def is_dir_def)
  qed
  then show "completes (ready dir files prune) (wrapIO (CreateDirFailed ?q) (MkdirAll (butlast ?q) 0x1ED))
      (\<lambda>_ s. ready dir files prune s \<and> is_dir s (butlast ?q))"
    by (rule comp_wrap)
  let ?put = "writeFileAtomic ?q (the (map_of files n))"
  have "\<not> temp_of (butlast ?q) tmpPrefix dir"
    using plain by (auto simp: temp_of_def butlast_Join)
  then have "ensures (\<lambda>_. True) (unchanged dir) ?put (\<lambda>_ _. True)"
    by (intro frame_writeFileAtomic Join_not_dir plain)
  from comp_and_ensures [OF comp_writeFileAtomic [OF assms]
      uc_keep [OF this, where I = "\<lambda>x. prune \<longrightarrow> (case x of Some (Dir m) \<Rightarrow> True | _ \<Rightarrow> False)"]]
  show "completes (\<lambda>s. ready dir files prune s \<and> is_dir s (butlast ?q)) ?put (\<lambda>_. ready dir files prune)"
    by (rule comp_weaken) (auto simp: ready_def is_dir_def)
qed

lemma comp_prune_one:
  assumes "n \<noteq> [] \<Longrightarrow> plain_name n"
  shows "completes (ready dir files prune) (prune_one dir files n) (\<lambda>_. ready dir files prune)"
proof -
  have "ready dir files prune s'" if s: "ready dir files prune s" "op_remove (Join dir n) s = Inr s'" "n \<noteq> []" for s s'
  proof -
    have "lookup s' dir = lookup s dir"
      using op_remove_lookup [OF s(2)] Join_not_dir [OF assms [OF s(3)], of dir] by metis
    with s writable_remove [OF _ s(2)] show ?thesis by (simp add: ready_def is_dir_def)
  qed
  then have "n \<noteq> [] \<Longrightarrow> completes (ready dir files prune) (tryIO (Remove (Join dir n))) (\<lambda>_. ready dir files prune)"
    unfolding Remove_def by (intro comp_try_prim) (auto split: sum.split)
  then show ?thesis unfolding prune_one_def by (auto intro: comp_return comp_bind)
qed

lemma comp_pruneStale:
  "completes (\<lambda>s. ready dir files prune s \<and> list_all plain_name (recorded dir s)) (pruneStale dir files)
     (\<lambda>_. ready dir files prune)"
  unfolding pruneStale_def
proof (rule comp_bind)
  let ?ok = "\<lambda>r. case r of Inl e \<Rightarrow> True
    | Inr body \<Rightarrow> \<forall>n\<in>set (split_char newline (TrimSpace body)). n \<noteq> [] \<longrightarrow> plain_name n"
  show "completes (\<lambda>s. ready dir files prune s \<and> list_all plain_name (recorded dir s))
      (tryIO (ReadFile (Join dir manifestName))) (\<lambda>r s. ready dir files prune s \<and> ?ok r)"
    unfolding ReadFile_def by (rule comp_try_query) (auto simp: recorded_def list_all_iff split: sum.splits)
  fix r
  show "completes (\<lambda>s. ready dir files prune s \<and> ?ok r)
      (case r of Inl err \<Rightarrow> returnIO () | Inr body \<Rightarrow> forIO (prune_one dir files) (split_char newline (TrimSpace body)))
      (\<lambda>_. ready dir files prune)"
  proof (cases "?ok r")
    case True
    then have "completes (ready dir files prune)
      (case r of Inl err \<Rightarrow> returnIO () | Inr body \<Rightarrow> forIO (prune_one dir files) (split_char newline (TrimSpace body)))
      (\<lambda>_. ready dir files prune)"
      by (cases r) (auto intro!: comp_return comp_for comp_prune_one)
    then show ?thesis by (rule comp_weaken) simp_all
  qed (auto simp: completes_def)
qed

lemma comp_manifest:
  assumes "good_tree files"
  shows "completes (\<lambda>s. ready dir files True s) (writeManifest dir names) (\<lambda>_ _. True)"
proof -
  let ?p = "Join dir manifestName"
  have p: "?p \<noteq> []" "butlast ?p = dir"
    using manifest_plain by (simp_all add: Join_plain_nonempty butlast_Join) (code_simp)
  have op: "\<exists>s'. op_open_trunc ?p m s = Inr s' \<and> is_reg s' ?p" if "ready dir files True s" for s m
  proof -
    have "\<not> is_dir s ?p" "is_dir s dir" using that by (auto simp: ready_def writable_def writable_at_def)
    then show ?thesis using p
      by (cases "lookup s ?p") (auto simp: op_open_trunc_def op_create_def is_dir_def is_reg_def split: node.split)
  qed
  have wr: "completes (\<lambda>s. is_reg s ?p) (WriteIO ?p d) (\<lambda>_ _. True)" for d
    by (rule comp_WriteIO) (auto simp: is_reg_def op_write_def split: option.splits node.splits)
  have "completes (ready dir files True)
      (bindIO (prim (op_open_trunc ?p (m AND NOT u))) (\<lambda>_. bindIO (WriteIO ?p d) (\<lambda>_. CloseIO))) (\<lambda>_ _. True)" for m u d
  proof (rule comp_bind)
    show "completes (ready dir files True) (prim (op_open_trunc ?p (m AND NOT u))) (\<lambda>_ s. is_reg s ?p)"
      by (rule comp_prim) (use op in blast)
    show "completes (\<lambda>s. is_reg s ?p) (bindIO (WriteIO ?p d) (\<lambda>_. CloseIO)) (\<lambda>_ _. True)"
      by (rule comp_bind [OF wr]) (auto simp: CloseIO_def intro: comp_query)
  qed
  then have "completes (ready dir files True)
      (\<lambda>w. (\<lambda>u. bindIO (prim (op_open_trunc ?p (m AND NOT u))) (\<lambda>_. bindIO (WriteIO ?p d) (\<lambda>_. CloseIO))) (w_umask w) w)
      (\<lambda>_ _. True)" for m d
    by (rule comp_world)
  then show ?thesis unfolding writeManifest_def by (intro comp_wrap) (simp add: WriteFile_def [abs_def])
qed

lemma comp_WriteTree:
  assumes "good_tree files"
  shows "completes (\<lambda>s. ready dir files prune s \<and> (prune \<longrightarrow> list_all plain_name (recorded dir s)))
    (WriteTree dir files prune) (\<lambda>_ _. True)"
  unfolding WriteTree_def Let_def
proof (rule comp_bind)
  show "completes (\<lambda>s. ready dir files prune s \<and> (prune \<longrightarrow> list_all plain_name (recorded dir s)))
      (if prune then pruneStale dir files else returnIO ()) (\<lambda>_. ready dir files prune)"
    using comp_pruneStale [of dir files prune] by (auto intro: comp_return)
  show "completes (ready dir files prune) (bindIO (forIO (write_one dir files) (sortedKeys files))
       (\<lambda>_. if prune then writeManifest dir (sortedKeys files) else returnIO ())) (\<lambda>_ _. True)"
  proof (rule comp_bind)
    show "completes (ready dir files prune) (forIO (write_one dir files) (sortedKeys files)) (\<lambda>_. ready dir files prune)"
      by (rule comp_for) (auto intro: comp_write_one [OF assms])
    show "completes (ready dir files prune) (if prune then writeManifest dir (sortedKeys files) else returnIO ()) (\<lambda>_ _. True)"
      using comp_manifest [OF assms, of dir "sortedKeys files"] by (cases prune) (simp_all add: comp_return)
  qed
qed

subsection \<open>The manifest\<close>

lemma TrimSpace_id:
  assumes "s \<noteq> []" and "\<not> white_space (hd s)" and "\<not> white_space (last s)"
  shows "TrimSpace (s @ [newline]) = s"
proof -
  have "dropWhile white_space (s @ [newline]) = s @ [newline]"
    using assms(1,2) by (cases s) auto
  moreover have "dropWhile white_space (rev (s @ [newline])) = rev s"
  proof -
    have "white_space newline" by code_simp
    moreover have "dropWhile white_space (rev s) = rev s"
      using assms(1,3) by (cases "rev s") (auto simp: hd_rev [symmetric])
    ultimately show ?thesis by simp
  qed
  ultimately show ?thesis by (simp add: TrimSpace_def)
qed

lemma hd_join: "ns \<noteq> [] \<Longrightarrow> hd ns \<noteq> [] \<Longrightarrow> hd (join sep ns) = hd (hd ns)"
  by (cases ns; cases "tl ns") (auto simp: join_Cons)

lemma last_join: "ns \<noteq> [] \<Longrightarrow> \<forall>n\<in>set ns. n \<noteq> [] \<Longrightarrow> last (join sep ns) = last (last ns)"
proof (induction ns)
  case (Cons n ns)
  then show ?case
  proof (cases "ns = []")
    case False
    then have "join sep ns \<noteq> []" using Cons.prems by (cases ns; cases "tl ns") (auto simp: join_Cons)
    with False Cons show ?thesis by (simp add: join_Cons)
  qed simp
qed simp

definition white_free :: "string \<Rightarrow> bool" where
  "white_free n \<longleftrightarrow> list_all (\<lambda>c. \<not> white_space c) n"

lemma manifest_lines:
  assumes "\<forall>n\<in>set ns. n \<noteq> [] \<and> white_free n"
  shows "filter (\<lambda>n. n \<noteq> []) (split_char newline (TrimSpace (join [newline] ns @ [newline]))) = ns"
proof (cases "ns = []")
  case True
  have "filter (\<lambda>n. n \<noteq> []) (split_char newline (TrimSpace (join [newline] [] @ [newline]))) = []" by code_simp
  with True show ?thesis by simp
next
  case False
  let ?s = "join [newline] ns"
  have white: "white_space newline" by code_simp
  have ends: "hd (hd ns) \<in> set (hd ns)" "last (last ns) \<in> set (last ns)" "hd ns \<in> set ns" "last ns \<in> set ns"
    using False assms by simp_all
  have "?s \<noteq> []" using False assms by (cases ns; cases "tl ns") (auto simp: join_Cons)
  moreover have "\<not> white_space (hd ?s)"
    using False assms ends hd_join [of ns "[newline]"] by (metis list_all_iff white_free_def)
  moreover have "\<not> white_space (last ?s)"
    using False assms ends last_join [of ns "[newline]"] by (metis list_all_iff white_free_def)
  ultimately have "TrimSpace (?s @ [newline]) = ?s" by (rule TrimSpace_id)
  moreover have "split_char newline ?s = ns"
    using False assms white by (intro split_join) (auto simp: white_free_def list_all_iff)
  ultimately show ?thesis using assms by (simp add: filter_id_conv)
qed

lemma post_manifest:
  "ensures P (\<lambda>_ _. True) (writeManifest dir names)
     (\<lambda>_ s. \<exists>m. lookup s (Join dir manifestName) = Some (Reg m (join [newline] names @ [newline])))"
proof -
  obtain q where "q \<noteq> Join dir manifestName" by (metis append_self_conv2 list.discI)
  then have "ensures P (unchanged q) (writeManifest dir names)
      (\<lambda>_ s. \<exists>m. lookup s (Join dir manifestName) = Some (Reg m (join [newline] names @ [newline])))"
    unfolding writeManifest_def by (intro ensures_wrap frame_WriteFile) simp
  then show ?thesis by (rule ensures_mono) simp
qed

lemma WriteTree_manifest:
  assumes "fst (WriteTree dir files True w) = Inr ()"
  shows "\<exists>m. lookup (w_fs (snd (WriteTree dir files True w))) (Join dir manifestName) =
     Some (Reg m (join [newline] (sortedKeys files) @ [newline]))"
proof -
  obtain w' where run: "WriteTree dir files True w = (Inr (), w')" using assms by (metis prod.collapse)
  then obtain v where "writeManifest dir (sortedKeys files) v = (Inr (), w')"
    by (auto simp: WriteTree_def Let_def bindIO_def split: prod.splits sum.splits)
  from ensuresD(2) [OF post_manifest TrueI this] run show ?thesis by simp
qed

subsection \<open>Pruning\<close>

lemma op_remove_error: "op_remove p s = Inl e \<Longrightarrow> p \<noteq> [] \<Longrightarrow> \<not> is_reg s p"
  by (simp add: op_remove_def is_reg_def split: option.splits node.splits if_splits)

lemma op_remove_reg: "op_remove p s = Inr s' \<Longrightarrow> is_reg s' q \<Longrightarrow> is_reg s q \<and> q \<noteq> p"
  using op_remove_lookup [of p s s'] by (auto simp: is_reg_def split: if_splits)

lemma comp_prune_gone:
  assumes "plain_name n" and "n \<noteq> []" and "map_of files n = None"
  shows "completes (\<lambda>s. A \<longrightarrow> \<not> is_reg s (Join dir n)) (forIO (prune_one dir files) ns)
     (\<lambda>_ s. A \<or> n \<in> set ns \<longrightarrow> \<not> is_reg s (Join dir n))"
proof (induction ns arbitrary: A)
  case (Cons k ns)
  let ?q = "Join dir n"
  have "completes (\<lambda>s. A \<longrightarrow> \<not> is_reg s ?q) (prune_one dir files k) (\<lambda>_ s. A \<or> k = n \<longrightarrow> \<not> is_reg s ?q)"
  proof -
    have q: "?q \<noteq> []" by (rule Join_plain_nonempty [OF assms(1)])
    have rem: "completes (\<lambda>s. A \<longrightarrow> \<not> is_reg s ?q) (tryIO (Remove (Join dir k))) (\<lambda>_ s. A \<or> k = n \<longrightarrow> \<not> is_reg s ?q)"
      unfolding Remove_def
    proof (rule comp_try_prim)
      fix s assume "A \<longrightarrow> \<not> is_reg s ?q"
      with q op_remove_error [of "Join dir k" s] op_remove_reg [of "Join dir k" s _ ?q]
      show "case op_remove (Join dir k) s of Inl e \<Rightarrow> A \<or> k = n \<longrightarrow> \<not> is_reg s ?q
          | Inr s' \<Rightarrow> A \<or> k = n \<longrightarrow> \<not> is_reg s' ?q"
        by (cases "op_remove (Join dir k) s") auto
    qed
    have "completes (\<lambda>s. A \<longrightarrow> \<not> is_reg s ?q) (bindIO (tryIO (Remove (Join dir k))) (\<lambda>_. returnIO ()))
        (\<lambda>_ s. A \<or> k = n \<longrightarrow> \<not> is_reg s ?q)"
      by (rule comp_bind [OF rem]) (rule comp_return)
    then show ?thesis unfolding prune_one_def
      using assms by (auto intro: comp_return)
  qed
  from comp_bind [OF this Cons.IH [where A = "A \<or> k = n"]] show ?case
    by (simp add: disj_ac) (auto elim!: comp_weaken)
qed (simp add: comp_return)

lemma comp_pruneStale_gone:
  assumes "plain_name n" and "map_of files n = None"
  shows "completes (\<lambda>s. n \<in> set (recorded dir s)) (pruneStale dir files) (\<lambda>_ s. \<not> is_reg s (Join dir n))"
  unfolding pruneStale_def
proof (rule comp_bind)
  let ?ok = "\<lambda>r. case r of Inl e \<Rightarrow> False | Inr body \<Rightarrow> n \<in> set (split_char newline (TrimSpace body))"
  show "completes (\<lambda>s. n \<in> set (recorded dir s)) (tryIO (ReadFile (Join dir manifestName))) (\<lambda>r s. ?ok r)"
    unfolding ReadFile_def by (rule comp_try_query) (auto simp: recorded_def split: sum.splits)
  fix r
  have "n \<noteq> []" using assms(1) by (auto simp: plain_name_def plain_component_def)
  then show "completes (\<lambda>s. ?ok r)
      (case r of Inl err \<Rightarrow> returnIO () | Inr body \<Rightarrow> forIO (prune_one dir files) (split_char newline (TrimSpace body)))
      (\<lambda>_ s. \<not> is_reg s (Join dir n))"
    using comp_prune_gone [OF assms(1) _ assms(2), of False dir]
    by (cases r) (auto simp: completes_def)
qed

lemma gone_write_one:
  assumes "good_name name" and "good_name n" and "n \<noteq> name"
  shows "ensures (\<lambda>_. True) (stays_gone (Join dir n)) (write_one dir files name) (\<lambda>_ _. True)"
  unfolding write_one_def Let_def
proof (rule sg.ens_bind)
  show "ensures (\<lambda>_. True) (stays_gone (Join dir n))
      (wrapIO (CreateDirFailed (Join dir name)) (MkdirAll (butlast (Join dir name)) 0x1ED)) (\<lambda>_ _. True)"
    by (rule ensures_wrap [OF gone_MkdirAll])
  have "Join dir name \<noteq> Join dir n"
    using assms by (simp add: Join_plain_inj good_name_plain)
  from frame_writeFileAtomic [OF this good_name_temp [OF assms(2)]]
  show "ensures (\<lambda>_. True) (stays_gone (Join dir n))
      (writeFileAtomic (Join dir name) (the (map_of files name))) (\<lambda>_ _. True)"
    by (rule ensures_mono [OF _ unchanged_stays_gone])
qed

subsection \<open>An example tree\<close>

definition ex_files :: "string gomap" where
  "ex_files = [(''k8s/a.yaml'', ''A''), (''README'', ''R'')]"

definition ex_world :: "(nat \<Rightarrow> bool) \<Rightarrow> world" where
  "ex_world faults =
     \<lparr>w_fs = [([''out''], Dir 0x1ED), ([''out'', ''README''], Reg 0x1A4 ''old''), ([''out'', ''gone''], Reg 0x1A4 ''x''),
              ([''out'', ''notes''], Reg 0x1A4 ''mine''),
              ([''out'', manifestName], Reg 0x1A4 (''README'' @ [newline] @ ''gone'' @ [newline]))],
      w_seen = [], w_tick = 0, w_fault = faults, w_short = (\<lambda>_. 1), w_rand = (\<lambda>_. ''7''), w_umask = 0x12,
      w_clock = (\<lambda>_. 0)\<rparr>"

lemma ex_files_good: "good_tree ex_files"
  by code_simp

lemma ex_recorded: "recorded [''out''] (w_fs (ex_world f)) = [''README'', ''gone'']"
proof -
  have "recorded [''out''] (w_fs (ex_world (\<lambda>_. False))) = [''README'', ''gone'']" by code_simp
  then show ?thesis by (simp add: ex_world_def)
qed

lemma ex_ready: "ready [''out''] ex_files True (w_fs (ex_world f))"
proof -
  let ?s = "w_fs (ex_world f)"
  have joins: "Join [''out''] manifestName = [''out'', manifestName]" "Join [''out''] ''k8s/a.yaml'' = [''out'', ''k8s'', ''a.yaml'']"
    "Join [''out''] ''README'' = [''out'', ''README'']" by code_simp+
  have reg: "length p = 2 \<and> last p \<noteq> ''k8s''" if "is_reg ?s p" for p
    using that by (auto simp: is_reg_def lookup_def ex_world_def manifestName_def split: if_splits)
  have short: "\<not> is_reg ?s p" if "parent_of p q" "length q = 2" for p q
    using that prefix_length_less [of p q] reg [of p] by (auto simp: parent_of_def)
  have long: "\<not> is_reg ?s p" if "parent_of p [''out'', ''k8s'', ''a.yaml'']" for p
  proof
    assume "is_reg ?s p"
    with reg have "length p = 2" "last p \<noteq> ''k8s''" by blast+
    moreover from this(1) that have "p = take 2 [''out'', ''k8s'', ''a.yaml'']"
      by (metis append_eq_conv_conj parent_of_def prefixE strict_prefixE)
    ultimately show False by simp
  qed
  have no_dirs: "\<not> is_dir ?s [''out'', manifestName]" "\<not> is_dir ?s [''out'', ''k8s'', ''a.yaml'']"
    "\<not> is_dir ?s [''out'', ''README'']" "is_dir ?s [''out'']"
    by (simp_all add: is_dir_def lookup_def ex_world_def manifestName_def)
  have no_temps: "lookup ?s [''out'', tmpPrefix @ r] = None" "lookup ?s [''out'', ''k8s'', tmpPrefix @ r] = None" for r
    by (simp_all add: lookup_def ex_world_def manifestName_def tmpPrefix_def)
  have "writable_at [''out''] manifestName ?s" "writable_at [''out''] ''k8s/a.yaml'' ?s" "writable_at [''out''] ''README'' ?s"
    unfolding writable_at_def joins using short long no_dirs no_temps by simp_all
  with no_dirs(4) show ?thesis by (simp add: ready_def writable_def ex_files_def)
qed

subsection \<open>Properties\<close>

text \<open>
  Merging the renderers' outputs loses nothing and hides nothing: it succeeds exactly when the
  two outputs have no name in common and no name occurs twice in the second, and then the result
  holds every file of both and no other; otherwise the error names a file that both produced.
\<close>

theorem MergeInto_union:
  "(fst (MergeInto all part) = None \<longleftrightarrow> distinct (map fst part) \<and> fst ` set all \<inter> fst ` set part = {}) \<and>
   (fst (MergeInto all part) = None \<longrightarrow> snd (MergeInto all part) = all @ part) \<and>
   (\<forall>k. fst (MergeInto all part) = Some (DuplicateOutput k) \<longrightarrow> k \<in> fst ` set part)"
proof (induction part arbitrary: all)
  case (Cons kv part)
  obtain k v where kv: "kv = (k, v)" by (cases kv)
  show ?case
  proof (cases "map_of all k")
    case None
    then have fresh: "k \<notin> fst ` set all" by (simp add: map_of_eq_None_iff)
    with Cons.IH [of "all @ [(k, v)]"] show ?thesis
      by (simp add: kv None update_fresh) (auto simp: image_iff)
  next
    case (Some x)
    then have "k \<in> fst ` set all" by (force dest: map_of_SomeD)
    with Some show ?thesis by (auto simp: kv)
  qed
qed simp

theorem MergeInto_union_witness:
  "MergeInto [(''a'', ''1'')] [(''b'', ''2'')] = (None, [(''a'', ''1''), (''b'', ''2'')])"
proof -
  have "fst (MergeInto [(''a'', ''1'')] [(''b'', ''2'')]) = None" by code_simp
  moreover from this have "snd (MergeInto [(''a'', ''1'')] [(''b'', ''2'')]) = [(''a'', ''1'')] @ [(''b'', ''2'')]"
    using MergeInto_union [of "[(''a'', ''1'')]" "[(''b'', ''2'')]"] by blast
  ultimately show ?thesis by (metis append_Cons append_Nil prod.collapse)
qed

text \<open>
  C9. A reader never sees a half-written file. Whatever operations of a run fail, and at whatever
  point it is cut off, in every state of the tree that the run passes through each file to write is
  either as it was before the run or complete with its new content and mode 0644; and when the run
  reports success every file is complete. The names recorded by an earlier pruning run are assumed
  to be in clean form, which is what the run itself records.
\<close>

theorem WriteTree_atomic:
  assumes "good_tree files" and "(name, data) \<in> set files" and "w_seen w = []"
    and "prune \<longrightarrow> list_all plain_name (recorded dir (w_fs w))"
  shows "(\<forall>s\<in>set (w_seen (snd (WriteTree dir files prune w))).
       lookup s (Join dir name) = lookup (w_fs w) (Join dir name) \<or> lookup s (Join dir name) = Some (Reg 0x1A4 data)) \<and>
    (fst (WriteTree dir files prune w) = Inr () \<longrightarrow>
       lookup (w_fs (snd (WriteTree dir files prune w))) (Join dir name) = Some (Reg 0x1A4 data))"
proof -
  obtain r w' where run: "WriteTree dir files prune w = (r, w')" by (cases "WriteTree dir files prune w")
  have "map_of files name = Some data" using good_treeD(1) [OF assms(1)] assms(2) by simp
  note target = ensuresD [OF WriteTree_target [OF assms(1) this] assms(4) run]
  from target(1) obtain new where "w_seen w' = new @ w_seen w"
    "\<forall>s\<in>set new. becomes (Join dir name) (Reg 0x1A4 data) (w_fs w) s"
    unfolding evolves_def by blast
  with assms(3) target(2) run show ?thesis by (simp add: becomes_def)
qed

theorem WriteTree_atomic_witness:
  "(let w = ex_world (\<lambda>n. n = 12) in
     fst (WriteTree [''out''] ex_files True w) \<noteq> Inr () \<and>
     list_all (\<lambda>s. lookup s [''out'', ''README''] = Some (Reg 0x1A4 ''old'') \<or> lookup s [''out'', ''README''] = Some (Reg 0x1A4 ''R''))
       (w_seen (snd (WriteTree [''out''] ex_files True w))))"
proof -
  let ?w = "ex_world (\<lambda>n. n = 12)"
  have "list_all plain_name (recorded [''out''] (w_fs ?w))" unfolding ex_recorded by code_simp
  moreover have "(''README'', ''R'') \<in> set ex_files" "w_seen ?w = []" by (simp_all add: ex_files_def ex_world_def)
  ultimately have seen: "\<forall>s\<in>set (w_seen (snd (WriteTree [''out''] ex_files True ?w))).
       lookup s (Join [''out''] ''README'') = lookup (w_fs ?w) (Join [''out''] ''README'') \<or>
       lookup s (Join [''out''] ''README'') = Some (Reg 0x1A4 ''R'')"
    using WriteTree_atomic [OF ex_files_good, of "''README''" "''R''" ?w True "[''out'']"] by blast
  have "Join [''out''] ''README'' = [''out'', ''README'']" "lookup (w_fs ?w) [''out'', ''README''] = Some (Reg 0x1A4 ''old'')"
    "isl (fst (WriteTree [''out''] ex_files True ?w))"
    by code_simp+
  with seen show ?thesis by (auto simp: Let_def list_all_iff)
qed

text \<open>
  C22. The run touches nothing else. A path that is not a file to write, not a directory on the way
  to one, not the manifest, not a recorded file that is no longer produced, and not named like a
  temporary file keeps its node through every state of the run: files an operator put beside the
  generated ones survive both writing and pruning, whatever fails.
\<close>

theorem WriteTree_confined:
  assumes "good_tree files" and "\<forall>name\<in>fst ` set files. Join dir name \<noteq> q \<and> \<not> parent_of q (Join dir name)"
    and "\<forall>d. \<not> temp_of d tmpPrefix q" and "Join dir manifestName \<noteq> q"
    and "\<forall>name\<in>set (recorded dir (w_fs w)). map_of files name = None \<longrightarrow> Join dir name \<noteq> q"
    and "w_seen w = []"
  shows "\<forall>s\<in>set (w_fs (snd (WriteTree dir files prune w)) # w_seen (snd (WriteTree dir files prune w))).
    lookup s q = lookup (w_fs w) q"
proof -
  obtain r w' where run: "WriteTree dir files prune w = (r, w')" by (cases "WriteTree dir files prune w")
  have "prune \<longrightarrow> spares dir files q (w_fs w)" using assms(5) by (simp add: spares_def)
  from ensuresD(1) [OF WriteTree_elsewhere [OF assms(1-4)] this run]
  show ?thesis using run assms(6) by (auto simp: evolves_def unchanged_def)
qed

theorem WriteTree_confined_witness:
  "list_all (\<lambda>s. lookup s [''out'', ''notes''] = Some (Reg 0x1A4 ''mine''))
     (w_seen (snd (WriteTree [''out''] ex_files True (ex_world (\<lambda>n. n = 9)))))"
proof -
  let ?q = "[''out'', ''notes'']"
  have joins: "Join [''out''] manifestName = [''out'', manifestName]" "Join [''out''] ''k8s/a.yaml'' = [''out'', ''k8s'', ''a.yaml'']"
    "Join [''out''] ''README'' = [''out'', ''README'']" "Join [''out''] ''gone'' = [''out'', ''gone'']" by code_simp+
  have targets: "\<forall>name\<in>fst ` set ex_files. Join [''out''] name \<noteq> ?q \<and> \<not> parent_of ?q (Join [''out''] name)"
    by (simp add: ex_files_def joins parent_of_def strict_prefix_def)
  have temps: "\<forall>d. \<not> temp_of d tmpPrefix ?q"
    by (auto simp: temp_of_def tmpPrefix_def append_eq_Cons_conv Cons_eq_append_conv)
  have manifest: "Join [''out''] manifestName \<noteq> ?q" unfolding joins by (simp add: manifestName_def)
  have stale: "\<forall>name\<in>set (recorded [''out''] (w_fs (ex_world (\<lambda>n. n = 9)))). map_of ex_files name = None \<longrightarrow> Join [''out''] name \<noteq> ?q"
    by (simp add: ex_recorded joins)
  have start: "w_seen (ex_world (\<lambda>n. n = 9)) = []" "lookup (w_fs (ex_world (\<lambda>n. n = 9))) ?q = Some (Reg 0x1A4 ''mine'')"
    by (simp_all add: ex_world_def lookup_def)
  from WriteTree_confined [OF ex_files_good targets temps manifest stale start(1), of True] start(2)
  show ?thesis by (simp add: list_all_iff)
qed

text \<open>
  C23. When nothing fails, the run succeeds: into a tree where no file to write (and not the
  manifest) is a directory, none lies below a file and no temporary file was left, and with the
  output directory present when pruning, WriteTree returns without an error and every file has its
  content.
\<close>

theorem WriteTree_completes:
  assumes "good_tree files" and "w_fault w = (\<lambda>_. False)" and "ready dir files prune (w_fs w)"
    and "prune \<longrightarrow> list_all plain_name (recorded dir (w_fs w))"
  shows "fst (WriteTree dir files prune w) = Inr () \<and>
    list_all (\<lambda>nd. lookup (w_fs (snd (WriteTree dir files prune w))) (Join dir (fst nd)) = Some (Reg 0x1A4 (snd nd))) files"
proof -
  obtain w' where run: "WriteTree dir files prune w = (Inr (), w')"
    using completesD [OF comp_WriteTree [OF assms(1)] assms(2), of dir prune] assms(3,4) by auto
  have "lookup (w_fs w') (Join dir (fst nd)) = Some (Reg 0x1A4 (snd nd))" if "nd \<in> set files" for nd
  proof -
    have "map_of files (fst nd) = Some (snd nd)" using good_treeD(1) [OF assms(1)] that by simp
    from ensuresD(2) [OF WriteTree_target [OF assms(1) this] assms(4) run] show ?thesis by simp
  qed
  with run show ?thesis by (simp add: list_all_iff)
qed

theorem WriteTree_completes_witness:
  "fst (WriteTree [''out''] ex_files True (ex_world (\<lambda>_. False))) = Inr ()"
proof -
  have "list_all plain_name (recorded [''out''] (w_fs (ex_world (\<lambda>_. False))))" unfolding ex_recorded by code_simp
  moreover have "w_fault (ex_world (\<lambda>_. False)) = (\<lambda>_. False)" by (simp add: ex_world_def)
  ultimately show ?thesis using WriteTree_completes [OF ex_files_good _ ex_ready] by blast
qed

text \<open>
  What a pruning run records is what the next one reads. After a successful run with pruning,
  parsing the manifest gives back the sorted names of the files written, for names without white
  space.
\<close>

theorem WriteTree_records:
  assumes "good_tree files" and "list_all (\<lambda>nd. white_free (fst nd)) files"
    and "fst (WriteTree dir files True w) = Inr ()"
  shows "recorded dir (w_fs (snd (WriteTree dir files True w))) = sortedKeys files"
proof -
  have "n \<noteq> [] \<and> white_free n" if "n \<in> set (sortedKeys files)" for n
    using good_name_plain [OF good_treeD(3) [OF assms(1)], of n] that assms(2)
    by (auto simp: plain_name_def plain_component_def list_all_iff)
  with WriteTree_manifest [OF assms(3)] manifest_lines [of "sortedKeys files"] show ?thesis
    by (auto simp: recorded_def op_read_def)
qed

theorem WriteTree_records_witness:
  "recorded [''out''] (w_fs (snd (WriteTree [''out''] ex_files True (ex_world (\<lambda>_. False))))) = [''README'', ''k8s/a.yaml'']"
proof -
  have "\<not> isl (fst (WriteTree [''out''] ex_files True (ex_world (\<lambda>_. False))))" by code_simp
  then have "fst (WriteTree [''out''] ex_files True (ex_world (\<lambda>_. False))) = Inr ()"
    by (cases "fst (WriteTree [''out''] ex_files True (ex_world (\<lambda>_. False)))") simp_all
  moreover have "list_all (\<lambda>nd. white_free (fst nd)) ex_files" by code_simp
  moreover have "sortedKeys ex_files = [''README'', ''k8s/a.yaml'']" by code_simp
  ultimately show ?thesis using WriteTree_records [OF ex_files_good] by simp
qed

text \<open>
  Pruning removes what is no longer produced: a file that the manifest records and that the new
  output does not contain is gone after the run, when nothing fails.
\<close>

theorem WriteTree_prunes:
  assumes "good_tree files" and "w_fault w = (\<lambda>_. False)" and "name \<in> set (recorded dir (w_fs w))"
    and "map_of files name = None" and "good_name name" and "name \<noteq> manifestName"
  shows "\<not> is_reg (w_fs (snd (WriteTree dir files True w))) (Join dir name)"
proof -
  let ?q = "Join dir name"
  note plain = good_name_plain [OF assms(5)]
  obtain v where prune: "pruneStale dir files w = (Inr (), v)" "\<not> is_reg (w_fs v) ?q"
    using completesD [OF comp_pruneStale_gone [OF plain assms(4)] assms(2,3)] by auto
  let ?rest = "bindIO (forIO (write_one dir files) (sortedKeys files)) (\<lambda>_. writeManifest dir (sortedKeys files))"
  have "ensures (\<lambda>_. True) (stays_gone ?q) ?rest (\<lambda>_ _. True)"
  proof (rule sg.ens_bind)
    show "ensures (\<lambda>_. True) (stays_gone ?q) (forIO (write_one dir files) (sortedKeys files)) (\<lambda>_ _. True)"
      using good_treeD(3) [OF assms(1)] assms(4,5)
      by (intro sg.ens_for gone_write_one) (auto simp: map_of_eq_None_iff)
    have "Join dir manifestName \<noteq> ?q" using manifest_plain plain assms(6) by (simp add: Join_plain_inj)
    then show "ensures (\<lambda>_. True) (stays_gone ?q) (writeManifest dir (sortedKeys files)) (\<lambda>_ _. True)"
      by (intro ensures_mono [OF frame_manifest unchanged_stays_gone])
  qed
  then have "evolves (stays_gone ?q) v (snd (?rest v))" unfolding ensures_def by blast
  moreover have "WriteTree dir files True w = ?rest v" by (simp add: WriteTree_def Let_def bindIO_def prune(1))
  ultimately show ?thesis using prune(2) by (simp add: evolves_def stays_gone_def)
qed

theorem WriteTree_prunes_witness:
  "is_reg (w_fs (ex_world (\<lambda>_. False))) [''out'', ''gone''] \<and>
   \<not> is_reg (w_fs (snd (WriteTree [''out''] ex_files True (ex_world (\<lambda>_. False))))) [''out'', ''gone'']"
proof -
  have "Join [''out''] ''gone'' = [''out'', ''gone'']" "good_name ''gone''" "''gone'' \<noteq> manifestName"
    "map_of ex_files ''gone'' = None" "is_reg (w_fs (ex_world (\<lambda>_. False))) [''out'', ''gone'']"
    by code_simp+
  moreover have "''gone'' \<in> set (recorded [''out''] (w_fs (ex_world (\<lambda>_. False))))" by (simp add: ex_recorded)
  moreover have "w_fault (ex_world (\<lambda>_. False)) = (\<lambda>_. False)" by (simp add: ex_world_def)
  ultimately show ?thesis using WriteTree_prunes [OF ex_files_good, of "ex_world (\<lambda>_. False)" "''gone''" "[''out'']"] by simp
qed

end
