(* ===== verification/Go_Format.thy ===== *)
theory Go_Format
  imports Go_Strings Json
begin

section \<open>Formatting\<close>

text \<open>
  What the renderers use of Go's packages fmt, strings and encoding/json: decimal integers,
  \<open>strings.ReplaceAll\<close>, \<open>strings.LastIndex\<close> and \<open>json.MarshalIndent\<close>. The text templates of the
  code are definitions of their own, each a concatenation of the template's text and its actions;
  executing them into a buffer cannot fail.
\<close>

subsection \<open>Decimal numbers\<close>

definition digit_char :: "int \<Rightarrow> char" where
  "digit_char d = char_of (48 + d)"

function decimal :: "int \<Rightarrow> string" where
  "decimal n = (if n < 10 then [digit_char n] else decimal (n div 10) @ [digit_char (n mod 10)])"
  by pat_completeness auto
termination
  by (relation "measure nat") auto

declare decimal.simps [simp del]

definition itoa :: "int \<Rightarrow> string" where
  \<comment> \<open>\<^theory_text>\<open>%d\<close>\<close>
  "itoa n = (if n < 0 then CHR ''-'' # decimal (- n) else decimal n)"

lemma digit_digit_char: "0 \<le> d \<Longrightarrow> d < 10 \<Longrightarrow> digit (digit_char d)"
proof -
  have "list_all (\<lambda>d. digit (digit_char d)) [0, 1, 2, 3, 4, 5, 6, 7, 8, 9]" by code_simp
  moreover assume "0 \<le> d" "d < 10"
  then have "d = 0 \<or> d = 1 \<or> d = 2 \<or> d = 3 \<or> d = 4 \<or> d = 5 \<or> d = 6 \<or> d = 7 \<or> d = 8 \<or> d = 9" by presburger
  ultimately show ?thesis by auto
qed

lemma of_char_digit: "0 \<le> d \<Longrightarrow> d < 10 \<Longrightarrow> (of_char (digit_char d) :: int) = 48 + d"
  by (simp add: digit_char_def)

lemma decimal_digits: "0 \<le> n \<Longrightarrow> list_all digit (decimal n) \<and> decimal n \<noteq> []"
proof (induction n rule: decimal.induct)
  case (1 n)
  show ?case
  proof (cases "n < 10")
    case True
    with 1(2) show ?thesis by (subst (1 2) decimal.simps) (simp add: digit_digit_char)
  next
    case False
    with 1 have "list_all digit (decimal (n div 10)) \<and> decimal (n div 10) \<noteq> []" by simp
    with False show ?thesis by (subst (1 2) decimal.simps) (simp add: digit_digit_char)
  qed
qed

text \<open>The value that a string of digits denotes.\<close>

definition decimal_value :: "string \<Rightarrow> int" where
  "decimal_value ds = foldl (\<lambda>v c. 10 * v + (of_char c - 48)) 0 ds"

lemma decimal_value: "0 \<le> n \<Longrightarrow> decimal_value (decimal n) = n"
proof (induction n rule: decimal.induct)
  case (1 n)
  show ?case
  proof (cases "n < 10")
    case True
    with 1(2) show ?thesis by (subst decimal.simps) (simp add: decimal_value_def of_char_digit)
  next
    case False
    with 1 have "decimal_value (decimal (n div 10)) = n div 10" by simp
    with False show ?thesis by (subst decimal.simps) (simp add: decimal_value_def of_char_digit)
  qed
qed

lemma itoa_inj: "0 \<le> m \<Longrightarrow> 0 \<le> n \<Longrightarrow> itoa m = itoa n \<longleftrightarrow> m = n"
  by (auto simp: itoa_def dest: arg_cong [where f = decimal_value] simp: decimal_value)

lemma itoa_digits: "0 \<le> n \<Longrightarrow> list_all digit (itoa n) \<and> itoa n \<noteq> []"
  by (simp add: itoa_def decimal_digits)

subsection \<open>Replacing and searching\<close>

fun ReplaceAll :: "string \<Rightarrow> string \<Rightarrow> string \<Rightarrow> string" where
  \<comment> \<open>\<^theory_text>\<open>strings.ReplaceAll(s, old, new)\<close> for an \<open>old\<close> that is not empty, the string last\<close>
  "ReplaceAll old new [] = []"
| "ReplaceAll old new (c # s) =
     (if old \<noteq> [] \<and> HasPrefix (c # s) old then new @ ReplaceAll old new (drop (length old - 1) s)
      else c # ReplaceAll old new s)"

definition LastIndexByte :: "string \<Rightarrow> char \<Rightarrow> nat option" where
  \<comment> \<open>\<^theory_text>\<open>strings.LastIndex\<close> of one byte\<close>
  "LastIndexByte s c =
     (if c \<in> set s then Some (length s - 1 - length (takeWhile (\<lambda>x. x \<noteq> c) (rev s))) else None)"

lemma LastIndexByte_split:
  "LastIndexByte s c = Some i \<longleftrightarrow> (\<exists>a b. s = a @ c # b \<and> c \<notin> set b \<and> i = length a)"
proof
  assume "LastIndexByte s c = Some i"
  then have c: "c \<in> set s" and i: "i = length s - 1 - length (takeWhile (\<lambda>x. x \<noteq> c) (rev s))"
    by (auto simp: LastIndexByte_def split: if_splits)
  from c obtain a b where s: "s = a @ c # b" "c \<notin> set b" using split_list_last by fast
  then have "takeWhile (\<lambda>x. x \<noteq> c) (rev s) = rev b"
    by (auto simp: takeWhile_append takeWhile_tail)
  with s i show "\<exists>a b. s = a @ c # b \<and> c \<notin> set b \<and> i = length a" by auto
next
  assume "\<exists>a b. s = a @ c # b \<and> c \<notin> set b \<and> i = length a"
  then obtain a b where s: "s = a @ c # b" "c \<notin> set b" "i = length a" by blast
  then have "takeWhile (\<lambda>x. x \<noteq> c) (rev s) = rev b"
    by (auto simp: takeWhile_append takeWhile_tail)
  with s show "LastIndexByte s c = Some i" by (simp add: LastIndexByte_def)
qed

subsection \<open>Indented JSON\<close>

text \<open>
  \<^theory_text>\<open>json.MarshalIndent(v, "", "  ")\<close>, for the value as the encoder sees it: object members in
  their order of output, omitted fields left out. The numbers are decimal integers.
\<close>

definition json_indent :: "nat \<Rightarrow> string" where
  "json_indent n = newline # replicate (2 * n) (CHR '' '')"

fun indented :: "nat \<Rightarrow> json \<Rightarrow> string" where
  "indented n JNull = ''null''"
| "indented n (JBool b) = (if b then ''true'' else ''false'')"
| "indented n (JNum d) = d"
| "indented n (JStr v) = json_string v"
| "indented n (JArr vs) =
     (if vs = [] then ''[]''
      else ''['' @ join '','' (map (\<lambda>v. json_indent (Suc n) @ indented (Suc n) v) vs) @ json_indent n @ '']'')"
| "indented n (JObj kvs) =
     (if kvs = [] then ''{}''
      else ''{'' @ join '','' (map (\<lambda>kv. json_indent (Suc n) @ json_string (fst kv) @ '': '' @ indented (Suc n) (snd kv)) kvs)
        @ json_indent n @ ''}'')"

definition MarshalIndent :: "json \<Rightarrow> string" where
  "MarshalIndent v = indented 0 v"

definition JInt :: "int \<Rightarrow> json" where
  "JInt n = JNum (itoa n)"

end
