(* ===== verification/Cred_Metrics.thy ===== *)
theory Cred_Metrics
  imports CredHealth WriteTree Go_Format
begin

section \<open>Credential metrics\<close>

text \<open>
  File internal/credhealth/metrics.go and the command cmd/credhealth: the report of a scan as
  Prometheus metrics, written for the textfile collector, and the exit code of the command. The
  argument \<open>seconds\<close> of \<open>WriteMetrics\<close> stands for \<^theory_text>\<open>int64(d.Seconds())\<close>, which Go computes in
  floating point; \<open>date\<close> stands for \<^theory_text>\<open>t.Format("2006-01-02")\<close>, which depends on the time zone.
  What the command prints is the list of the cells of its table and the numbers of its summary, not
  their alignment by package tabwriter.
\<close>

definition MetricCredExpirySeconds :: string where
  "MetricCredExpirySeconds = ''vikasa_cred_expiry_seconds''"

definition MetricCredArtifactsTotal :: string where
  "MetricCredArtifactsTotal = ''vikasa_cred_artifacts_total''"

definition MetricCredHealthLastScan :: string where
  "MetricCredHealthLastScan = ''vikasa_credhealth_last_scan_timestamp_seconds''"

definition StatusString :: "Status \<Rightarrow> string" where
  "StatusString s = (case s of StatusOK \<Rightarrow> ''OK'' | StatusExpiring \<Rightarrow> ''EXPIRING'' | StatusExpired \<Rightarrow> ''EXPIRED''
     | StatusNoExpiry \<Rightarrow> ''NO_EXPIRY'' | StatusError \<Rightarrow> ''ERROR'')"

definition expiry_line :: "(int \<Rightarrow> int) \<Rightarrow> int \<Rightarrow> Record \<Rightarrow> string" where
  \<open>expiry_line seconds now r =
     (case r_Expiry r of
        None \<Rightarrow> []
      | Some e \<Rightarrow>
          MetricCredExpirySeconds @ ''{kind="'' @ escapeLabel (r_Kind r) @ ''",identity="'' @ escapeLabel (r_Identity r) @
          ''",path="'' @ escapeLabel (r_Path r) @ ''"} '' @ itoa (seconds (time_sub e now)) @ [newline])\<close>

definition status_line :: "Report \<Rightarrow> Status \<Rightarrow> string" where
  \<open>status_line report s =
     MetricCredArtifactsTotal @ ''{status="'' @ StatusString s @ ''"} '' @ itoa (int (rp_Counts report s)) @ [newline]\<close>

definition WriteMetrics :: "(int \<Rightarrow> int) \<Rightarrow> Report \<Rightarrow> int \<Rightarrow> string" where
  \<comment> \<open>the text that is written in one call\<close>
  "WriteMetrics seconds report now =
     ''# HELP '' @ MetricCredExpirySeconds @
       '' Seconds until the credential artifact expires (negative if already expired).'' @ [newline] @
     ''# TYPE '' @ MetricCredExpirySeconds @ '' gauge'' @ [newline] @
     concat (map (expiry_line seconds now) (rp_Records report)) @
     ''# HELP '' @ MetricCredArtifactsTotal @ '' Count of scanned credential artifacts by expiry status.'' @ [newline] @
     ''# TYPE '' @ MetricCredArtifactsTotal @ '' gauge'' @ [newline] @
     concat (map (status_line report) [StatusOK, StatusExpiring, StatusExpired, StatusNoExpiry, StatusError]) @
     ''# HELP '' @ MetricCredHealthLastScan @ '' Unix time of the last credhealth scan.'' @ [newline] @
     ''# TYPE '' @ MetricCredHealthLastScan @ '' gauge'' @ [newline] @
     MetricCredHealthLastScan @ '' '' @ itoa (now div second) @ [newline]"

subsection \<open>The command\<close>

definition metricsPrefix :: string where "metricsPrefix = ''.credhealth-''"

definition CreateMetricsTemp :: "path \<Rightarrow> (os_error, path) io" where
  \<comment> \<open>\<^theory_text>\<open>os.CreateTemp(dir, ".credhealth-*.prom")\<close>, whose random part stands for the star;
    a name that is taken stands for giving up after the retries, as in \<open>CreateTemp\<close>\<close>
  "CreateMetricsTemp dir w =
     (let p = dir @ [metricsPrefix @ w_rand w (w_tick w) @ ''.prom''] in
      bindIO (prim (op_create p (Reg (0x180 AND NOT (w_umask w)) []))) (\<lambda>_. returnIO p) w)"

definition writeMetricsFile :: "(int \<Rightarrow> int) \<Rightarrow> path \<Rightarrow> Report \<Rightarrow> int \<Rightarrow> (os_error, unit) io" where
  "writeMetricsFile seconds p report now =
     bindIO (CreateMetricsTemp (butlast p)) (\<lambda>tmp.
       onErrorIO (Remove tmp)
         (bindIO (onErrorIO CloseIO (Chmod tmp 0x1A4)) (\<lambda>_.
          bindIO (onErrorIO CloseIO (WriteIO tmp (WriteMetrics seconds report now))) (\<lambda>_.
          bindIO CloseIO (\<lambda>_.
          Rename tmp p)))))"

record credhealth_output =
  co_Table :: "string list list"
  co_Scanned :: nat
  co_Counts :: "nat list"

definition fmtTime :: "(int \<Rightarrow> string) \<Rightarrow> int option \<Rightarrow> string" where
  "fmtTime date t = (case t of None \<Rightarrow> ''-'' | Some t \<Rightarrow> if t = zero_time then ''-'' else date t)"

definition fmtExpiry :: "(int \<Rightarrow> string) \<Rightarrow> int option \<Rightarrow> string" where
  "fmtExpiry date t = (case t of None \<Rightarrow> ''-'' | Some t \<Rightarrow> date t)"

definition credhealth_table :: "(int \<Rightarrow> string) \<Rightarrow> Report \<Rightarrow> credhealth_output" where
  "credhealth_table date report =
     \<lparr>co_Table = [''KIND'', ''IDENTITY'', ''ISSUED'', ''EXPIRES'', ''STATUS''] #
        map (\<lambda>r. [r_Kind r, r_Identity r, fmtTime date (r_Issued r), fmtExpiry date (r_Expiry r), StatusString (r_Status r)])
          (rp_Records report),
      co_Scanned = length (rp_Records report),
      co_Counts = map (rp_Counts report) [StatusOK, StatusExpiring, StatusExpired, StatusNoExpiry, StatusError]\<rparr>"

definition credhealth_run ::
    "(int \<Rightarrow> int) \<Rightarrow> (int \<Rightarrow> string) \<Rightarrow> artifact_lib \<Rightarrow> bundle_dir \<Rightarrow> int \<Rightarrow> path option \<Rightarrow> int \<Rightarrow> world \<Rightarrow>
     nat \<times> credhealth_output option \<times> world" where
  \<comment> \<open>the exit code, and what is printed on the standard output\<close>
  "credhealth_run seconds date lib dir warn metricsOut now w =
     (case Scan lib dir now warn of
        Inl err \<Rightarrow> (1, None, w)
      | Inr report \<Rightarrow>
          let printed = Some (credhealth_table date report) in
          (case metricsOut of
             None \<Rightarrow> (ExitCode report, printed, w)
           | Some p \<Rightarrow>
               (case writeMetricsFile seconds p report now w of
                  (Inl err, w') \<Rightarrow> (1, printed, w')
                | (Inr _, w') \<Rightarrow> (ExitCode report, printed, w'))))"

subsection \<open>The metrics file\<close>

definition metrics_temp :: "path \<Rightarrow> string \<Rightarrow> path" where
  "metrics_temp dir r = dir @ [metricsPrefix @ r @ ''.prom'']"

lemma metrics_temp_of: "temp_of dir metricsPrefix (metrics_temp dir r)"
  unfolding temp_of_def metrics_temp_def by blast

lemma frame_CreateMetricsTemp:
  assumes "\<not> temp_of dir metricsPrefix q"
  shows "ensures P (unchanged q) (CreateMetricsTemp dir) (\<lambda>t s. temp_of dir metricsPrefix t)"
proof -
  have neq: "metrics_temp dir r \<noteq> q" for r using assms metrics_temp_of by metis
  have "ensures P (unchanged q)
      (\<lambda>w. bindIO (prim (op_create (metrics_temp dir (snd u)) (Reg (0x180 AND NOT (fst u)) [])))
        (\<lambda>_. returnIO (metrics_temp dir (snd u))) w)
      (\<lambda>t s. temp_of dir metricsPrefix t)" for u :: "mode \<times> string"
  proof (rule uc.ens_bind)
    show "ensures P (unchanged q) (prim (op_create (metrics_temp dir (snd u)) (Reg (0x180 AND NOT (fst u)) [])))
        (\<lambda>_ _. True)"
      using neq [of "snd u"] by (intro uc.ens_prim) (auto simp: unchanged_def dest!: op_create_lookup)
    show "ensures (\<lambda>_. True) (unchanged q) (returnIO (metrics_temp dir (snd u))) (\<lambda>t s. temp_of dir metricsPrefix t)" for x :: unit
      by (rule uc.ens_return) (rule metrics_temp_of)
  qed
  then have "ensures P (unchanged q)
      (\<lambda>w. (\<lambda>u. bindIO (prim (op_create (metrics_temp dir (snd u)) (Reg (0x180 AND NOT (fst u)) [])))
        (\<lambda>_. returnIO (metrics_temp dir (snd u)))) (w_umask w, w_rand w (w_tick w)) w)
      (\<lambda>t s. temp_of dir metricsPrefix t)"
    by (rule ensures_world)
  then show ?thesis by (simp add: CreateMetricsTemp_def [abs_def] Let_def metrics_temp_def)
qed

lemma atomic_writeMetricsFile:
  assumes "\<not> temp_of (butlast q) metricsPrefix q"
  shows "ensures P (becomes q (Reg 0x1A4 (WriteMetrics seconds report now))) (writeMetricsFile seconds q report now)
    (\<lambda>_ s. lookup s q = Some (Reg 0x1A4 (WriteMetrics seconds report now)))"
  unfolding writeMetricsFile_def
proof (rule bc.ens_bind)
  let ?data = "WriteMetrics seconds report now"
  show "ensures P (becomes q (Reg 0x1A4 ?data)) (CreateMetricsTemp (butlast q)) (\<lambda>t s. temp_of (butlast q) metricsPrefix t)"
    by (rule as_becomes [OF frame_CreateMetricsTemp [OF assms]])
  fix t
  let ?made = "\<lambda>s. temp_of (butlast q) metricsPrefix t"
  show "ensures ?made (becomes q (Reg 0x1A4 ?data))
      (onErrorIO (Remove t)
         (bindIO (onErrorIO CloseIO (Chmod t 0x1A4)) (\<lambda>_.
          bindIO (onErrorIO CloseIO (WriteIO t ?data)) (\<lambda>_. bindIO CloseIO (\<lambda>_. Rename t q)))))
      (\<lambda>_ s. lookup s q = Some (Reg 0x1A4 ?data))"
  proof (cases "t = q")
    case False
    have ch: "ensures ?made (unchanged q) (Chmod t 0x1A4) (\<lambda>_ s. \<exists>c. lookup s t = Some (Reg 0x1A4 c))"
      unfolding Chmod_def using False by (intro uc.ens_prim) (auto simp: unchanged_def dest!: op_chmod_lookup)
    have wr: "ensures (\<lambda>s. \<exists>c. lookup s t = Some (Reg 0x1A4 c)) (unchanged q) (WriteIO t ?data)
        (\<lambda>_ s. lookup s t = Some (Reg 0x1A4 ?data))"
      using False by (intro uc.ens_WriteIO) (auto simp: unchanged_def dest!: op_write_lookup)
    have cl: "ensures (\<lambda>s. lookup s t = Some (Reg 0x1A4 ?data)) (unchanged q) CloseIO
        (\<lambda>_ s. lookup s t = Some (Reg 0x1A4 ?data))"
      unfolding CloseIO_def by (intro uc.ens_query) simp
    have rn: "ensures (\<lambda>s. lookup s t = Some (Reg 0x1A4 ?data)) (becomes q (Reg 0x1A4 ?data)) (Rename t q)
        (\<lambda>_ s. lookup s q = Some (Reg 0x1A4 ?data))"
      unfolding Rename_def by (intro bc.ens_prim) (auto simp: becomes_def dest!: op_rename_lookup)
    show ?thesis
    proof (rule bc.ens_onError)
      show "ensures (\<lambda>_. True) (becomes q (Reg 0x1A4 ?data)) (Remove t) (\<lambda>_ _. True)"
        by (rule as_becomes [OF frame_Remove [OF False]])
    qed (rule bc.ens_bind as_becomes [OF uc.ens_onError [OF ch frame_Close]]
        as_becomes [OF uc.ens_onError [OF wr frame_Close]] as_becomes [OF cl] rn)+
  qed (use assms in \<open>simp add: ensures_def\<close>)
qed

text \<open>
  C37. The command exits with 0 only when its summary counts nothing expired, expiring or unreadable and
  the metrics, if asked for, are in place; and in every state of the run the metrics file is the old one
  or the complete new one, so the collector never reads a part.
\<close>

theorem credhealth_run_exit:
  assumes "Scan lib dir now warn = Inr report" and "\<not> temp_of (butlast p) metricsPrefix p" and "w_seen w = []"
    and "credhealth_run seconds date lib dir warn (Some p) now w = (code, printed, w')"
  shows "(code = 0 \<longrightarrow> co_Counts (the printed) ! 1 = 0 \<and> co_Counts (the printed) ! 2 = 0 \<and> co_Counts (the printed) ! 4 = 0 \<and>
      lookup (w_fs w') p = Some (Reg 0x1A4 (WriteMetrics seconds report now))) \<and>
    (\<forall>s\<in>set (w_fs w' # w_seen w'). lookup s p = lookup (w_fs w) p \<or>
       lookup s p = Some (Reg 0x1A4 (WriteMetrics seconds report now)))"
proof -
  obtain r w1 where run: "writeMetricsFile seconds p report now w = (r, w1)"
    by (cases "writeMetricsFile seconds p report now w")
  have w': "w' = w1" "code = 0 \<Longrightarrow> \<not> isl r \<and> Healthy report" "printed = Some (credhealth_table date report)"
    using assms(1,4) run by (auto simp: credhealth_run_def ExitCode_def Let_def split: sum.splits if_splits)
  note res = ensuresD [OF atomic_writeMetricsFile [OF assms(2), where P = "\<lambda>_. True"] TrueI run]
  show ?thesis
    using res w' assms(3) by (cases r) (auto simp: evolves_def becomes_def credhealth_table_def Healthy_def)
qed

definition ex_metrics_world :: world where
  "ex_metrics_world = \<lparr>w_fs = [([''m''], Dir 0x1C0), ([''m'', ''x.prom''], Reg 0x1A4 ''old'')], w_seen = [], w_tick = 0,
     w_fault = (\<lambda>_. False), w_short = (\<lambda>_. 0), w_rand = (\<lambda>n. ''r''), w_umask = 0x12, w_clock = (\<lambda>_. 0)\<rparr>"

definition ex_bundle_lib :: artifact_lib where
  "ex_bundle_lib = \<lparr>ParseDecoratedJWT = Inr, jwt_Decode = (\<lambda>t. Inl ''no token''), pem_Decode = (\<lambda>_. None),
     ParseCertificate = (\<lambda>_. Inl ''no certificate'')\<rparr>"

theorem credhealth_run_exit_witness:
  "let (code, _, w') = credhealth_run (\<lambda>d. d div second) (\<lambda>_. ''-'') ex_bundle_lib (BundleDir []) 0 (Some [''m'', ''x.prom'']) 0 ex_metrics_world;
       report = projr (Scan ex_bundle_lib (BundleDir []) 0 0)
   in code = 0 \<and> lookup (w_fs w') [''m'', ''x.prom''] = Some (Reg 0x1A4 (WriteMetrics (\<lambda>d. d div second) report 0))"
proof -
  let ?run = "credhealth_run (\<lambda>d. d div second) (\<lambda>_. ''-'') ex_bundle_lib (BundleDir []) 0 (Some [''m'', ''x.prom'']) 0 ex_metrics_world"
  obtain code printed w' where run: "?run = (code, printed, w')" by (cases ?run)
  have scan: "Scan ex_bundle_lib (BundleDir []) 0 0 = Inr (projr (Scan ex_bundle_lib (BundleDir []) 0 0))" by (simp add: Scan_def)
  have temp: "\<not> temp_of (butlast [''m'', ''x.prom'']) metricsPrefix [''m'', ''x.prom'']"
    by (simp add: temp_of_def metricsPrefix_def)
  have "w_seen ex_metrics_world = []" by (simp add: ex_metrics_world_def)
  note res = credhealth_run_exit [OF scan temp this run]
  have "fst ?run = 0" by code_simp
  with res show ?thesis by (simp add: run Let_def)
qed

end
