(* ===== verification/K8s.thy ===== *)
theory K8s
  imports Plan Cred_Metrics
begin

section \<open>Kubernetes manifests\<close>

text \<open>
  Files internal/render/substrate.go (the slice of a cluster) and internal/render/k8s.go: the NACK
  Stream resources, the certificate, the external secret, the monitoring resources and the
  Kustomize overlay of one cluster. A template is a function of its data; its literal text is the
  text between the actions after trimming, \<open>itoa\<close> prints the integers, and a condition on a string,
  an integer or a list tests that it is not empty or zero.
\<close>

subsection \<open>The slice of a cluster\<close>

record Config =
  cf_TLSIssuer :: string
  cf_SecretStore :: string
  cf_ArgoRepoURL :: string
  cf_ArgoTargetRevision :: string
  cf_PrometheusRelease :: string
  cf_Output :: string

definition OutputKustomize :: string where "OutputKustomize = ''kustomize''"

definition OutputHelm :: string where "OutputHelm = ''helm''"

definition SliceDir :: "string \<Rightarrow> bool \<Rightarrow> string \<Rightarrow> string" where
  "SliceDir clusterID isK8s out =
     (if isK8s \<and> out = OutputHelm then ''charts/'' @ clusterID @ ''/''
      else ''clusters/'' @ clusterID @ ''/'')"

record ClusterSlice =
  cs_ID :: string
  cs_SubstrateType :: string
  cs_Hosts :: "string list"
  cs_Namespace :: string
  cs_JSDomain :: string
  cs_LeafEndpoint :: string
  cs_Streams :: "Stream list"
  cs_IsCentral :: bool
  cs_CentralLeafEndpoint :: string
  cs_DOT :: string
  cs_IssuerName :: string
  cs_SecretStore :: string
  cs_PrometheusRelease :: string

datatype render_error =
    DispatchNilTopology
  | DispatchUnknownCluster string
  | DispatchUnsupported string string
  | NoSubstrate string
  | UnknownSubstrate string
  | NoHosts string
  | BadMaxAge string string
  | BadDuplicates string string
  | HelmChart string render_error
  | DiagramNilPlan
  | RunbookNilTopology

subsection \<open>Templates\<close>

definition banner :: string where
  "banner = ''# AUTOGENERATED by vikasa-infra/cmd/gen\<newline>''"

record sourceData =
  sd_Name :: string
  sd_Domain :: string
  sd_FilterSubject :: string
  sd_TransformSource :: string
  sd_TransformDest :: string

record streamCRData =
  sc_MetaName :: string
  sc_DOT :: string
  sc_Tier :: string
  sc_Wave :: int
  sc_Name :: string
  sc_Replicas :: int
  sc_MaxAge :: string
  sc_MaxBytes :: int
  sc_Duplicates :: string
  sc_RePublishSource :: string
  sc_RePublishDest :: string
  sc_Sources :: "sourceData list"

definition streamCRTmpl :: "streamCRData \<Rightarrow> string" where
  \<open>streamCRTmpl d =
     ''apiVersion: jetstream.nats.io/v1beta2\<newline>kind: Stream\<newline>metadata:\<newline>  name: '' @
     sc_MetaName d @ ''\<newline>  labels:\<newline>    vikasa.dot: '' @ sc_DOT d @ ''\<newline>    vikasa.tier: '' @
     sc_Tier d @ ''\<newline>  annotations:\<newline>    argocd.argoproj.io/sync-wave: "'' @ itoa (sc_Wave d) @
     ''"\<newline>spec:\<newline>  name: '' @ sc_Name d @ ''\<newline>  replicas: '' @ itoa (sc_Replicas d) @
     ''\<newline>  storage: file\<newline>  retention: limits'' @
     (if sc_MaxAge d \<noteq> [] then ''\<newline>  maxAge: '' @ sc_MaxAge d else []) @
     (if sc_MaxBytes d \<noteq> 0 then ''\<newline>  maxBytes: '' @ itoa (sc_MaxBytes d) else []) @
     (if sc_Duplicates d \<noteq> [] then ''\<newline>  duplicateWindow: '' @ sc_Duplicates d else []) @
     (if sc_RePublishSource d \<noteq> [] then
        ''\<newline>  republish:\<newline>    source: '' @ sc_RePublishSource d @ ''\<newline>    destination: '' @
        sc_RePublishDest d
      else []) @
     (if sc_Sources d \<noteq> [] then
        ''\<newline>  sources:'' @
        concat (map (\<lambda>s.
           ''\<newline>  - name: '' @ sd_Name s @ ''\<newline>    externalApiPrefix: $JS.'' @ sd_Domain s @ ''.API'' @
           (if sd_TransformSource s \<noteq> [] then
              ''\<newline>    subjectTransforms:\<newline>    - source: '' @ sd_TransformSource s @
              ''\<newline>      dest: '' @ sd_TransformDest s
            else (if sd_FilterSubject s \<noteq> [] then
                 ''\<newline>    filterSubject: '' @ sd_FilterSubject s
               else []))) (sc_Sources d))
      else []) @
     ''\<newline>''\<close>

record certData =
  cd_Name :: string
  cd_DOT :: string
  cd_Cluster :: string
  cd_SecretName :: string
  cd_Issuer :: string
  cd_CommonName :: string
  cd_DNSNames :: "string list"

definition certTmpl :: "certData \<Rightarrow> string" where
  \<open>certTmpl d =
     ''# AUTOGENERATED by vikasa-infra/cmd/gen\<newline>apiVersion: cert-manager.io/v1\<newline>'' @
     ''kind: Certificate\<newline>metadata:\<newline>  name: '' @ cd_Name d @
     ''\<newline>  labels:\<newline>    vikasa.dot: '' @ cd_DOT d @ ''\<newline>    vikasa.cluster: '' @ cd_Cluster d @
     ''\<newline>spec:\<newline>  secretName: '' @ cd_SecretName d @ ''\<newline>  issuerRef:\<newline>    name: '' @
     cd_Issuer d @
     ''\<newline>    kind: ClusterIssuer\<newline>  duration: 2160h0m0s\<newline>  renewBefore: 1080h0m0s\<newline>'' @
     ''  commonName: '' @ cd_CommonName d @ ''\<newline>  usages:\<newline>    - server auth\<newline>  dnsNames:'' @
     concat (map (\<lambda>n. ''\<newline>    - '' @ n) (cd_DNSNames d)) @ ''\<newline>''\<close>

record externalSecretData =
  es_DOT :: string
  es_Cluster :: string
  es_SecretStore :: string
  es_RemoteKey :: string

definition externalSecretTmpl :: "externalSecretData \<Rightarrow> string" where
  \<open>externalSecretTmpl d =
     ''# AUTOGENERATED by vikasa-infra/cmd/gen\<newline>apiVersion: external-secrets.io/v1beta1\<newline>'' @
     ''kind: ExternalSecret\<newline>metadata:\<newline>  name: infrahub-token\<newline>  labels:\<newline>'' @
     ''    vikasa.dot: '' @ es_DOT d @ ''\<newline>    vikasa.cluster: '' @ es_Cluster d @
     ''\<newline>spec:\<newline>  refreshInterval: 1h\<newline>  secretStoreRef:\<newline>    name: '' @
     es_SecretStore d @
     ''\<newline>    kind: ClusterSecretStore\<newline>  target:\<newline>    name: infrahub-token\<newline>'' @
     ''    creationPolicy: Owner\<newline>  data:\<newline>    - secretKey: token\<newline>'' @
     ''      remoteRef:\<newline>        key: '' @ es_RemoteKey d @ ''\<newline>''\<close>

record serviceMonitorData =
  smd_DOT :: string
  smd_Cluster :: string
  smd_Namespace :: string
  smd_Release :: string

definition serviceMonitorTmpl :: "serviceMonitorData \<Rightarrow> string" where
  \<open>serviceMonitorTmpl d =
     ''# AUTOGENERATED by vikasa-infra/cmd/gen\<newline>apiVersion: monitoring.coreos.com/v1\<newline>'' @
     ''kind: ServiceMonitor\<newline>metadata:\<newline>  name: vikasa-nats-'' @ smd_Cluster d @
     ''\<newline>  namespace: '' @ smd_Namespace d @ ''\<newline>  labels:\<newline>    vikasa.dot: '' @ smd_DOT d @
     ''\<newline>    vikasa.cluster: '' @ smd_Cluster d @ ''\<newline>    release: '' @ smd_Release d @
     ''\<newline>spec:\<newline>  jobLabel: app.kubernetes.io/name\<newline>  selector:\<newline>'' @
     ''    matchLabels:\<newline>      app.kubernetes.io/name: nats\<newline>  endpoints:\<newline>'' @
     ''    - port: metrics\<newline>      interval: 30s\<newline>      path: /metrics\<newline>''\<close>

record prometheusRuleData =
  prd_DOT :: string
  prd_Cluster :: string
  prd_Namespace :: string
  prd_Release :: string
  prd_IsCentral :: bool

definition prometheusRuleTmpl :: "prometheusRuleData \<Rightarrow> string" where
  \<open>prometheusRuleTmpl d =
     ''# AUTOGENERATED by vikasa-infra/cmd/gen\<newline>apiVersion: monitoring.coreos.com/v1\<newline>'' @
     ''kind: PrometheusRule\<newline>metadata:\<newline>  name: vikasa-nats-'' @ prd_Cluster d @
     ''\<newline>  namespace: '' @ prd_Namespace d @ ''\<newline>  labels:\<newline>    vikasa.dot: '' @ prd_DOT d @
     ''\<newline>    vikasa.cluster: '' @ prd_Cluster d @ ''\<newline>    release: '' @ prd_Release d @
     ''\<newline>spec:\<newline>  groups:\<newline>    - name: vikasa-nats-'' @ prd_Cluster d @
     ''\<newline>      rules:\<newline>        - alert: NatsServerDown\<newline>'' @
     ''          expr: up{job="nats", namespace="'' @ prd_Namespace d @
     ''"} == 0\<newline>          for: 5m\<newline>          labels:\<newline>'' @
     ''            severity: critical\<newline>            vikasa_cluster: '' @ prd_Cluster d @
     ''\<newline>          annotations:\<newline>            summary: "NATS server down in cluster '' @ prd_Cluster d @
     ''"\<newline>        - alert: NatsSlowConsumers\<newline>'' @
     ''          expr: gnatsd_varz_slow_consumers{namespace="'' @ prd_Namespace d @
     ''"} > 0\<newline>          for: 10m\<newline>          labels:\<newline>'' @
     ''            severity: warning\<newline>            vikasa_cluster: '' @ prd_Cluster d @
     ''\<newline>          annotations:\<newline>            summary: "NATS slow consumers in cluster '' @
     prd_Cluster d @ ''"\<newline>        - alert: JetStreamStorageHigh\<newline>'' @
     ''          expr: gnatsd_jsz_max_storage{namespace="'' @ prd_Namespace d @
     ''"} > 0 and gnatsd_jsz_storage{namespace="'' @ prd_Namespace d @ ''"} / gnatsd_jsz_max_storage{namespace="'' @
     prd_Namespace d @ ''"} > 0.8\<newline>          for: 10m\<newline>          labels:\<newline>'' @
     ''            severity: critical\<newline>            vikasa_cluster: '' @ prd_Cluster d @
     ''\<newline>          annotations:\<newline>'' @ ''            summary: "JetStream store >80% of max in cluster '' @
     prd_Cluster d @ '' '' @ [CHR 0xE2, CHR 0x80, CHR 0x94] @
     '' publishers fail when full (finding C2)"\<newline>        - alert: JetStreamConsumerLagging\<newline>'' @
     ''          expr: gnatsd_jsz_consumer_num_pending{namespace="'' @ prd_Namespace d @
     ''"} > 100000\<newline>          for: 15m\<newline>          labels:\<newline>'' @
     ''            severity: warning\<newline>            vikasa_cluster: '' @ prd_Cluster d @
     ''\<newline>          annotations:\<newline>'' @
     ''            summary: "JetStream consumer backlog >100k in cluster '' @ prd_Cluster d @ '' '' @
     [CHR 0xE2, CHR 0x80, CHR 0x94] @
     '' a sink is falling behind"\<newline>        - alert: JetStreamAssetsHigh\<newline>'' @
     ''          expr: gnatsd_jsz_total_streams{namespace="'' @ prd_Namespace d @
     ''"} + gnatsd_jsz_total_consumers{namespace="'' @ prd_Namespace d @
     ''"} > 1500\<newline>          for: 30m\<newline>          labels:\<newline>'' @
     ''            severity: warning\<newline>            vikasa_cluster: '' @ prd_Cluster d @
     ''\<newline>          annotations:\<newline>'' @
     ''            summary: "JetStream HA-assets approaching the ~2k/node budget in cluster '' @ prd_Cluster d @ '' '' @
     [CHR 0xE2, CHR 0x80, CHR 0x94] @ '' add nodes or partitions"'' @
     (if \<not> prd_IsCentral d then
        ''\<newline>        - alert: NatsLeafDown\<newline>          expr: gnatsd_varz_leafnodes{namespace="'' @
        prd_Namespace d @
        ''"} < 1\<newline>          for: 5m\<newline>          labels:\<newline>            severity: warning\<newline>'' @
        ''            vikasa_cluster: '' @ prd_Cluster d @
        ''\<newline>          annotations:\<newline>            summary: "Regional cluster '' @ prd_Cluster d @
        '' has no leaf uplink to central"''
      else []) @
     ''\<newline>''\<close>

definition kustomizationTmpl :: "prometheusRuleData \<Rightarrow> string" where
  \<open>kustomizationTmpl d =
     ''# AUTOGENERATED by vikasa-infra/cmd/gen\<newline>apiVersion: kustomize.config.k8s.io/v1beta1\<newline>'' @
     ''kind: Kustomization\<newline>resources:\<newline>  - streams.yaml\<newline>  - certificate.yaml\<newline>'' @
     ''  - externalsecret.yaml\<newline>  - servicemonitor.yaml\<newline>  - prometheusrule.yaml'' @
     (if prd_IsCentral d then ''\<newline>  - credhealth-prometheusrule.yaml'' else []) @ ''\<newline>''\<close>

record credhealthRuleData = prometheusRuleData +
  chd_MetricCredExpirySeconds :: string
  chd_MetricCredHealthLastScan :: string

definition credhealthRuleTmpl :: "credhealthRuleData \<Rightarrow> string" where
  \<open>credhealthRuleTmpl d =
     ''# AUTOGENERATED by vikasa-infra/cmd/gen\<newline>apiVersion: monitoring.coreos.com/v1\<newline>'' @
     ''kind: PrometheusRule\<newline>metadata:\<newline>  name: vikasa-credhealth-'' @ prd_Cluster d @
     ''\<newline>  namespace: '' @ prd_Namespace d @ ''\<newline>  labels:\<newline>    vikasa.dot: '' @ prd_DOT d @
     ''\<newline>    vikasa.cluster: '' @ prd_Cluster d @ ''\<newline>    release: '' @ prd_Release d @
     ''\<newline>spec:\<newline>  groups:\<newline>    - name: vikasa-credhealth-'' @ prd_Cluster d @
     ''\<newline>      rules:\<newline>        - alert: CredExpiringSoon\<newline>          expr: '' @
     chd_MetricCredExpirySeconds d @ '' < 3456000\<newline>          for: 1h\<newline>          labels:\<newline>'' @
     ''            severity: warning\<newline>          annotations:\<newline>'' @
     ''            summary: "Credential '' @ ''{{ $labels.identity }}'' @ '' ('' @ ''{{ $labels.kind }}'' @
     '') expires in under 40 days"\<newline>        - alert: CredExpiryCritical\<newline>          expr: '' @
     chd_MetricCredExpirySeconds d @ '' < 432000\<newline>          for: 30m\<newline>          labels:\<newline>'' @
     ''            severity: critical\<newline>          annotations:\<newline>'' @
     ''            summary: "Credential '' @ ''{{ $labels.identity }}'' @ '' ('' @ ''{{ $labels.kind }}'' @
     '') expires in under 5 days"\<newline>        - alert: CredExpired\<newline>          expr: '' @
     chd_MetricCredExpirySeconds d @
     '' < 0\<newline>          for: 5m\<newline>          labels:\<newline>            severity: critical\<newline>'' @
     ''          annotations:\<newline>            summary: "Credential '' @ ''{{ $labels.identity }}'' @ '' ('' @
     ''{{ $labels.kind }}'' @
     '') has EXPIRED"\<newline>        - alert: CredHealthStale\<newline>          expr: time() - '' @
     chd_MetricCredHealthLastScan d @ '' > 86400\<newline>          for: 15m\<newline>          labels:\<newline>'' @
     ''            severity: critical\<newline>          annotations:\<newline>'' @
     ''            summary: "credhealth has not reported in over 24h (expiry monitor is blind)"\<newline>''\<close>

subsection \<open>Stream resources\<close>

definition TierString :: "Tier \<Rightarrow> string" where
  "TierString t = (case t of TierRegional \<Rightarrow> ''regional'' | TierCentral \<Rightarrow> ''central'' | TierDMZ \<Rightarrow> ''dmz'')"

definition toMetaName :: "string \<Rightarrow> string" where
  "toMetaName s = ToLower (ReplaceByte (CHR ''_'') (CHR ''-'') s)"

definition source_data :: "Source \<Rightarrow> sourceData" where
  "source_data src =
     \<lparr>sd_Name = so_Name src, sd_Domain = so_Domain src, sd_FilterSubject = so_FilterSubject src,
      sd_TransformSource = so_TransformSource src, sd_TransformDest = so_TransformDest src\<rparr>"

definition renderStreamCR :: "Stream \<Rightarrow> string \<Rightarrow> string" where
  "renderStreamCR s dot =
     streamCRTmpl
       \<lparr>sc_MetaName = toMetaName (st_Name s), sc_DOT = dot, sc_Tier = TierString (st_Tier s), sc_Wave = Wave (st_Tier s),
        sc_Name = st_Name s, sc_Replicas = st_Replicas s, sc_MaxAge = st_MaxAge s, sc_MaxBytes = st_MaxBytes s,
        sc_Duplicates = st_Duplicates s, sc_RePublishSource = st_RePublishSource s,
        sc_RePublishDest = st_RePublishDest s, sc_Sources = map source_data (st_Sources s)\<rparr>"

subsection \<open>The renderer\<close>

definition leafHost :: "string \<Rightarrow> string" where
  "leafHost endpoint = (case LastIndexByte endpoint (CHR '':'') of Some i \<Rightarrow> take i endpoint | None \<Rightarrow> endpoint)"

definition prometheus_data :: "ClusterSlice \<Rightarrow> bool \<Rightarrow> prometheusRuleData" where
  "prometheus_data c central =
     \<lparr>prd_DOT = cs_DOT c, prd_Cluster = cs_ID c, prd_Namespace = cs_Namespace c, prd_Release = cs_PrometheusRelease c,
      prd_IsCentral = central\<rparr>"

definition streams_yaml :: "ClusterSlice \<Rightarrow> string" where
  \<comment> \<open>the banner and the documents, separated by \<^theory_text>\<open>---\<close>\<close>
  "streams_yaml c =
     banner @ concat (map (\<lambda>(idx, s). (if idx > 0 then ''---\<newline>'' else []) @ renderStreamCR s (cs_DOT c))
       (enumerate 0 (cs_Streams c)))"

definition certificate_yaml :: "ClusterSlice \<Rightarrow> string" where
  "certificate_yaml c =
     (let host = leafHost (cs_LeafEndpoint c);
          dnsNames = [host] @ (if cs_Namespace c \<noteq> [] then [''nats.'' @ cs_Namespace c @ ''.svc.cluster.local''] else [])
      in certTmpl
       \<lparr>cd_Name = cs_ID c @ ''-nats-server'', cd_DOT = cs_DOT c, cd_Cluster = cs_ID c,
        cd_SecretName = cs_ID c @ ''-nats-server-tls'', cd_Issuer = cs_IssuerName c, cd_CommonName = host,
        cd_DNSNames = dnsNames\<rparr>)"

definition k8s_RenderCluster :: "ClusterSlice \<Rightarrow> string gomap" where
  "k8s_RenderCluster c =
     (let out =
        [(''streams.yaml'', streams_yaml c), (''certificate.yaml'', certificate_yaml c),
         (''externalsecret.yaml'', externalSecretTmpl
            \<lparr>es_DOT = cs_DOT c, es_Cluster = cs_ID c, es_SecretStore = cs_SecretStore c,
             es_RemoteKey = ''vikasa/'' @ cs_DOT c @ ''/infrahub-token''\<rparr>),
         (''kustomization.yaml'', kustomizationTmpl (prometheus_data c (cs_IsCentral c))),
         (''servicemonitor.yaml'', serviceMonitorTmpl
            \<lparr>smd_DOT = cs_DOT c, smd_Cluster = cs_ID c, smd_Namespace = cs_Namespace c,
             smd_Release = cs_PrometheusRelease c\<rparr>),
         (''prometheusrule.yaml'', prometheusRuleTmpl (prometheus_data c (cs_IsCentral c)))]
      in if cs_IsCentral c
         then AList.update ''credhealth-prometheusrule.yaml'' (credhealthRuleTmpl
           (prometheusRuleData.extend (prometheus_data c False)
             (credhealthRuleData.fields MetricCredExpirySeconds MetricCredHealthLastScan))) out
         else out)"

end
