(* ===== verification/Bare_Metal.thy ===== *)
theory Bare_Metal
  imports K8s
begin

section \<open>Bare-metal clusters\<close>

text \<open>
  File internal/render/baremetal.go: the NATS configuration of each host, the systemd unit and one
  JSON configuration per stream. \<open>ParseDuration\<close> is Go's \<^theory_text>\<open>time.ParseDuration\<close> on 64-bit
  nanoseconds; its one floating-point step, the value of a fraction, is the parameter \<open>frac\<close> (of the
  digits, the unit and the scale).
\<close>

subsection \<open>Durations\<close>

definition digit_value :: "char \<Rightarrow> int" where
  "digit_value c = of_char c - 48"

fun leadingInt :: "int \<Rightarrow> string \<Rightarrow> (int \<times> string) option" where
  "leadingInt x [] = Some (x, [])"
| "leadingInt x (c # s) =
     (if \<not> digit c then Some (x, c # s)
      else if x > 2 ^ 63 div 10 then None
      else let y = x * 10 + digit_value c in if y > 2 ^ 63 then None else leadingInt y s)"

fun leadingFraction :: "int \<Rightarrow> int \<Rightarrow> bool \<Rightarrow> string \<Rightarrow> int \<times> int \<times> string" where
  \<comment> \<open>the digits, their scale, and whether the digits overflowed\<close>
  "leadingFraction x scale over [] = (x, scale, [])"
| "leadingFraction x scale over (c # s) =
     (if \<not> digit c then (x, scale, c # s)
      else if over then leadingFraction x scale True s
      else if x > (2 ^ 63 - 1) div 10 then leadingFraction x scale True s
      else let y = x * 10 + digit_value c in
        if y > 2 ^ 63 then leadingFraction x scale True s else leadingFraction y (scale * 10) False s)"

definition unitMap :: "int gomap" where
  "unitMap =
     [(''ns'', 1), (''us'', 1000), ([CHR 0xC2, CHR 0xB5, CHR ''s''], 1000), ([CHR 0xCE, CHR 0xBC, CHR ''s''], 1000),
      (''ms'', 1000000), (''s'', 1000000000), (''m'', 60000000000), (''h'', 3600000000000)]"

definition fraction_part :: "string \<Rightarrow> int \<times> int \<times> string \<times> bool" where
  "fraction_part s =
     (case s of
        [] \<Rightarrow> (0, 1, s, False)
      | c # t \<Rightarrow>
          if c = CHR ''.'' then (case leadingFraction 0 1 False t of (f, scale, r) \<Rightarrow> (f, scale, r, r \<noteq> t))
          else (0, 1, s, False))"

definition unit_byte :: "char \<Rightarrow> bool" where
  "unit_byte c \<longleftrightarrow> c \<noteq> CHR ''.'' \<and> \<not> digit c"

definition duration_term :: "(int \<Rightarrow> int \<Rightarrow> int \<Rightarrow> int) \<Rightarrow> string \<Rightarrow> (int \<times> string) option" where
  \<comment> \<open>one number with its unit, in nanoseconds, and the rest\<close>
  "duration_term frac s =
     (if s = [] \<or> unit_byte (hd s) then None
      else case leadingInt 0 s of
        None \<Rightarrow> None
      | Some (v, s1) \<Rightarrow>
          (case fraction_part s1 of (f, scale, s2, post) \<Rightarrow>
             if s1 = s \<and> \<not> post then None
             else if takeWhile unit_byte s2 = [] then None
             else case map_of unitMap (takeWhile unit_byte s2) of
               None \<Rightarrow> None
             | Some unit \<Rightarrow>
                 if v > 2 ^ 63 div unit then None
                 else
                   let v' = (if f > 0 then (v * unit + frac f unit scale) mod 2 ^ 64 else v * unit) in
                   if f > 0 \<and> v' > 2 ^ 63 then None else Some (v', dropWhile unit_byte s2)))"

lemma leadingInt_length: "leadingInt x s = Some (v, r) \<Longrightarrow> length r \<le> length s"
  by (induction x s rule: leadingInt.induct) (auto simp: Let_def split: if_splits)

lemma leadingFraction_length: "leadingFraction x scale over s = (f, sc, r) \<Longrightarrow> length r \<le> length s"
  by (induction x scale over s rule: leadingFraction.induct) (auto simp: Let_def split: if_splits)

lemma fraction_part_length: "fraction_part s = (f, sc, r, b) \<Longrightarrow> length r \<le> length s"
  by (auto simp: fraction_part_def dest: leadingFraction_length split: list.splits if_splits prod.splits)

lemma duration_term_length: "duration_term frac s = Some (v, r) \<Longrightarrow> length r < length s"
proof -
  assume run: "duration_term frac s = Some (v, r)"
  then obtain x s1 where s1: "leadingInt 0 s = Some (x, s1)"
    unfolding duration_term_def by (auto split: if_splits option.splits)
  obtain f sc s2 post where s2: "fraction_part s1 = (f, sc, s2, post)" by (cases "fraction_part s1")
  have u: "takeWhile unit_byte s2 \<noteq> []" "r = dropWhile unit_byte s2"
    using run unfolding duration_term_def s1 option.case prod.case s2 Let_def by (auto split: if_splits option.splits)
  have "length (takeWhile unit_byte s2) + length (dropWhile unit_byte s2) = length s2"
    by (metis length_append takeWhile_dropWhile_id)
  with u leadingInt_length [OF s1] fraction_part_length [OF s2] show ?thesis by (cases "takeWhile unit_byte s2") auto
qed

function durations :: "(int \<Rightarrow> int \<Rightarrow> int \<Rightarrow> int) \<Rightarrow> int \<Rightarrow> string \<Rightarrow> int option" where
  \<comment> \<open>the loop over the terms; the sum is a \<^theory_text>\<open>uint64\<close>\<close>
  "durations frac d s =
     (if s = [] then Some d
      else case duration_term frac s of
        None \<Rightarrow> None
      | Some (v, r) \<Rightarrow>
          let d' = (d + v) mod 2 ^ 64 in if d' > 2 ^ 63 then None else durations frac d' r)"
  by pat_completeness auto
termination
  by (relation "measure (\<lambda>(frac, d, s). length s)") (auto dest: duration_term_length)

declare durations.simps [simp del]

definition ParseDuration :: "(int \<Rightarrow> int \<Rightarrow> int \<Rightarrow> int) \<Rightarrow> string \<Rightarrow> int option" where
  "ParseDuration frac orig =
     (let neg = (case orig of c # _ \<Rightarrow> c = CHR ''-'' | [] \<Rightarrow> False);
          s = (case orig of c # t \<Rightarrow> if c = CHR ''-'' \<or> c = CHR ''+'' then t else orig | [] \<Rightarrow> orig) in
      if s = ''0'' then Some 0
      else if s = [] then None
      else case durations frac 0 s of
        None \<Rightarrow> None
      | Some d \<Rightarrow> if neg then Some (- d) else if d > 2 ^ 63 - 1 then None else Some d)"

subsection \<open>Server configuration\<close>

record natsConfData =
  nc_ServerName :: string
  nc_ClusterName :: string
  nc_JSDomain :: string
  nc_Routes :: "string list"
  nc_IsCentral :: bool
  nc_CentralLeafURL :: string

definition natsConfTmpl :: "natsConfData \<Rightarrow> string" where
  \<open>natsConfTmpl d =
     ''# AUTOGENERATED by vikasa-infra/cmd/gen '' @ [CHR 0xE2, CHR 0x80, CHR 0x94] @
     '' topology + TLS listener config.\<newline>'' @
     ''# Accounts and operator/resolver config are owned by sub-project B and supplied\<newline>'' @
     ''# via the included security.conf below. The TLS cert files referenced here\<newline>'' @
     ''# (/etc/vikasa/tls/*.pem) are operator-provisioned (e.g. vault-agent).\<newline>\<newline>'' @ ''server_name: '' @
     nc_ServerName d @ ''\<newline>port: 4222\<newline>http_port: 8222\<newline>\<newline>tls {\<newline>'' @
     ''  cert_file: /etc/vikasa/tls/client-cert.pem\<newline>  key_file:  /etc/vikasa/tls/client-key.pem\<newline>'' @
     ''  ca_file:   /etc/vikasa/tls/ca.pem\<newline>  verify: true\<newline>  timeout: 3\<newline>}\<newline>'' @
     ''\<newline>cluster {\<newline>  name: '' @ nc_ClusterName d @ ''\<newline>  port: 6222\<newline>  routes = ['' @
     concat (map (\<lambda>r. ''\<newline>    '' @ r) (nc_Routes d)) @
     ''\<newline>  ]\<newline>  tls {\<newline>    cert_file: /etc/vikasa/tls/cluster-cert.pem\<newline>'' @
     ''    key_file:  /etc/vikasa/tls/cluster-key.pem\<newline>    ca_file:   /etc/vikasa/tls/ca.pem\<newline>'' @
     ''    verify: true\<newline>    timeout: 3\<newline>  }\<newline>}\<newline>\<newline>leafnodes {\<newline>'' @
     ''  port: 7422\<newline>  tls {\<newline>    cert_file: /etc/vikasa/tls/leafnode-server-cert.pem\<newline>'' @
     ''    key_file:  /etc/vikasa/tls/leafnode-server-key.pem\<newline>'' @
     ''    ca_file:   /etc/vikasa/tls/ca.pem\<newline>    verify: true\<newline>    timeout: 3\<newline>'' @ ''  }'' @
     (if \<not> nc_IsCentral d then
        ''\<newline>  remotes = [\<newline>    {\<newline>      urls: ["'' @ nc_CentralLeafURL d @
        ''"]\<newline>      tls {\<newline>        cert_file: /etc/vikasa/tls/leafnode-server-cert.pem\<newline>'' @
        ''        key_file:  /etc/vikasa/tls/leafnode-server-key.pem\<newline>'' @
        ''        ca_file:   /etc/vikasa/tls/ca.pem\<newline>        timeout: 3\<newline>      }\<newline>'' @
        ''    }\<newline>  ]''
      else []) @
     ''\<newline>}\<newline>\<newline>jetstream {\<newline>  domain: '' @ nc_JSDomain d @
     ''\<newline>  store_dir: /var/lib/nats/jetstream\<newline>  max_memory_store: 1GB\<newline>'' @
     ''  max_file_store: 100GB\<newline>}\<newline>\<newline>'' @
     ''# Supplied by sub-project B (PKI / accounts). See the deployment runbook.\<newline>'' @
     ''include "security.conf"\<newline>''\<close>

definition natsServiceUnit :: string where
  \<open>natsServiceUnit =
     ''# AUTOGENERATED by vikasa-infra/cmd/gen\<newline>[Unit]\<newline>'' @
     ''Description=Vikasa NATS server (JetStream + leaf)\<newline>'' @
     ''Documentation=https://github.com/Vikasa2M/vikasa-infra\<newline>After=network-online.target\<newline>'' @
     ''Wants=network-online.target\<newline>\<newline>[Service]\<newline>Type=simple\<newline>User=nats\<newline>'' @
     ''Group=nats\<newline>ExecStart=/usr/local/bin/nats-server -c /etc/vikasa/nats.conf\<newline>'' @
     ''Restart=on-failure\<newline>RestartSec=5\<newline>StateDirectory=nats\<newline>'' @
     ''StateDirectoryMode=0750\<newline>ReadWritePaths=/var/lib/nats\<newline>NoNewPrivileges=true\<newline>'' @
     ''ProtectSystem=strict\<newline>ProtectHome=true\<newline>PrivateTmp=true\<newline>'' @
     ''ProtectKernelTunables=true\<newline>ProtectControlGroups=true\<newline>RestrictSUIDSGID=true\<newline>'' @
     ''LockPersonality=true\<newline>\<newline>[Install]\<newline>WantedBy=multi-user.target\<newline>''\<close>

subsection \<open>Stream configuration\<close>

record bareRePublish =
  brp_Src :: string
  brp_Dest :: string

record bareSubjectTransform =
  bst_Src :: string
  bst_Dest :: string

record bareStreamExternal =
  bse_API :: string

record bareStreamSource =
  bss_Name :: string
  bss_External :: "bareStreamExternal option"
  bss_FilterSubject :: string
  bss_SubjectTransforms :: "bareSubjectTransform list"

record bareStreamConfig =
  bsc_Name :: string
  bsc_Retention :: string
  bsc_Storage :: string
  bsc_NumReplicas :: int
  bsc_MaxAge :: int
  bsc_MaxBytes :: int
  bsc_Duplicates :: int
  bsc_RePublish :: "bareRePublish option"
  bsc_Sources :: "bareStreamSource list"

text \<open>The values as the encoder sees them, with the tags of the fields and \<^theory_text>\<open>omitempty\<close>.\<close>

definition omit :: "bool \<Rightarrow> string \<Rightarrow> json \<Rightarrow> (string \<times> json) list" where
  "omit absent tag v = (if absent then [] else [(tag, v)])"

definition source_json :: "bareStreamSource \<Rightarrow> json" where
  "source_json s = JObj
     ([(''name'', JStr (bss_Name s))] @
      (case bss_External s of None \<Rightarrow> [] | Some e \<Rightarrow> [(''external'', JObj [(''api'', JStr (bse_API e))])]) @
      omit (bss_FilterSubject s = []) ''filter_subject'' (JStr (bss_FilterSubject s)) @
      omit (bss_SubjectTransforms s = []) ''subject_transforms''
        (JArr (map (\<lambda>t. JObj [(''src'', JStr (bst_Src t)), (''dest'', JStr (bst_Dest t))]) (bss_SubjectTransforms s))))"

definition config_json :: "bareStreamConfig \<Rightarrow> json" where
  "config_json c = JObj
     ([(''name'', JStr (bsc_Name c)), (''retention'', JStr (bsc_Retention c)), (''storage'', JStr (bsc_Storage c)),
       (''num_replicas'', JInt (bsc_NumReplicas c))] @
      omit (bsc_MaxAge c = 0) ''max_age'' (JInt (bsc_MaxAge c)) @
      omit (bsc_MaxBytes c = 0) ''max_bytes'' (JInt (bsc_MaxBytes c)) @
      omit (bsc_Duplicates c = 0) ''duplicates'' (JInt (bsc_Duplicates c)) @
      (case bsc_RePublish c of None \<Rightarrow> []
       | Some r \<Rightarrow> [(''republish'', JObj [(''src'', JStr (brp_Src r)), (''dest'', JStr (brp_Dest r))])]) @
      omit (bsc_Sources c = []) ''sources'' (JArr (map source_json (bsc_Sources c))))"

definition bare_source :: "Source \<Rightarrow> bareStreamSource" where
  "bare_source src =
     \<lparr>bss_Name = so_Name src, bss_External = Some \<lparr>bse_API = ''$JS.'' @ so_Domain src @ ''.API''\<rparr>,
      bss_FilterSubject = (if so_TransformSource src \<noteq> [] then [] else so_FilterSubject src),
      bss_SubjectTransforms =
        (if so_TransformSource src \<noteq> []
         then [\<lparr>bst_Src = so_TransformSource src, bst_Dest = so_TransformDest src\<rparr>] else [])\<rparr>"

definition bare_config :: "(int \<Rightarrow> int \<Rightarrow> int \<Rightarrow> int) \<Rightarrow> Stream \<Rightarrow> render_error + bareStreamConfig" where
  \<comment> \<open>\<^theory_text>\<open>renderBareStreamConfig\<close> up to the encoding\<close>
  "bare_config frac s =
     bindE (if st_MaxAge s = [] then Inr 0
            else derefE (ParseDuration frac (st_MaxAge s)) (BadMaxAge (st_Name s) (st_MaxAge s))) (\<lambda>maxAge.
     bindE (if st_Duplicates s = [] then Inr 0
            else derefE (ParseDuration frac (st_Duplicates s)) (BadDuplicates (st_Name s) (st_Duplicates s))) (\<lambda>duplicates.
     Inr \<lparr>bsc_Name = st_Name s, bsc_Retention = ''limits'', bsc_Storage = ''file'', bsc_NumReplicas = st_Replicas s,
          bsc_MaxAge = maxAge, bsc_MaxBytes = st_MaxBytes s, bsc_Duplicates = duplicates,
          bsc_RePublish = (if st_RePublishSource s \<noteq> []
            then Some \<lparr>brp_Src = st_RePublishSource s, brp_Dest = st_RePublishDest s\<rparr> else None),
          bsc_Sources = map bare_source (st_Sources s)\<rparr>))"

definition renderBareStreamConfig :: "(int \<Rightarrow> int \<Rightarrow> int \<Rightarrow> int) \<Rightarrow> Stream \<Rightarrow> render_error + string" where
  "renderBareStreamConfig frac s =
     bindE (bare_config frac s) (\<lambda>cfg. Inr (MarshalIndent (config_json cfg) @ [newline]))"

subsection \<open>The renderer\<close>

definition sanitizeHostFilename :: "string \<Rightarrow> string" where
  "sanitizeHostFilename h = map (\<lambda>c. if c = CHR ''/'' \<or> c = CHR '':'' then CHR ''-'' else c) h"

definition centralLeafURL :: "ClusterSlice \<Rightarrow> string" where
  "centralLeafURL c =
     (if cs_IsCentral c \<or> cs_CentralLeafEndpoint c = [] then [] else ''tls://'' @ cs_CentralLeafEndpoint c)"

definition nats_conf :: "ClusterSlice \<Rightarrow> nat \<Rightarrow> string" where
  "nats_conf c i = natsConfTmpl
     \<lparr>nc_ServerName = cs_ID c @ ''-'' @ itoa (int i + 1), nc_ClusterName = cs_ID c, nc_JSDomain = cs_JSDomain c,
      nc_Routes = map (\<lambda>(j, h). ''nats://'' @ h @ '':6222'') (filter (\<lambda>(j, h). j \<noteq> i) (enumerate 0 (cs_Hosts c))),
      nc_IsCentral = cs_IsCentral c, nc_CentralLeafURL = centralLeafURL c\<rparr>"

definition conf_name :: "string \<Rightarrow> string" where
  "conf_name host = ''nats-'' @ sanitizeHostFilename host @ ''.conf''"

definition bare_RenderCluster ::
    "(int \<Rightarrow> int \<Rightarrow> int \<Rightarrow> int) \<Rightarrow> ClusterSlice \<Rightarrow> render_error + string gomap" where
  "bare_RenderCluster frac c =
     (if cs_Hosts c = [] then Inl (NoHosts (cs_ID c))
      else
        let out = foldl (\<lambda>out (i, host). AList.update (conf_name host) (nats_conf c i) out) [] (enumerate 0 (cs_Hosts c));
            out = AList.update ''nats-server.service'' natsServiceUnit out in
        foldE (\<lambda>out s. bindE (renderBareStreamConfig frac s) (\<lambda>j.
            Inr (AList.update (''streams/'' @ st_Name s @ ''.json'') j out))) out (cs_Streams c))"

end
