(* ===== verification/Helm.thy ===== *)
theory Helm
  imports K8s
begin

section \<open>Helm charts\<close>

text \<open>
  File internal/render/helm.go: the manifests of a cluster as a chart. The manifests are rendered
  with four sentinels in place of the deployment knobs, the braces they contain are escaped, and the
  sentinels become references to the values.
\<close>

definition nul :: char where "nul = CHR 0x00"

definition sentinel :: "string \<Rightarrow> string" where
  "sentinel name = nul # ''VIKASA_HELM_'' @ name @ [nul]"

definition snNamespace :: string where "snNamespace = sentinel ''NAMESPACE''"

definition snIssuer :: string where "snIssuer = sentinel ''ISSUER''"

definition snStore :: string where "snStore = sentinel ''STORE''"

definition snRelease :: string where "snRelease = sentinel ''RELEASE''"

definition chartTmpl :: "ClusterSlice \<Rightarrow> string" where
  \<open>chartTmpl c =
     ''# AUTOGENERATED by vikasa-infra/cmd/gen\<newline>apiVersion: v2\<newline>name: vikasa-'' @ cs_ID c @
     ''\<newline>description: Vikasa NATS substrate for cluster '' @ cs_ID c @
     ''\<newline>type: application\<newline>version: 0.1.0\<newline>appVersion: "1.0.0"\<newline>''\<close>

record helmValues =
  hv_Namespace :: string
  hv_TLSIssuer :: string
  hv_SecretStore :: string
  hv_PrometheusRelease :: string

definition valuesTmpl :: "helmValues \<Rightarrow> string" where
  \<open>valuesTmpl d =
     ''# AUTOGENERATED by vikasa-infra/cmd/gen\<newline>namespace: '' @ hv_Namespace d @ ''\<newline>tlsIssuer: '' @
     hv_TLSIssuer d @ ''\<newline>secretStore: '' @ hv_SecretStore d @ ''\<newline>prometheusRelease: '' @
     hv_PrometheusRelease d @ ''\<newline>''\<close>

definition helmEscapeBraces :: "string \<Rightarrow> string" where
  \<open>helmEscapeBraces s =
     (let s = ReplaceAll ''{{'' [nul, CHR ''O'', nul] s;
          s = ReplaceAll ''}}'' [nul, CHR ''C'', nul] s;
          s = ReplaceAll [nul, CHR ''O'', nul] ''{{ "{{" }}'' s
      in ReplaceAll [nul, CHR ''C'', nul] ''{{ "}}" }}'' s)\<close>

definition helm_values_of :: "ClusterSlice \<Rightarrow> helmValues" where
  "helm_values_of sl =
     \<lparr>hv_Namespace = cs_Namespace sl, hv_TLSIssuer = cs_IssuerName sl, hv_SecretStore = cs_SecretStore sl,
      hv_PrometheusRelease = cs_PrometheusRelease sl\<rparr>"

definition helm_template :: "string \<Rightarrow> string" where
  \<comment> \<open>a rendered manifest as a chart template\<close>
  "helm_template content =
     (let s = helmEscapeBraces content;
          s = ReplaceAll snNamespace ''{{ .Values.namespace }}'' s;
          s = ReplaceAll snIssuer ''{{ .Values.tlsIssuer }}'' s;
          s = ReplaceAll snStore ''{{ .Values.secretStore }}'' s
      in ReplaceAll snRelease ''{{ .Values.prometheusRelease }}'' s)"

definition renderHelmChart :: "ClusterSlice \<Rightarrow> string gomap" where
  "renderHelmChart sl =
     (let defaults = helm_values_of sl;
          chartSlice = sl\<lparr>cs_Namespace := snNamespace, cs_IssuerName := snIssuer, cs_SecretStore := snStore,
            cs_PrometheusRelease := snRelease\<rparr>;
          out = foldl (\<lambda>out (name, content).
              if name = ''kustomization.yaml'' then out
              else AList.update (''templates/'' @ name) (helm_template content) out) [] (k8s_RenderCluster chartSlice);
          out = AList.update ''Chart.yaml'' (chartTmpl sl) out
      in AList.update ''values.yaml'' (valuesTmpl defaults) out)"

end
