(* ===== verification/Dispatch.thy ===== *)
theory Dispatch
  imports Bare_Metal Helm
begin

section \<open>Routing the plan to the clusters\<close>

text \<open>
  File internal/render/substrate.go: grouping the streams of a plan by cluster, assembling the slice
  of each cluster from the topology and rendering it for its substrate. \<^theory_text>\<open>sort.Slice\<close> by the
  name of the stream is a stable sort here; the names on a cluster are distinct in every plan of
  interest. The results of the renderers are maps, written into the output in the order of the
  association list; no renderer returns a name twice, so the order does not matter.
\<close>

record argoAppData =
  ad_Name :: string
  ad_DOT :: string
  ad_Cluster :: string
  ad_RepoURL :: string
  ad_TargetRevision :: string
  ad_Path :: string
  ad_Namespace :: string

definition argoAppTmpl :: "argoAppData \<Rightarrow> string" where
  \<open>argoAppTmpl d =
     ''# AUTOGENERATED by vikasa-infra/cmd/gen\<newline>apiVersion: argoproj.io/v1alpha1\<newline>'' @
     ''kind: Application\<newline>metadata:\<newline>  name: '' @ ad_Name d @
     ''\<newline>  namespace: argocd\<newline>  labels:\<newline>    vikasa.dot: '' @ ad_DOT d @
     ''\<newline>    vikasa.cluster: '' @ ad_Cluster d @
     ''\<newline>spec:\<newline>  project: default\<newline>  source:\<newline>    repoURL: '' @ ad_RepoURL d @
     ''\<newline>    targetRevision: '' @ ad_TargetRevision d @ ''\<newline>    path: '' @ ad_Path d @
     ''\<newline>  destination:\<newline>    server: https://kubernetes.default.svc\<newline>'' @ ''    namespace: '' @
     ad_Namespace d @ ''\<newline>  syncPolicy:\<newline>    automated:\<newline>      prune: true\<newline>'' @
     ''      selfHeal: true\<newline>    syncOptions:\<newline>      - CreateNamespace=true\<newline>''\<close>

definition string_of :: "string option \<Rightarrow> string" where
  \<comment> \<open>\<^theory_text>\<open>v := ""; if p != nil { v = *p }\<close>\<close>
  "string_of p = (case p of None \<Rightarrow> [] | Some v \<Rightarrow> v)"

definition central_id :: "Topology \<Rightarrow> string" where
  "central_id t = (case t_Central t of None \<Rightarrow> [] | Some ce \<Rightarrow> string_of (ce_Cluster ce))"

definition central_leaf_endpoint :: "Topology \<Rightarrow> string" where
  "central_leaf_endpoint t =
     (case gm_ptr (t_Cluster t) (central_id t) of None \<Rightarrow> [] | Some c \<Rightarrow> string_of (c_LeafEndpoint c))"

definition buildClusterSlice ::
    "Plan \<Rightarrow> Cluster \<Rightarrow> string \<Rightarrow> string \<Rightarrow> string \<Rightarrow> Stream list \<Rightarrow> render_error + ClusterSlice" where
  "buildClusterSlice p c i centralID centralLeafEndpoint streams =
     bindE (derefE (c_Substrate c) (NoSubstrate i)) (\<lambda>sub.
     bindE (case sub_Type sub of
              SubstrateKubernetes \<Rightarrow> Inr (SubstrateString SubstrateKubernetes)
            | SubstrateBareMetal \<Rightarrow> Inr (SubstrateString SubstrateBareMetal)
            | SubstrateUnset \<Rightarrow> Inl (UnknownSubstrate i)) (\<lambda>subType.
     let isCentral = (i = centralID) in
     Inr \<lparr>cs_ID = i, cs_SubstrateType = subType, cs_Hosts = sort (sub_Hosts sub),
          cs_Namespace = string_of (sub_Namespace sub), cs_JSDomain = string_of (c_JsDomain c),
          cs_LeafEndpoint = string_of (c_LeafEndpoint c), cs_Streams = sort_key st_Name streams,
          cs_IsCentral = isCentral, cs_CentralLeafEndpoint = (if isCentral then [] else centralLeafEndpoint),
          cs_DOT = pl_DOT p, cs_IssuerName = [], cs_SecretStore = [], cs_PrometheusRelease = []\<rparr>))"

definition group_by_cluster :: "Stream list \<Rightarrow> Stream list gomap" where
  "group_by_cluster streams = foldl (\<lambda>m s. append_at (st_Cluster s) s m) [] streams"

definition k8s_label :: string where "k8s_label = SubstrateString SubstrateKubernetes"

definition render_slice ::
    "(int \<Rightarrow> int \<Rightarrow> int \<Rightarrow> int) \<Rightarrow> Config \<Rightarrow> ClusterSlice \<Rightarrow> render_error + string gomap" where
  \<comment> \<open>the choice of the renderer, and its files\<close>
  "render_slice frac cfg sl =
     (if cs_SubstrateType sl = SubstrateString SubstrateKubernetes then
        (if cf_Output cfg = OutputHelm then Inr (renderHelmChart sl) else Inr (k8s_RenderCluster sl))
      else if cs_SubstrateType sl = SubstrateString SubstrateBareMetal then bare_RenderCluster frac sl
      else Inl (DispatchUnsupported (cs_ID sl) (cs_SubstrateType sl)))"

definition argo_app :: "Config \<Rightarrow> ClusterSlice \<Rightarrow> string" where
  "argo_app cfg sl = argoAppTmpl
     \<lparr>ad_Name = ''vikasa-'' @ cs_ID sl, ad_DOT = cs_DOT sl, ad_Cluster = cs_ID sl, ad_RepoURL = cf_ArgoRepoURL cfg,
      ad_TargetRevision = cf_ArgoTargetRevision cfg,
      ad_Path = (if cf_Output cfg = OutputHelm then ''charts/'' @ cs_ID sl else ''clusters/'' @ cs_ID sl),
      ad_Namespace = cs_Namespace sl\<rparr>"

definition put_files :: "string \<Rightarrow> string gomap \<Rightarrow> string gomap \<Rightarrow> string gomap" where
  \<comment> \<open>\<^theory_text>\<open>for name, content := range files { out[dir+name] = content }\<close>\<close>
  "put_files dir files out = foldl (\<lambda>out (name, content). AList.update (dir @ name) content out) out files"

definition dispatch_cluster ::
    "(int \<Rightarrow> int \<Rightarrow> int \<Rightarrow> int) \<Rightarrow> Plan \<Rightarrow> Topology \<Rightarrow> Config \<Rightarrow> Stream list gomap \<Rightarrow> string gomap \<Rightarrow> string \<Rightarrow>
     render_error + string gomap" where
  "dispatch_cluster frac p t cfg byCluster out i =
     bindE (derefE (gm_ptr (t_Cluster t) i) (DispatchUnknownCluster i)) (\<lambda>c.
     bindE (buildClusterSlice p c i (central_id t) (central_leaf_endpoint t)
         (case map_of byCluster i of None \<Rightarrow> [] | Some ss \<Rightarrow> ss)) (\<lambda>sl.
     let sl = sl\<lparr>cs_IssuerName := cf_TLSIssuer cfg, cs_SecretStore := cf_SecretStore cfg,
           cs_PrometheusRelease := cf_PrometheusRelease cfg\<rparr> in
     bindE (render_slice frac cfg sl) (\<lambda>files.
     let out = put_files (SliceDir i (cs_SubstrateType sl = k8s_label) (cf_Output cfg)) files out in
     Inr (if cs_SubstrateType sl = k8s_label \<and> cf_ArgoRepoURL cfg \<noteq> []
          then AList.update (''argocd/'' @ i @ ''.yaml'') (argo_app cfg sl) out else out))))"

definition Dispatch ::
    "(int \<Rightarrow> int \<Rightarrow> int \<Rightarrow> int) \<Rightarrow> Plan \<Rightarrow> Root \<Rightarrow> Config \<Rightarrow> render_error + string gomap" where
  "Dispatch frac p root cfg =
     bindE (derefE root DispatchNilTopology) (\<lambda>t.
     let byCluster = group_by_cluster (pl_Streams p) in
     foldE (dispatch_cluster frac p t cfg byCluster) [] (sortedKeys byCluster))"

end
