(* ===== verification/Diff.thy ===== *)
theory Diff
  imports Plan
begin

section \<open>Differences between plans\<close>

text \<open>
  File internal/plan/diff.go: the categorised difference of two plans that drives the rebalance
  runbook. Diff indexes both plans by name and walks the indices in map order; the walk is
  \<open>diff_maps\<close>, a function of the four index maps, so that its independence of their order can be
  stated.
\<close>

record StreamMove =
  mv_Old :: Stream
  mv_New :: Stream

record DNSChange =
  dc_Name :: string
  dc_OldTarget :: string
  dc_NewTarget :: string

record Delta =
  dl_DOT :: string
  dl_Added :: "Stream list"
  dl_Removed :: "Stream list"
  dl_Moved :: "StreamMove list"
  dl_Modified :: "StreamMove list"
  dl_DNSAdded :: "DNSRecord list"
  dl_DNSRemoved :: "DNSRecord list"
  dl_DNSChanged :: "DNSChange list"

definition indexStreams :: "Stream list \<Rightarrow> Stream gomap" where
  "indexStreams ss = fold (\<lambda>s. AList.update (st_Name s) s) ss []"

definition indexDNS :: "DNSRecord list \<Rightarrow> DNSRecord gomap" where
  "indexDNS rs = fold (\<lambda>r. AList.update (dns_Name r) r) rs []"

fun source_pairs_differ :: "(Source \<times> Source) list \<Rightarrow> bool" where
  "source_pairs_differ [] = False"
| "source_pairs_differ ((a, b) # rest) =
     (if so_Name a \<noteq> so_Name b \<or> so_Domain a \<noteq> so_Domain b \<or> so_FilterSubject a \<noteq> so_FilterSubject b \<or>
         so_TransformSource a \<noteq> so_TransformSource b \<or> so_TransformDest a \<noteq> so_TransformDest b
      then True else source_pairs_differ rest)"

definition sourcesChanged :: "Source list \<Rightarrow> Source list \<Rightarrow> bool" where
  "sourcesChanged a b = (if length a \<noteq> length b then True else source_pairs_differ (zip a b))"

definition streamConfigChanged :: "Stream \<Rightarrow> Stream \<Rightarrow> bool" where
  "streamConfigChanged a b =
     (if st_Replicas a \<noteq> st_Replicas b \<or> st_MaxAge a \<noteq> st_MaxAge b \<or>
         st_MaxBytes a \<noteq> st_MaxBytes b \<or> st_Duplicates a \<noteq> st_Duplicates b \<or>
         st_RePublishSource a \<noteq> st_RePublishSource b \<or> st_RePublishDest a \<noteq> st_RePublishDest b \<or>
         st_Tier a \<noteq> st_Tier b then True
      else if length (st_Sources a) = 0 \<and> length (st_Sources b) = 0 then False
      else sourcesChanged (st_Sources a) (st_Sources b))"

type_synonym stream_delta = "Stream list \<times> StreamMove list \<times> StreamMove list"

fun diff_stream :: "Stream gomap \<Rightarrow> string \<times> Stream \<Rightarrow> stream_delta \<Rightarrow> stream_delta" where
  "diff_stream oldS (name, ns) (added, moved, modified) =
     (case map_of oldS name of
        None \<Rightarrow> (added @ [ns], moved, modified)
      | Some os \<Rightarrow>
          if st_Cluster os \<noteq> st_Cluster ns \<or> st_JSDomain os \<noteq> st_JSDomain ns
          then (added, moved @ [\<lparr>mv_Old = os, mv_New = ns\<rparr>], modified)
          else if streamConfigChanged os ns
          then (added, moved, modified @ [\<lparr>mv_Old = os, mv_New = ns\<rparr>])
          else (added, moved, modified))"

fun diff_dns :: "DNSRecord gomap \<Rightarrow> string \<times> DNSRecord \<Rightarrow> DNSRecord list \<times> DNSChange list \<Rightarrow>
    DNSRecord list \<times> DNSChange list" where
  "diff_dns oldR (name, nr) (added, changed) =
     (case map_of oldR name of
        None \<Rightarrow> (added @ [nr], changed)
      | Some r \<Rightarrow>
          if dns_Target r \<noteq> dns_Target nr
          then (added, changed @ [\<lparr>dc_Name = name, dc_OldTarget = dns_Target r, dc_NewTarget = dns_Target nr\<rparr>])
          else (added, changed))"

definition only_in :: "'a gomap \<Rightarrow> 'a gomap \<Rightarrow> 'a list" where
  \<comment> \<open>\<^theory_text>\<open>for name, x := range m { if _, ok := other[name]; !ok { append } }\<close>\<close>
  "only_in m other = fold (\<lambda>(name, x) acc. if map_of other name = None then acc @ [x] else acc) m []"

definition diff_maps ::
    "string \<Rightarrow> Stream gomap \<Rightarrow> Stream gomap \<Rightarrow> DNSRecord gomap \<Rightarrow> DNSRecord gomap \<Rightarrow> Delta" where
  "diff_maps dot oldS newS oldR newR =
     (let (added, moved, modified) = fold (diff_stream oldS) newS ([], [], []);
          removed = only_in oldS newS;
          (dnsAdded, dnsChanged) = fold (diff_dns oldR) newR ([], []);
          dnsRemoved = only_in oldR newR
      in \<lparr>dl_DOT = dot,
          dl_Added = sort_key st_Name added,
          dl_Removed = sort_key st_Name removed,
          dl_Moved = sort_key (\<lambda>v. st_Name (mv_New v)) moved,
          dl_Modified = sort_key (\<lambda>v. st_Name (mv_New v)) modified,
          dl_DNSAdded = sort_key dns_Name dnsAdded,
          dl_DNSRemoved = sort_key dns_Name dnsRemoved,
          dl_DNSChanged = sort_key dc_Name dnsChanged\<rparr>)"

definition Diff :: "Plan \<Rightarrow> Plan \<Rightarrow> Delta" where
  "Diff oldP newP =
     diff_maps (pl_DOT newP) (indexStreams (pl_Streams oldP)) (indexStreams (pl_Streams newP))
       (indexDNS (pl_DNS oldP)) (indexDNS (pl_DNS newP))"

definition ChangeCount :: "Delta \<Rightarrow> nat" where
  "ChangeCount d = length (dl_Added d) + length (dl_Removed d) + length (dl_Moved d) +
     length (dl_Modified d) + length (dl_DNSAdded d) + length (dl_DNSRemoved d) + length (dl_DNSChanged d)"

definition HasChanges :: "Delta \<Rightarrow> bool" where
  "HasChanges d \<longleftrightarrow> ChangeCount d > 0"

subsection \<open>The comparison of streams\<close>

lemma source_pairs_differ_iff: "source_pairs_differ ps \<longleftrightarrow> (\<exists>(a, b)\<in>set ps. a \<noteq> b)"
  by (induction ps rule: source_pairs_differ.induct) (auto intro: Source.equality)

text \<open>The field-by-field comparisons are inequality.\<close>

lemma sourcesChanged_iff: "sourcesChanged a b \<longleftrightarrow> a \<noteq> b"
proof -
  have "source_pairs_differ (zip a b) \<longleftrightarrow> a \<noteq> b" if "length a = length b"
    using that by (induction a b rule: list_induct2) (auto simp: source_pairs_differ_iff)
  then show ?thesis by (auto simp: sourcesChanged_def)
qed

lemma streamConfigChanged_iff:
  "st_Name a = st_Name b \<Longrightarrow> st_Cluster a = st_Cluster b \<Longrightarrow> st_JSDomain a = st_JSDomain b \<Longrightarrow>
     streamConfigChanged a b \<longleftrightarrow> a \<noteq> b"
  by (auto simp: streamConfigChanged_def sourcesChanged_iff intro!: Stream.equality)

subsection \<open>The loops as filters\<close>

definition placement_changed :: "Stream \<Rightarrow> Stream \<Rightarrow> bool" where
  "placement_changed a b \<longleftrightarrow> st_Cluster a \<noteq> st_Cluster b \<or> st_JSDomain a \<noteq> st_JSDomain b"

definition moves_of :: "(Stream \<Rightarrow> Stream \<Rightarrow> bool) \<Rightarrow> Stream gomap \<Rightarrow> Stream gomap \<Rightarrow> StreamMove list" where
  "moves_of P oldS newS = concat (map (\<lambda>(n, s).
     case map_of oldS n of None \<Rightarrow> [] | Some r \<Rightarrow> if P r s then [\<lparr>mv_Old = r, mv_New = s\<rparr>] else []) newS)"

definition fresh_in :: "'a gomap \<Rightarrow> 'a gomap \<Rightarrow> 'a list" where
  "fresh_in m other = map snd (filter (\<lambda>(n, x). map_of other n = None) m)"

definition changes_of :: "DNSRecord gomap \<Rightarrow> DNSRecord gomap \<Rightarrow> DNSChange list" where
  "changes_of oldR newR = concat (map (\<lambda>(n, r).
     case map_of oldR n of None \<Rightarrow> []
     | Some q \<Rightarrow> if dns_Target q \<noteq> dns_Target r
         then [\<lparr>dc_Name = n, dc_OldTarget = dns_Target q, dc_NewTarget = dns_Target r\<rparr>] else []) newR)"

lemma only_in_fresh: "only_in m other = fresh_in m other"
proof -
  have "fold (\<lambda>(name, x) acc. if map_of other name = None then acc @ [x] else acc) m acc = acc @ fresh_in m other" for acc
    by (induction m arbitrary: acc) (auto simp: fresh_in_def)
  then show ?thesis by (simp add: only_in_def)
qed

lemma diff_stream_loop:
  "fold (diff_stream oldS) newS (a, v, f) =
     (a @ fresh_in newS oldS, v @ moves_of placement_changed oldS newS,
      f @ moves_of (\<lambda>r s. \<not> placement_changed r s \<and> streamConfigChanged r s) oldS newS)"
  by (induction newS arbitrary: a v f)
     (auto simp: fresh_in_def moves_of_def placement_changed_def split: option.split)

lemma diff_dns_loop:
  "fold (diff_dns oldR) newR (a, c) = (a @ fresh_in newR oldR, c @ changes_of oldR newR)"
  by (induction newR arbitrary: a c) (auto simp: fresh_in_def changes_of_def split: option.split)

lemma diff_maps_eq:
  "diff_maps dot oldS newS oldR newR =
     \<lparr>dl_DOT = dot,
      dl_Added = sort_key st_Name (fresh_in newS oldS),
      dl_Removed = sort_key st_Name (fresh_in oldS newS),
      dl_Moved = sort_key (\<lambda>v. st_Name (mv_New v)) (moves_of placement_changed oldS newS),
      dl_Modified = sort_key (\<lambda>v. st_Name (mv_New v))
        (moves_of (\<lambda>r s. \<not> placement_changed r s \<and> streamConfigChanged r s) oldS newS),
      dl_DNSAdded = sort_key dns_Name (fresh_in newR oldR),
      dl_DNSRemoved = sort_key dns_Name (fresh_in oldR newR),
      dl_DNSChanged = sort_key dc_Name (changes_of oldR newR)\<rparr>"
  by (simp add: diff_maps_def diff_stream_loop diff_dns_loop only_in_fresh)

subsection \<open>Index maps\<close>

text \<open>The invariant of an index: every entry is stored under its own name, once.\<close>

definition indexed :: "('a \<Rightarrow> string) \<Rightarrow> 'a gomap \<Rightarrow> bool" where
  "indexed nm m \<longleftrightarrow> distinct (map fst m) \<and> (\<forall>(n, x)\<in>set m. nm x = n)"

lemma indexed_fold: "indexed nm m \<Longrightarrow> indexed nm (fold (\<lambda>x. AList.update (nm x) x) xs m)"
proof (induction xs arbitrary: m)
  case (Cons x xs)
  have d: "distinct (map fst m)" and nm: "\<forall>(n, y)\<in>set m. nm y = n" using Cons.prems by (simp_all add: indexed_def)
  have "indexed nm (AList.update (nm x) x m)"
    unfolding indexed_def
  proof (intro conjI ballI, rule distinct_update [OF d], clarify)
    fix n y assume "(n, y) \<in> set (AList.update (nm x) x m)"
    then have "map_of (AList.update (nm x) x m) n = Some y" using distinct_update [OF d] by simp
    then show "nm y = n" using nm by (auto simp: update_conv' split: if_splits dest: map_of_SomeD)
  qed
  then show ?case using Cons.IH by simp
qed simp

lemma index_fold_distinct:
  assumes "distinct (map nm xs)"
  shows "fold (\<lambda>x. AList.update (nm x) x) xs [] = map (\<lambda>x. (nm x, x)) xs"
proof -
  have "fold (\<lambda>x. AList.update (nm x) x) xs [] =
      fold (\<lambda>p. AList.update (fst p) (snd p)) (map (\<lambda>x. (nm x, x)) xs) []"
    by (simp add: fold_map comp_def)
  with assms show ?thesis by (simp add: fold_update_fresh comp_def)
qed

lemma indexed_streams: "indexed st_Name (indexStreams ss)"
  unfolding indexStreams_def by (rule indexed_fold) (simp add: indexed_def)

lemma indexed_dns: "indexed dns_Name (indexDNS rs)"
  unfolding indexDNS_def by (rule indexed_fold) (simp add: indexed_def)

lemma indexed_member: "indexed nm m \<Longrightarrow> (n, x) \<in> set m \<longleftrightarrow> nm x = n \<and> x \<in> snd ` set m"
  by (force simp: indexed_def)

lemma indexed_get: "indexed nm m \<Longrightarrow> map_of m n = Some x \<longleftrightarrow> nm x = n \<and> x \<in> snd ` set m"
  using indexed_member [of nm m n x] by (simp add: indexed_def)

lemma indexed_key: "indexed nm m \<Longrightarrow> map_of m n = None \<longleftrightarrow> n \<notin> nm ` snd ` set m"
  by (auto simp: map_of_eq_None_iff image_iff indexed_def) force+

lemma fresh_in_member:
  assumes "indexed nm m" and "indexed nm other"
  shows "x \<in> set (fresh_in m other) \<longleftrightarrow> x \<in> snd ` set m \<and> nm x \<notin> nm ` snd ` set other"
proof -
  have "x \<in> set (fresh_in m other) \<longleftrightarrow> (\<exists>n. (n, x) \<in> set m \<and> map_of other n = None)"
    by (force simp: fresh_in_def)
  then show ?thesis by (simp add: indexed_member [OF assms(1)] indexed_key [OF assms(2)])
qed

lemma fresh_in_distinct: "indexed nm m \<Longrightarrow> distinct (map nm (fresh_in m other))"
proof -
  assume m: "indexed nm m"
  have "map nm (fresh_in m other) = map fst (filter (\<lambda>(n, x). map_of other n = None) m)"
    using m by (auto simp: fresh_in_def indexed_def)
  then show ?thesis using m by (simp add: indexed_def distinct_map_filter)
qed

lemma moves_of_member:
  assumes "indexed st_Name oldS" and "indexed st_Name newS"
  shows "v \<in> set (moves_of P oldS newS) \<longleftrightarrow>
     mv_Old v \<in> snd ` set oldS \<and> mv_New v \<in> snd ` set newS \<and> st_Name (mv_Old v) = st_Name (mv_New v) \<and>
     P (mv_Old v) (mv_New v)"
proof -
  have "v \<in> set (moves_of P oldS newS) \<longleftrightarrow>
      (\<exists>n r s. (n, s) \<in> set newS \<and> map_of oldS n = Some r \<and> P r s \<and> v = \<lparr>mv_Old = r, mv_New = s\<rparr>)"
    by (force simp: moves_of_def split: option.splits if_splits)
  also have "\<dots> \<longleftrightarrow> (\<exists>r s. s \<in> snd ` set newS \<and> r \<in> snd ` set oldS \<and> st_Name r = st_Name s \<and> P r s \<and>
      v = \<lparr>mv_Old = r, mv_New = s\<rparr>)"
    by (auto simp: indexed_member [OF assms(2)] indexed_get [OF assms(1)])
  finally show ?thesis by (cases v) auto
qed

lemma moves_of_distinct: "indexed st_Name newS \<Longrightarrow> distinct (map (\<lambda>v. st_Name (mv_New v)) (moves_of P oldS newS))"
proof (induction newS)
  case (Cons p newS)
  obtain n s where p: "p = (n, s)" by (cases p)
  have "indexed st_Name newS" using Cons.prems by (simp add: indexed_def)
  moreover have "st_Name s \<notin> st_Name ` mv_New ` set (moves_of P oldS newS)"
  proof
    assume "st_Name s \<in> st_Name ` mv_New ` set (moves_of P oldS newS)"
    then obtain k s' where "(k, s') \<in> set newS" "st_Name s' = st_Name s"
      by (force simp: moves_of_def split: option.splits if_splits)
    with Cons.prems p show False by (force simp: indexed_def)
  qed
  ultimately show ?case using Cons.IH
    by (auto simp: moves_of_def p image_image split: option.split)
qed (simp add: moves_of_def)

lemma changes_of_member:
  assumes "indexed dns_Name oldR" and "indexed dns_Name newR"
  shows "c \<in> set (changes_of oldR newR) \<longleftrightarrow>
     (\<exists>q r. q \<in> snd ` set oldR \<and> r \<in> snd ` set newR \<and> dns_Name q = dns_Name r \<and> dns_Target q \<noteq> dns_Target r \<and>
        c = \<lparr>dc_Name = dns_Name r, dc_OldTarget = dns_Target q, dc_NewTarget = dns_Target r\<rparr>)"
proof -
  have "c \<in> set (changes_of oldR newR) \<longleftrightarrow>
      (\<exists>n q r. (n, r) \<in> set newR \<and> map_of oldR n = Some q \<and> dns_Target q \<noteq> dns_Target r \<and>
        c = \<lparr>dc_Name = n, dc_OldTarget = dns_Target q, dc_NewTarget = dns_Target r\<rparr>)"
    by (force simp: changes_of_def split: option.splits if_splits)
  then show ?thesis
    by (auto simp: indexed_member [OF assms(2)] indexed_get [OF assms(1)])
qed

lemma changes_of_distinct: "indexed dns_Name newR \<Longrightarrow> distinct (map dc_Name (changes_of oldR newR))"
proof (induction newR)
  case (Cons p newR)
  obtain n r where p: "p = (n, r)" by (cases p)
  have "indexed dns_Name newR" using Cons.prems by (simp add: indexed_def)
  moreover have "n \<notin> dc_Name ` set (changes_of oldR newR)"
    using Cons.prems p by (force simp: changes_of_def indexed_def split: option.splits if_splits)
  ultimately show ?case using Cons.IH by (auto simp: changes_of_def p split: option.split)
qed (simp add: changes_of_def)

text \<open>Every list of a delta is strictly sorted by its key.\<close>

lemma strictly_sorted: "distinct (map f xs) \<Longrightarrow> sorted_wrt (<) (map f (sort_key f xs))"
  by (simp add: strict_sorted_iff sk.distinct_map_srt)

text \<open>Plans whose streams and records have unique names, which the indices represent faithfully.\<close>

definition uniquely_named :: "Plan \<Rightarrow> bool" where
  "uniquely_named p \<longleftrightarrow> distinct (map st_Name (pl_Streams p)) \<and> distinct (map dns_Name (pl_DNS p))"

lemma indexStreams_values: "uniquely_named p \<Longrightarrow> snd ` set (indexStreams (pl_Streams p)) = set (pl_Streams p)"
  by (auto simp: indexStreams_def uniquely_named_def index_fold_distinct image_image)

lemma indexDNS_values: "uniquely_named p \<Longrightarrow> snd ` set (indexDNS (pl_DNS p)) = set (pl_DNS p)"
  by (auto simp: indexDNS_def uniquely_named_def index_fold_distinct image_image)

lemma uniquely_named_stream: "uniquely_named p \<Longrightarrow> s \<in> set (pl_Streams p) \<Longrightarrow> r \<in> set (pl_Streams p) \<Longrightarrow>
    st_Name s = st_Name r \<Longrightarrow> s = r"
  by (auto simp: uniquely_named_def distinct_map dest: inj_onD)

lemma uniquely_named_dns: "uniquely_named p \<Longrightarrow> s \<in> set (pl_DNS p) \<Longrightarrow> r \<in> set (pl_DNS p) \<Longrightarrow>
    dns_Name s = dns_Name r \<Longrightarrow> s = r"
  by (auto simp: uniquely_named_def distinct_map dest: inj_onD)

definition stream_names :: "Plan \<Rightarrow> string set" where
  "stream_names p = st_Name ` set (pl_Streams p)"

definition dns_names :: "Plan \<Rightarrow> string set" where
  "dns_names p = dns_Name ` set (pl_DNS p)"

lemma Diff_sets:
  assumes "uniquely_named a" and "uniquely_named b"
  shows "set (dl_Added (Diff a b)) = {s \<in> set (pl_Streams b). st_Name s \<notin> stream_names a}"
    and "set (dl_Removed (Diff a b)) = {s \<in> set (pl_Streams a). st_Name s \<notin> stream_names b}"
    and "set (dl_Moved (Diff a b)) = {v. mv_Old v \<in> set (pl_Streams a) \<and> mv_New v \<in> set (pl_Streams b) \<and>
        st_Name (mv_Old v) = st_Name (mv_New v) \<and> placement_changed (mv_Old v) (mv_New v)}"
    and "set (dl_Modified (Diff a b)) = {v. mv_Old v \<in> set (pl_Streams a) \<and> mv_New v \<in> set (pl_Streams b) \<and>
        st_Name (mv_Old v) = st_Name (mv_New v) \<and> \<not> placement_changed (mv_Old v) (mv_New v) \<and> mv_Old v \<noteq> mv_New v}"
    and "set (dl_DNSAdded (Diff a b)) = {r \<in> set (pl_DNS b). dns_Name r \<notin> dns_names a}"
    and "set (dl_DNSRemoved (Diff a b)) = {r \<in> set (pl_DNS a). dns_Name r \<notin> dns_names b}"
    and "set (dl_DNSChanged (Diff a b)) = {\<lparr>dc_Name = dns_Name r, dc_OldTarget = dns_Target q, dc_NewTarget = dns_Target r\<rparr> |q r.
        q \<in> set (pl_DNS a) \<and> r \<in> set (pl_DNS b) \<and> dns_Name q = dns_Name r \<and> dns_Target q \<noteq> dns_Target r}"
proof -
  note idx = indexed_streams [of "pl_Streams a"] indexed_streams [of "pl_Streams b"]
    indexed_dns [of "pl_DNS a"] indexed_dns [of "pl_DNS b"]
  note vals = indexStreams_values [OF assms(1)] indexStreams_values [OF assms(2)]
    indexDNS_values [OF assms(1)] indexDNS_values [OF assms(2)]
  note D = Diff_def diff_maps_eq
  show "set (dl_Added (Diff a b)) = {s \<in> set (pl_Streams b). st_Name s \<notin> stream_names a}"
    by (simp add: D set_eq_iff fresh_in_member [OF idx(2,1)] vals stream_names_def)
  show "set (dl_Removed (Diff a b)) = {s \<in> set (pl_Streams a). st_Name s \<notin> stream_names b}"
    by (simp add: D set_eq_iff fresh_in_member [OF idx(1,2)] vals stream_names_def)
  show "set (dl_Moved (Diff a b)) = {v. mv_Old v \<in> set (pl_Streams a) \<and> mv_New v \<in> set (pl_Streams b) \<and>
        st_Name (mv_Old v) = st_Name (mv_New v) \<and> placement_changed (mv_Old v) (mv_New v)}"
    by (simp add: D set_eq_iff moves_of_member [OF idx(1,2)] vals)
  show "set (dl_Modified (Diff a b)) = {v. mv_Old v \<in> set (pl_Streams a) \<and> mv_New v \<in> set (pl_Streams b) \<and>
        st_Name (mv_Old v) = st_Name (mv_New v) \<and> \<not> placement_changed (mv_Old v) (mv_New v) \<and> mv_Old v \<noteq> mv_New v}"
    by (auto simp: D moves_of_member [OF idx(1,2)] vals placement_changed_def streamConfigChanged_iff)
  show "set (dl_DNSAdded (Diff a b)) = {r \<in> set (pl_DNS b). dns_Name r \<notin> dns_names a}"
    by (simp add: D set_eq_iff fresh_in_member [OF idx(4,3)] vals dns_names_def)
  show "set (dl_DNSRemoved (Diff a b)) = {r \<in> set (pl_DNS a). dns_Name r \<notin> dns_names b}"
    by (simp add: D set_eq_iff fresh_in_member [OF idx(3,4)] vals dns_names_def)
  show "set (dl_DNSChanged (Diff a b)) = {\<lparr>dc_Name = dns_Name r, dc_OldTarget = dns_Target q, dc_NewTarget = dns_Target r\<rparr> |q r.
        q \<in> set (pl_DNS a) \<and> r \<in> set (pl_DNS b) \<and> dns_Name q = dns_Name r \<and> dns_Target q \<noteq> dns_Target r}"
    unfolding set_eq_iff mem_Collect_eq D Delta.simps set_sort changes_of_member [OF idx(3,4)] vals by blast
qed

lemma Diff_sorted:
  "sorted_wrt (<) (map st_Name (dl_Added (Diff a b)))"
  "sorted_wrt (<) (map st_Name (dl_Removed (Diff a b)))"
  "sorted_wrt (<) (map (\<lambda>v. st_Name (mv_New v)) (dl_Moved (Diff a b)))"
  "sorted_wrt (<) (map (\<lambda>v. st_Name (mv_New v)) (dl_Modified (Diff a b)))"
  "sorted_wrt (<) (map dns_Name (dl_DNSAdded (Diff a b)))"
  "sorted_wrt (<) (map dns_Name (dl_DNSRemoved (Diff a b)))"
  "sorted_wrt (<) (map dc_Name (dl_DNSChanged (Diff a b)))"
  by (simp_all only: Diff_def diff_maps_eq Delta.simps strictly_sorted fresh_in_distinct indexed_streams
      indexed_dns moves_of_distinct changes_of_distinct)

subsection \<open>Patching\<close>

text \<open>Replacing the items of one keyed set by those of another.\<close>

lemma keyed_patch:
  assumes "inj_on k A" and "inj_on k B"
  shows "B = (A - {x \<in> A. k x \<notin> k ` B} - {x \<in> A. \<exists>y\<in>B. k x = k y \<and> x \<noteq> y}) \<union>
     {y \<in> B. k y \<notin> k ` A} \<union> {y \<in> B. \<exists>x\<in>A. k x = k y \<and> x \<noteq> y}"
proof (intro equalityI subsetI)
  fix y assume y: "y \<in> B"
  show "y \<in> (A - {x \<in> A. k x \<notin> k ` B} - {x \<in> A. \<exists>y\<in>B. k x = k y \<and> x \<noteq> y}) \<union>
     {y \<in> B. k y \<notin> k ` A} \<union> {y \<in> B. \<exists>x\<in>A. k x = k y \<and> x \<noteq> y}"
  proof (cases "\<exists>x\<in>A. k x = k y \<and> x \<noteq> y")
    case False
    with y assms(2) show ?thesis by (auto dest: inj_onD)
  qed (use y in blast)
next
  fix y assume "y \<in> (A - {x \<in> A. k x \<notin> k ` B} - {x \<in> A. \<exists>y\<in>B. k x = k y \<and> x \<noteq> y}) \<union>
     {y \<in> B. k y \<notin> k ` A} \<union> {y \<in> B. \<exists>x\<in>A. k x = k y \<and> x \<noteq> y}"
  then show "y \<in> B" by auto
qed

definition replaced_moves :: "Plan \<Rightarrow> Plan \<Rightarrow> StreamMove set" where
  "replaced_moves a b = {v. mv_Old v \<in> set (pl_Streams a) \<and> mv_New v \<in> set (pl_Streams b) \<and>
     st_Name (mv_Old v) = st_Name (mv_New v) \<and> mv_Old v \<noteq> mv_New v}"

lemma replaced_moves_images:
  "mv_Old ` replaced_moves a b =
     {r \<in> set (pl_Streams a). \<exists>s\<in>set (pl_Streams b). st_Name r = st_Name s \<and> r \<noteq> s}"
  "mv_New ` replaced_moves a b =
     {s \<in> set (pl_Streams b). \<exists>r\<in>set (pl_Streams a). st_Name r = st_Name s \<and> r \<noteq> s}"
proof -
  have pair: "\<lparr>mv_Old = r, mv_New = s\<rparr> \<in> replaced_moves a b"
    if "r \<in> set (pl_Streams a)" "s \<in> set (pl_Streams b)" "st_Name r = st_Name s" "r \<noteq> s" for r s
    using that by (simp add: replaced_moves_def)
  show "mv_Old ` replaced_moves a b =
     {r \<in> set (pl_Streams a). \<exists>s\<in>set (pl_Streams b). st_Name r = st_Name s \<and> r \<noteq> s}"
  proof (intro equalityI subsetI)
    fix r assume "r \<in> {r \<in> set (pl_Streams a). \<exists>s\<in>set (pl_Streams b). st_Name r = st_Name s \<and> r \<noteq> s}"
    then obtain s where "\<lparr>mv_Old = r, mv_New = s\<rparr> \<in> replaced_moves a b" using pair by blast
    then show "r \<in> mv_Old ` replaced_moves a b" by (metis StreamMove.select_convs(1) imageI)
  qed (auto simp: replaced_moves_def)
  show "mv_New ` replaced_moves a b =
     {s \<in> set (pl_Streams b). \<exists>r\<in>set (pl_Streams a). st_Name r = st_Name s \<and> r \<noteq> s}"
  proof (intro equalityI subsetI)
    fix s assume "s \<in> {s \<in> set (pl_Streams b). \<exists>r\<in>set (pl_Streams a). st_Name r = st_Name s \<and> r \<noteq> s}"
    then obtain r where "\<lparr>mv_Old = r, mv_New = s\<rparr> \<in> replaced_moves a b" using pair by blast
    then show "s \<in> mv_New ` replaced_moves a b" by (metis StreamMove.select_convs(2) imageI)
  qed (auto simp: replaced_moves_def)
qed

lemma record_eq_iff: "q = r \<longleftrightarrow> dns_Name q = dns_Name r \<and> dns_Target q = dns_Target (r :: DNSRecord)"
  by (auto intro: DNSRecord.equality)

lemma changed_images:
  fixes A B :: "DNSRecord set"
  defines "C \<equiv> {\<lparr>dc_Name = dns_Name r, dc_OldTarget = dns_Target q, dc_NewTarget = dns_Target r\<rparr> |q r.
     q \<in> A \<and> r \<in> B \<and> dns_Name q = dns_Name r \<and> dns_Target q \<noteq> dns_Target r}"
  shows "(\<lambda>c. \<lparr>dns_Name = dc_Name c, dns_Target = dc_OldTarget c\<rparr>) ` C =
      {q \<in> A. \<exists>r\<in>B. dns_Name q = dns_Name r \<and> q \<noteq> r}"
    and "(\<lambda>c. \<lparr>dns_Name = dc_Name c, dns_Target = dc_NewTarget c\<rparr>) ` C =
      {r \<in> B. \<exists>q\<in>A. dns_Name q = dns_Name r \<and> q \<noteq> r}"
proof -
  have C: "C = (\<lambda>(q, r). \<lparr>dc_Name = dns_Name r, dc_OldTarget = dns_Target q, dc_NewTarget = dns_Target r\<rparr>) `
      {(q, r). q \<in> A \<and> r \<in> B \<and> dns_Name q = dns_Name r \<and> q \<noteq> r}"
    unfolding C_def by (auto simp: record_eq_iff image_iff)
  have old: "(\<lambda>c. \<lparr>dns_Name = dc_Name c, dns_Target = dc_OldTarget c\<rparr>) ` C =
      fst ` {(q, r). q \<in> A \<and> r \<in> B \<and> dns_Name q = dns_Name r \<and> q \<noteq> r}"
    unfolding C image_image by (intro image_cong refl) (auto intro: DNSRecord.equality)
  have new: "(\<lambda>c. \<lparr>dns_Name = dc_Name c, dns_Target = dc_NewTarget c\<rparr>) ` C =
      snd ` {(q, r). q \<in> A \<and> r \<in> B \<and> dns_Name q = dns_Name r \<and> q \<noteq> r}"
    unfolding C image_image by (intro image_cong refl) (auto intro: DNSRecord.equality)
  show "(\<lambda>c. \<lparr>dns_Name = dc_Name c, dns_Target = dc_OldTarget c\<rparr>) ` C =
      {q \<in> A. \<exists>r\<in>B. dns_Name q = dns_Name r \<and> q \<noteq> r}" unfolding old by force
  show "(\<lambda>c. \<lparr>dns_Name = dc_Name c, dns_Target = dc_NewTarget c\<rparr>) ` C =
      {r \<in> B. \<exists>q\<in>A. dns_Name q = dns_Name r \<and> q \<noteq> r}" unfolding new by force
qed

subsection \<open>Properties\<close>

text \<open>
  The categories of a difference, for plans with unique names: Added and Removed are the streams
  whose name only one plan has, Moved those of both whose cluster or domain differs, Modified those
  of both in the same place that differ in any other field, and likewise for the DNS records by
  target. Every list is strictly sorted by name, so it lists each item once.
\<close>

theorem Diff_categories:
  assumes "uniquely_named a" and "uniquely_named b"
  shows "(s \<in> set (dl_Added (Diff a b)) \<longleftrightarrow> s \<in> set (pl_Streams b) \<and> st_Name s \<notin> stream_names a) \<and>
    (s \<in> set (dl_Removed (Diff a b)) \<longleftrightarrow> s \<in> set (pl_Streams a) \<and> st_Name s \<notin> stream_names b) \<and>
    (\<lparr>mv_Old = r, mv_New = s\<rparr> \<in> set (dl_Moved (Diff a b)) \<longleftrightarrow>
       r \<in> set (pl_Streams a) \<and> s \<in> set (pl_Streams b) \<and> st_Name r = st_Name s \<and>
       (st_Cluster r \<noteq> st_Cluster s \<or> st_JSDomain r \<noteq> st_JSDomain s)) \<and>
    (\<lparr>mv_Old = r, mv_New = s\<rparr> \<in> set (dl_Modified (Diff a b)) \<longleftrightarrow>
       r \<in> set (pl_Streams a) \<and> s \<in> set (pl_Streams b) \<and> st_Name r = st_Name s \<and>
       st_Cluster r = st_Cluster s \<and> st_JSDomain r = st_JSDomain s \<and> r \<noteq> s) \<and>
    (q \<in> set (dl_DNSAdded (Diff a b)) \<longleftrightarrow> q \<in> set (pl_DNS b) \<and> dns_Name q \<notin> dns_names a) \<and>
    (q \<in> set (dl_DNSRemoved (Diff a b)) \<longleftrightarrow> q \<in> set (pl_DNS a) \<and> dns_Name q \<notin> dns_names b) \<and>
    sorted_wrt (<) (map st_Name (dl_Added (Diff a b))) \<and> sorted_wrt (<) (map st_Name (dl_Removed (Diff a b))) \<and>
    sorted_wrt (<) (map (\<lambda>v. st_Name (mv_New v)) (dl_Moved (Diff a b))) \<and>
    sorted_wrt (<) (map (\<lambda>v. st_Name (mv_New v)) (dl_Modified (Diff a b))) \<and>
    sorted_wrt (<) (map dc_Name (dl_DNSChanged (Diff a b)))"
  by (simp add: Diff_sets [OF assms] Diff_sorted placement_changed_def)

text \<open>
  C21. A difference is a patch: removing from the old plan what the delta removes and the old side
  of what it moves or modifies, and adding what it adds and the new side, gives the new plan, for
  the streams and for the DNS records.
\<close>

theorem Diff_patch:
  assumes "uniquely_named a" and "uniquely_named b"
  shows "set (pl_Streams b) =
      (set (pl_Streams a) - set (dl_Removed (Diff a b)) -
         mv_Old ` (set (dl_Moved (Diff a b)) \<union> set (dl_Modified (Diff a b)))) \<union>
      set (dl_Added (Diff a b)) \<union> mv_New ` (set (dl_Moved (Diff a b)) \<union> set (dl_Modified (Diff a b))) \<and>
    set (pl_DNS b) =
      (set (pl_DNS a) - set (dl_DNSRemoved (Diff a b)) -
         (\<lambda>c. \<lparr>dns_Name = dc_Name c, dns_Target = dc_OldTarget c\<rparr>) ` set (dl_DNSChanged (Diff a b))) \<union>
      set (dl_DNSAdded (Diff a b)) \<union>
      (\<lambda>c. \<lparr>dns_Name = dc_Name c, dns_Target = dc_NewTarget c\<rparr>) ` set (dl_DNSChanged (Diff a b))"
proof
  have M: "set (dl_Moved (Diff a b)) \<union> set (dl_Modified (Diff a b)) = replaced_moves a b"
    by (auto simp: Diff_sets [OF assms] placement_changed_def replaced_moves_def)
  show "set (pl_Streams b) =
      (set (pl_Streams a) - set (dl_Removed (Diff a b)) -
         mv_Old ` (set (dl_Moved (Diff a b)) \<union> set (dl_Modified (Diff a b)))) \<union>
      set (dl_Added (Diff a b)) \<union> mv_New ` (set (dl_Moved (Diff a b)) \<union> set (dl_Modified (Diff a b)))"
    unfolding M Diff_sets(1,2) [OF assms] stream_names_def replaced_moves_images
    by (rule keyed_patch) (use assms in \<open>auto simp: uniquely_named_def distinct_map\<close>)
  show "set (pl_DNS b) =
      (set (pl_DNS a) - set (dl_DNSRemoved (Diff a b)) -
         (\<lambda>c. \<lparr>dns_Name = dc_Name c, dns_Target = dc_OldTarget c\<rparr>) ` set (dl_DNSChanged (Diff a b))) \<union>
      set (dl_DNSAdded (Diff a b)) \<union>
      (\<lambda>c. \<lparr>dns_Name = dc_Name c, dns_Target = dc_NewTarget c\<rparr>) ` set (dl_DNSChanged (Diff a b))"
    unfolding Diff_sets(5-7) [OF assms] dns_names_def changed_images
    by (rule keyed_patch) (use assms in \<open>auto simp: uniquely_named_def distinct_map\<close>)
qed

lemma keyed_equal:
  assumes "\<And>x y. x \<in> A \<Longrightarrow> y \<in> B \<Longrightarrow> k x = k y \<Longrightarrow> x = y"
    and "{y \<in> B. k y \<notin> k ` A} = {}" and "{x \<in> A. k x \<notin> k ` B} = {}"
  shows "A = B"
proof (intro equalityI subsetI)
  fix x assume "x \<in> A"
  with assms(3) obtain y where "y \<in> B" "k x = k y" by blast
  with assms(1) \<open>x \<in> A\<close> show "x \<in> B" by blast
next
  fix y assume "y \<in> B"
  with assms(2) obtain x where "x \<in> A" "k y = k x" by blast
  with assms(1) [of x y] \<open>y \<in> B\<close> show "y \<in> A" by simp
qed

text \<open>
  No changes means the same plan: for plans with unique names HasChanges is false exactly when
  both hold the same streams and the same DNS records, in every field.
\<close>

theorem Diff_no_changes:
  assumes "uniquely_named a" and "uniquely_named b"
  shows "\<not> HasChanges (Diff a b) \<longleftrightarrow> set (pl_Streams a) = set (pl_Streams b) \<and> set (pl_DNS a) = set (pl_DNS b)"
proof -
  have count: "\<not> HasChanges (Diff a b) \<longleftrightarrow> set (dl_Added (Diff a b)) = {} \<and> set (dl_Removed (Diff a b)) = {} \<and>
      set (dl_Moved (Diff a b)) \<union> set (dl_Modified (Diff a b)) = {} \<and> set (dl_DNSAdded (Diff a b)) = {} \<and>
      set (dl_DNSRemoved (Diff a b)) = {} \<and> set (dl_DNSChanged (Diff a b)) = {}"
    by (auto simp: HasChanges_def ChangeCount_def)
  have M: "set (dl_Moved (Diff a b)) \<union> set (dl_Modified (Diff a b)) = replaced_moves a b"
    by (auto simp: Diff_sets [OF assms] placement_changed_def replaced_moves_def)
  show ?thesis
  proof
    assume none: "\<not> HasChanges (Diff a b)"
    then have "replaced_moves a b = {}" using M by (simp add: count)
    then have same: "\<And>r s. r \<in> set (pl_Streams a) \<Longrightarrow> s \<in> set (pl_Streams b) \<Longrightarrow> st_Name r = st_Name s \<Longrightarrow> r = s"
      using replaced_moves_images(1) [of a b] by auto
    have streams: "set (pl_Streams a) = set (pl_Streams b)"
      using none unfolding count Diff_sets(1,2) [OF assms] stream_names_def
      by - (rule keyed_equal [where k = st_Name, OF same], simp_all)
    have "{q \<in> set (pl_DNS a). \<exists>r\<in>set (pl_DNS b). dns_Name q = dns_Name r \<and> q \<noteq> r} = {}"
      using none unfolding count Diff_sets(7) [OF assms] changed_images(1) [symmetric] by simp
    then have same: "\<And>q r. q \<in> set (pl_DNS a) \<Longrightarrow> r \<in> set (pl_DNS b) \<Longrightarrow> dns_Name q = dns_Name r \<Longrightarrow> q = r"
      by auto
    have "set (pl_DNS a) = set (pl_DNS b)"
      using none unfolding count Diff_sets(5,6) [OF assms] dns_names_def
      by - (rule keyed_equal [where k = dns_Name, OF same], simp_all)
    with streams show "set (pl_Streams a) = set (pl_Streams b) \<and> set (pl_DNS a) = set (pl_DNS b)" by blast
  next
    assume eq: "set (pl_Streams a) = set (pl_Streams b) \<and> set (pl_DNS a) = set (pl_DNS b)"
    have "replaced_moves a b = {}"
      using eq uniquely_named_stream [OF assms(1)] by (auto simp: replaced_moves_def)
    moreover have "set (dl_DNSChanged (Diff a b)) = {}"
      using eq uniquely_named_dns [OF assms(1)] by (auto simp: Diff_sets(7) [OF assms])
    ultimately show "\<not> HasChanges (Diff a b)"
      unfolding count M Diff_sets(1,2,5,6) [OF assms] by (auto simp: eq stream_names_def dns_names_def)
  qed
qed

text \<open>
  Reversal: the difference back from the new plan adds what was removed and removes what was
  added, and moves and modifies the same streams the other way round.
\<close>

theorem Diff_reverse:
  assumes "uniquely_named a" and "uniquely_named b"
  shows "dl_Added (Diff b a) = dl_Removed (Diff a b) \<and> dl_Removed (Diff b a) = dl_Added (Diff a b) \<and>
    dl_DNSAdded (Diff b a) = dl_DNSRemoved (Diff a b) \<and> dl_DNSRemoved (Diff b a) = dl_DNSAdded (Diff a b) \<and>
    set (dl_Moved (Diff b a)) = (\<lambda>v. \<lparr>mv_Old = mv_New v, mv_New = mv_Old v\<rparr>) ` set (dl_Moved (Diff a b)) \<and>
    set (dl_Modified (Diff b a)) = (\<lambda>v. \<lparr>mv_Old = mv_New v, mv_New = mv_Old v\<rparr>) ` set (dl_Modified (Diff a b))"
proof -
  let ?swap = "\<lambda>v :: StreamMove. \<lparr>mv_Old = mv_New v, mv_New = mv_Old v\<rparr>"
  have flip: "{v :: StreamMove. P (mv_Old v) (mv_New v)} = ?swap ` {v. P (mv_New v) (mv_Old v)}" for P
  proof (intro equalityI subsetI)
    fix v :: StreamMove assume "v \<in> {v. P (mv_Old v) (mv_New v)}"
    then have "?swap v \<in> {v. P (mv_New v) (mv_Old v)}" and "v = ?swap (?swap v)" by simp_all
    then show "v \<in> ?swap ` {v. P (mv_New v) (mv_Old v)}" by blast
  qed auto
  have sym: "placement_changed r s = placement_changed s r" for r s
    by (auto simp: placement_changed_def)
  have "set (dl_Moved (Diff b a)) = ?swap ` set (dl_Moved (Diff a b))"
    unfolding Diff_sets(3) [OF assms(2,1)] Diff_sets(3) [OF assms]
    by (subst flip [where P = "\<lambda>r s. r \<in> set (pl_Streams b) \<and> s \<in> set (pl_Streams a) \<and>
        st_Name r = st_Name s \<and> placement_changed r s"]) (auto simp: sym)
  moreover have "set (dl_Modified (Diff b a)) = ?swap ` set (dl_Modified (Diff a b))"
    unfolding Diff_sets(4) [OF assms(2,1)] Diff_sets(4) [OF assms]
    by (subst flip [where P = "\<lambda>r s. r \<in> set (pl_Streams b) \<and> s \<in> set (pl_Streams a) \<and>
        st_Name r = st_Name s \<and> \<not> placement_changed r s \<and> r \<noteq> s"]) (auto simp: sym)
  ultimately show ?thesis by (simp add: Diff_def diff_maps_eq)
qed

text \<open>
  Independence of the map order: the index maps may be walked in any order, the delta is the
  same list by list.
\<close>

theorem diff_maps_order_independent:
  assumes "indexed st_Name oldS" and "indexed st_Name newS" and "indexed dns_Name oldR" and "indexed dns_Name newR"
    and "mset oldS = mset oldS'" and "mset newS = mset newS'" and "mset oldR = mset oldR'" and "mset newR = mset newR'"
  shows "diff_maps dot oldS' newS' oldR' newR' = diff_maps dot oldS newS oldR newR"
proof -
  note d = assms(1-4) [unfolded indexed_def, THEN conjunct1]
  have same: "map_of oldS' = map_of oldS" "map_of newS' = map_of newS" "map_of oldR' = map_of oldR" "map_of newR' = map_of newR"
    using map_of_mset_cong [OF d(1) assms(5)] map_of_mset_cong [OF d(2) assms(6)]
      map_of_mset_cong [OF d(3) assms(7)] map_of_mset_cong [OF d(4) assms(8)] by simp_all
  have fresh: "sort_key nm (fresh_in m' other') = sort_key nm (fresh_in m other)"
    if "indexed nm m" "mset m = mset m'" "map_of other' = map_of other" for nm and m m' other other' :: "'a gomap"
  proof (rule sk.srt_cong [symmetric])
    show "mset (fresh_in m other) = mset (fresh_in m' other')" using that by (simp add: fresh_in_def)
  qed (rule fresh_in_distinct [OF that(1)])
  have moves: "sort_key (\<lambda>v. st_Name (mv_New v)) (moves_of P oldS' newS') =
      sort_key (\<lambda>v. st_Name (mv_New v)) (moves_of P oldS newS)" for P
  proof (rule sk.srt_cong [symmetric])
    show "mset (moves_of P oldS newS) = mset (moves_of P oldS' newS')"
      using assms(6) by (simp add: moves_of_def same mset_concat_map)
  qed (rule moves_of_distinct [OF assms(2)])
  have changes: "sort_key dc_Name (changes_of oldR' newR') = sort_key dc_Name (changes_of oldR newR)"
  proof (rule sk.srt_cong [symmetric])
    show "mset (changes_of oldR newR) = mset (changes_of oldR' newR')"
      using assms(8) by (simp add: changes_of_def same mset_concat_map)
  qed (rule changes_of_distinct [OF assms(4)])
  show ?thesis
    unfolding diff_maps_eq moves changes fresh [OF assms(1,5) same(2)] fresh [OF assms(2,6) same(1)]
      fresh [OF assms(3,7) same(4)] fresh [OF assms(4,8) same(3)] ..
qed

subsection \<open>Witnesses\<close>

text \<open>The example plan after its first regional partition moved to the core cluster.\<close>

definition ex_moved :: Plan where
  "ex_moved = ex_plan\<lparr>pl_Streams := (pl_Streams ex_plan)[2 := (pl_Streams ex_plan ! 2)
     \<lparr>st_Cluster := ''core'', st_JSDomain := ''core''\<rparr>], pl_DNS := tl (pl_DNS ex_plan)\<rparr>"

lemma ex_named: "uniquely_named ex_plan" "uniquely_named ex_moved"
  by (simp_all add: uniquely_named_def ex_moved_def ex_plan_def)

theorem Diff_categories_witness:
  "\<lparr>mv_Old = pl_Streams ex_plan ! 2, mv_New = pl_Streams ex_moved ! 2\<rparr> \<in> set (dl_Moved (Diff ex_plan ex_moved))"
proof -
  have "pl_Streams ex_plan ! 2 \<in> set (pl_Streams ex_plan) \<and> pl_Streams ex_moved ! 2 \<in> set (pl_Streams ex_moved) \<and>
      st_Name (pl_Streams ex_plan ! 2) = st_Name (pl_Streams ex_moved ! 2) \<and>
      st_Cluster (pl_Streams ex_plan ! 2) \<noteq> st_Cluster (pl_Streams ex_moved ! 2)"
    by (simp add: ex_moved_def ex_plan_def)
  then show ?thesis using Diff_categories [OF ex_named] by blast
qed

theorem Diff_patch_witness:
  "set (pl_DNS ex_moved) = (set (pl_DNS ex_plan) - set (dl_DNSRemoved (Diff ex_plan ex_moved)) -
     (\<lambda>c. \<lparr>dns_Name = dc_Name c, dns_Target = dc_OldTarget c\<rparr>) ` set (dl_DNSChanged (Diff ex_plan ex_moved))) \<union>
     set (dl_DNSAdded (Diff ex_plan ex_moved)) \<union>
     (\<lambda>c. \<lparr>dns_Name = dc_Name c, dns_Target = dc_NewTarget c\<rparr>) ` set (dl_DNSChanged (Diff ex_plan ex_moved))"
  by (rule Diff_patch [OF ex_named, THEN conjunct2])

theorem Diff_no_changes_witness: "HasChanges (Diff ex_plan ex_moved) \<and> \<not> HasChanges (Diff ex_plan ex_plan)"
proof -
  have "set (pl_DNS ex_plan) \<noteq> set (pl_DNS ex_moved)" by (simp add: ex_moved_def ex_plan_def)
  with Diff_no_changes [OF ex_named] Diff_no_changes [OF ex_named(1) ex_named(1)] show ?thesis by blast
qed

theorem Diff_reverse_witness: "dl_DNSAdded (Diff ex_moved ex_plan) = dl_DNSRemoved (Diff ex_plan ex_moved)"
  using Diff_reverse [OF ex_named] by blast

theorem diff_maps_order_independent_witness:
  "diff_maps ''exdot'' (rev (indexStreams (pl_Streams ex_plan))) (rev (indexStreams (pl_Streams ex_moved)))
     (rev (indexDNS (pl_DNS ex_plan))) (indexDNS (pl_DNS ex_moved)) = Diff ex_plan ex_moved"
proof -
  have dot: "pl_DOT ex_moved = ''exdot''" by (simp add: ex_moved_def ex_plan_def)
  show ?thesis
    unfolding Diff_def dot
    by (rule diff_maps_order_independent [OF indexed_streams indexed_streams indexed_dns indexed_dns]) simp_all
qed

end
