(* ===== verification/Documents.thy ===== *)
theory Documents
  imports Dispatch Diff Accounts
begin

section \<open>Documents about the whole plan\<close>

text \<open>
  Files internal/render/dns.go, catalog.go, accounts.go, rebalance.go and runbook.go with their
  embedded templates: the DNS records, the catalog of external shares, the account configuration,
  the steps of a rebalance and the deployment guide. Each renderer returns a map with the files it
  produces.
\<close>

subsection \<open>DNS records\<close>

definition dns_Render :: "Plan \<Rightarrow> string gomap" where
  "dns_Render p =
     [(''leaf-dns.yaml'', banner @ ''records:\<newline>'' @
        concat (map (\<lambda>r. ''  - name: '' @ dns_Name r @ ''\<newline>    target: '' @ dns_Target r @ ''\<newline>'')
          (sort_key dns_Name (pl_DNS p))))]"

subsection \<open>The catalog of external shares\<close>

record catalogEntry =
  cat_Consumer :: string
  cat_Public :: string
  cat_Internal :: string

definition catalog_entries :: "Share list \<Rightarrow> catalogEntry list" where
  "catalog_entries shares = List.map_filter (\<lambda>s.
     case (sh_Consumer s, sh_As s, sh_From s) of
       (Some consumer, Some public, Some internal) \<Rightarrow>
         Some \<lparr>cat_Consumer = consumer, cat_Public = public, cat_Internal = internal\<rparr>
     | _ \<Rightarrow> None) shares"

definition catalog_md :: "string \<Rightarrow> catalogEntry list \<Rightarrow> string" where
  \<open>catalog_md dot entries =
     ''# DMZ Share Catalog: '' @ dot @ ''\<newline>\<newline>'' @
       ''> **Generated** by vikasa-infra/cmd/gen '' @
       [CHR 0xE2, CHR 0x80, CHR 0x94] @
       '' the external-sharing contract; do not edit.\<newline>>\<newline>'' @
       ''> Subscribe-only, subject-scoped. Payload/envelope schema is defined by `openits-models`.\<newline>'' @
       ''>\<newline>'' @
       ''> Note: a coarse subject is not anonymization '' @
       [CHR 0xE2, CHR 0x80, CHR 0x94] @
       '' the CloudEvents envelope may carry provenance.\<newline>\<newline>'' @
       ''| Consumer | Public subject (subscribe) |\<newline>|---|---|\<newline>'' @
     concat (map (\<lambda>e. ''| `'' @ cat_Consumer e @ ''` | `'' @ cat_Public e @ ''` |\<newline>'') entries)\<close>

definition catalog_json :: "string \<Rightarrow> catalogEntry list \<Rightarrow> json" where
  \<comment> \<open>a nil slice is null\<close>
  "catalog_json dot entries = JObj
     [(''dot'', JStr dot),
      (''shares'', if entries = [] then JNull else JArr (map (\<lambda>e. JObj
         [(''consumer'', JStr (cat_Consumer e)), (''public_subject'', JStr (cat_Public e)),
          (''internal_source'', JStr (cat_Internal e))]) entries))]"

definition catalog_Render :: "string \<Rightarrow> DMZ option \<Rightarrow> string gomap" where
  "catalog_Render dot dmz =
     (case dmz of
        None \<Rightarrow> []
      | Some z \<Rightarrow>
          let entries = catalog_entries (dmz_Shares z) in
          [(''dmz-catalog.md'', catalog_md dot entries),
           (''dmz-catalog.json'', MarshalIndent (catalog_json dot entries) @ [newline])])"

subsection \<open>Accounts\<close>

definition accountsTmpl :: "Model \<Rightarrow> string" where
  \<open>accountsTmpl m =
     ''# AUTOGENERATED by vikasa-infra/cmd/gen '' @ [CHR 0xE2, CHR 0x80, CHR 0x94] @
     '' NATS account & ACL model (identity + authz).\<newline>'' @
     ''# Operator-mode JWTs are minted from this same model by sub-project B2 (issuance);\<newline>'' @
     ''# this inline accounts{} block is the reviewable rendering + the dev/non-operator form.\<newline>'' @
     ''accounts {'' @
     concat (map (\<lambda>a.
        ''\<newline>  '' @ ac_Name a @ '' {'' @ (if ac_JetStream a then ''\<newline>    jetstream: enabled'' else []) @
        (if ac_Exports a \<noteq> [] then
           ''\<newline>    exports = ['' @
           concat (map (\<lambda>e. ''\<newline>      { stream: "'' @ e @ ''" }'') (ac_Exports a)) @
           ''\<newline>    ]''
         else []) @
        (if ac_Imports a \<noteq> [] then
           ''\<newline>    imports = ['' @
           concat (map (\<lambda>im.
              ''\<newline>      { stream: { account: '' @ im_FromAccount im @ '', subject: "'' @ im_Subject im @
              ''" } }'') (ac_Imports a)) @
           ''\<newline>    ]''
         else []) @
        (if ac_Users a \<noteq> [] then
           ''\<newline>    users = ['' @
           concat (map (\<lambda>u.
              ''\<newline>      # '' @ u_Label u @ '' user; nkey populated by B2 (issuance).\<newline>      {'' @
              (if u_Publish u \<noteq> [] \<or> u_Subscribe u \<noteq> [] \<or> u_PublishDeny u \<noteq> [] \<or> u_SubscribeDeny u \<noteq> [] then
                 ''\<newline>        permissions {'' @
                 (if u_Publish u \<noteq> [] \<or> u_PublishDeny u \<noteq> [] then
                    ''\<newline>          publish   { '' @
                    (if u_Publish u \<noteq> [] then
                       ''allow: ['' @ join '', '' (map (\<lambda>s. ''"'' @ s @ ''"'') (u_Publish u)) @ '']''
                     else []) @
                    (if u_Publish u \<noteq> [] \<and> u_PublishDeny u \<noteq> [] then '', '' else []) @
                    (if u_PublishDeny u \<noteq> [] then
                       ''deny: ['' @ join '', '' (map (\<lambda>s. ''"'' @ s @ ''"'') (u_PublishDeny u)) @ '']''
                     else []) @
                    '' }''
                  else []) @
                 (if u_Subscribe u \<noteq> [] \<or> u_SubscribeDeny u \<noteq> [] then
                    ''\<newline>          subscribe { '' @
                    (if u_Subscribe u \<noteq> [] then
                       ''allow: ['' @ join '', '' (map (\<lambda>s. ''"'' @ s @ ''"'') (u_Subscribe u)) @ '']''
                     else []) @
                    (if u_Subscribe u \<noteq> [] \<and> u_SubscribeDeny u \<noteq> [] then '', '' else []) @
                    (if u_SubscribeDeny u \<noteq> [] then
                       ''deny: ['' @ join '', '' (map (\<lambda>s. ''"'' @ s @ ''"'') (u_SubscribeDeny u)) @ '']''
                     else []) @
                    '' }''
                  else []) @
                 ''\<newline>        }''
               else []) @
              ''\<newline>      }'') (ac_Users a)) @
           ''\<newline>    ]''
         else []) @
        ''\<newline>  }'') (m_Accounts m)) @
     ''\<newline>}\<newline>\<newline>system_account: SYSTEM\<newline>''\<close>

definition accounts_Render :: "Model \<Rightarrow> string gomap" where
  "accounts_Render m = [(''accounts.conf'', accountsTmpl m)]"

subsection \<open>Rebalancing\<close>

record moveRow =
  mr_Name :: string
  mr_OldCluster :: string
  mr_NewCluster :: string
  mr_OldDomain :: string
  mr_NewDomain :: string

record streamRow =
  sr_Name :: string
  sr_Cluster :: string

record dnsChangeRow =
  dr_Name :: string
  dr_OldTarget :: string
  dr_NewTarget :: string

record rebalanceData =
  rd_DOT :: string
  rd_HasChanges :: bool
  rd_Moved :: "moveRow list"
  rd_Added :: "streamRow list"
  rd_Removed :: "streamRow list"
  rd_Modified :: "streamRow list"
  rd_DNSChanged :: "dnsChangeRow list"
  rd_DNSAdded :: "dnsChangeRow list"
  rd_DNSRemoved :: "dnsChangeRow list"

definition stream_row :: "Stream \<Rightarrow> streamRow" where
  "stream_row s = \<lparr>sr_Name = st_Name s, sr_Cluster = st_Cluster s\<rparr>"

definition buildRebalanceData :: "Delta \<Rightarrow> rebalanceData" where
  "buildRebalanceData d =
     (let hasMoves = dl_Moved d \<noteq> [] in
      \<lparr>rd_DOT = dl_DOT d, rd_HasChanges = HasChanges d,
       rd_Moved = map (\<lambda>m. \<lparr>mr_Name = st_Name (mv_New m), mr_OldCluster = st_Cluster (mv_Old m),
         mr_NewCluster = st_Cluster (mv_New m), mr_OldDomain = st_JSDomain (mv_Old m),
         mr_NewDomain = st_JSDomain (mv_New m)\<rparr>) (dl_Moved d),
       rd_Added = map stream_row (dl_Added d), rd_Removed = map stream_row (dl_Removed d),
       rd_Modified = map (\<lambda>m. stream_row (mv_New m))
         (filter (\<lambda>m. \<not> (hasMoves \<and> st_Tier (mv_New m) = TierCentral)) (dl_Modified d)),
       rd_DNSChanged = map (\<lambda>c. \<lparr>dr_Name = dc_Name c, dr_OldTarget = dc_OldTarget c, dr_NewTarget = dc_NewTarget c\<rparr>)
         (dl_DNSChanged d),
       rd_DNSAdded = map (\<lambda>r. \<lparr>dr_Name = dns_Name r, dr_OldTarget = [], dr_NewTarget = dns_Target r\<rparr>) (dl_DNSAdded d),
       rd_DNSRemoved = map (\<lambda>r. \<lparr>dr_Name = dns_Name r, dr_OldTarget = dns_Target r, dr_NewTarget = []\<rparr>)
         (dl_DNSRemoved d)\<rparr>)"

definition rebalanceTmpl :: "rebalanceData \<Rightarrow> string" where
  \<open>rebalanceTmpl d =
     ''# Rebalance Runbook: '' @ rd_DOT d @ ''\<newline>\<newline>'' @
     ''> **Generated** by vikasa-infra/cmd/gen from the diff of the previous and new specs. Apply top-to-bottom; each '' @
     ''phase is online and idempotent.'' @
     (if \<not> rd_HasChanges d then
        ''\<newline>\<newline>No changes between the previous and new specs. Nothing to rebalance.''
      else (if rd_Moved d \<noteq> [] then
           ''\<newline>\<newline>## Moved partitions (rehost)\<newline>\<newline>'' @
           ''Identity is unchanged; cabinets re-resolve via DNS (durable buffer '' @ [CHR 0xE2, CHR 0x86, CHR 0x92] @
           '' no gap; duplicate deliveries during the switch are absorbed by idempotent sinks keyed on `ce-id`). Cabinet config '' @
           ''is never touched.\<newline>\<newline>### Phase 1 '' @ [CHR 0xE2, CHR 0x80, CHR 0x94] @
           '' Stand up target streams\<newline>'' @
           concat (map (\<lambda>m.
              ''\<newline>- Apply `clusters/'' @ mr_NewCluster m @ ''/streams.yaml` to create `'' @ mr_Name m @
              ''` on `'' @ mr_NewCluster m @ ''` (empty).'') (rd_Moved d)) @
           ''\<newline>\<newline>### Phase 2 '' @ [CHR 0xE2, CHR 0x80, CHR 0x94] @
           '' Dual-source at central\<newline>'' @
           concat (map (\<lambda>m.
              ''\<newline>- Central now sources `'' @ mr_Name m @ ''` from `$JS.'' @ mr_NewDomain m @
              ''.API` (was `$JS.'' @ mr_OldDomain m @
              ''.API`). Dual-source briefly; the overlap yields duplicate deliveries, deduplicated downstream by `ce-id`-keyed '' @
              ''idempotent sinks (stream-level dedup is off on sourcing streams '' @ [CHR 0xE2, CHR 0x80, CHR 0x94] @
              '' finding C4).'') (rd_Moved d)) @
           ''\<newline>\<newline>### Phase 3 '' @ [CHR 0xE2, CHR 0x80, CHR 0x94] @
           '' Repoint leaf-DNS + cycle connections\<newline>'' @
           ''Repoint the affected records (see **DNS changes** below), then cycle the affected cabinets'' @ [CHR 0x27] @
           '' connections at the old cluster so they reconnect and re-resolve.\<newline>\<newline>'' @ ''### Phase 4 '' @
           [CHR 0xE2, CHR 0x80, CHR 0x94] @ '' Cabinets re-source (no action)\<newline>'' @
           ''Cabinets land on the new cluster and re-source telemetry from the current sequence '' @
           [CHR 0xE2, CHR 0x80, CHR 0x94] @
           '' durable buffer means no gap; any duplicate delivery is reconciled by `ce-id`-keyed sinks.\<newline>'' @
           ''\<newline>### Phase 5 '' @ [CHR 0xE2, CHR 0x80, CHR 0x94] @ '' Tear down old streams\<newline>'' @
           concat (map (\<lambda>m.
              ''\<newline>- Remove central'' @ [CHR 0x27] @ ''s source of `'' @ mr_Name m @ ''` from `$JS.'' @
              mr_OldDomain m @ ''.API`, then delete `'' @ mr_Name m @ ''` on `'' @ mr_OldCluster m @ ''`.'') (rd_Moved d))
         else []) @
        (if rd_Added d \<noteq> [] then
           ''\<newline>\<newline>## New partitions\<newline>\<newline>Provision and add to central'' @ [CHR 0x27] @
           ''s sources:\<newline>'' @
           concat (map (\<lambda>s.
              ''\<newline>- `'' @ sr_Name s @ ''` on `'' @ sr_Cluster s @ ''` '' @ [CHR 0xE2, CHR 0x80, CHR 0x94] @
              '' apply `clusters/'' @ sr_Cluster s @ ''/streams.yaml`.'') (rd_Added d))
         else []) @
        (if rd_Removed d \<noteq> [] then
           ''\<newline>\<newline>## Decommissioned partitions\<newline>\<newline>'' @ ''Remove central'' @ [CHR 0x27] @
           ''s source and delete the stream:\<newline>'' @
           concat (map (\<lambda>s. ''\<newline>- `'' @ sr_Name s @ ''` on `'' @ sr_Cluster s @ ''`'') (rd_Removed d))
         else []) @
        (if rd_Modified d \<noteq> [] then
           ''\<newline>\<newline>## In-place updates\<newline>\<newline>'' @
           ''Apply the updated manifests; NACK / `nats stream update` reconciles in place (no rebalance dance):\<newline>'' @
           concat (map (\<lambda>s.
              ''\<newline>- `'' @ sr_Name s @ ''` on `'' @ sr_Cluster s @ ''` '' @ [CHR 0xE2, CHR 0x80, CHR 0x94] @
              '' apply `clusters/'' @ sr_Cluster s @ ''/streams.yaml`.'') (rd_Modified d))
         else []) @
        (if rd_DNSChanged d \<noteq> [] \<or> rd_DNSAdded d \<noteq> [] \<or> rd_DNSRemoved d \<noteq> [] then
           ''\<newline>\<newline>## DNS changes\<newline>\<newline>Update these records in your `vikasa.'' @ rd_DOT d @
           ''` zone (manual unless external-dns automates them):\<newline>'' @
           concat (map (\<lambda>c.
              ''\<newline>- repoint `'' @ dr_Name c @ ''`: `'' @ dr_OldTarget c @ ''` '' @
              [CHR 0xE2, CHR 0x86, CHR 0x92] @ '' `'' @ dr_NewTarget c @ ''`'') (rd_DNSChanged d)) @
           concat (map (\<lambda>c.
              ''\<newline>- create `'' @ dr_Name c @ ''` '' @ [CHR 0xE2, CHR 0x86, CHR 0x92] @ '' `'' @ dr_NewTarget c @
              ''`'') (rd_DNSAdded d)) @
           concat (map (\<lambda>c. ''\<newline>- remove `'' @ dr_Name c @ ''` (was `'' @ dr_OldTarget c @ ''`)'') (rd_DNSRemoved d))
         else [])) @
     ''\<newline>''\<close>

definition rebalance_Render :: "Delta \<Rightarrow> string gomap" where
  "rebalance_Render d = [(''REBALANCE.md'', rebalanceTmpl (buildRebalanceData d))]"

subsection \<open>The deployment guide\<close>

record dmzStreamData =
  ds_Name :: string
  ds_Cluster :: string

record cabinetCount =
  cc_Stream :: string
  cc_Count :: int

record clusterRow =
  rc_ID :: string
  rc_SubstrateLabel :: string
  rc_JsDomain :: string
  rc_LeafEndpoint :: string
  rc_Streams :: "string list"

record bareMetalNote =
  bn_ID :: string
  bn_Hosts :: string

record runbookData =
  rb_DOT :: string
  rb_DeploymentMode :: string
  rb_CentralCluster :: string
  rb_Clusters :: "clusterRow list"
  rb_BareMetalClusters :: "bareMetalNote list"
  rb_K8sClusters :: bool
  rb_DNS :: "DNSRecord list" \<comment> \<open>\<^theory_text>\<open>dnsRow\<close> has the same fields\<close>
  rb_HasCabinets :: bool
  rb_CabinetCounts :: "cabinetCount list"
  rb_TLSIssuer :: string
  rb_SecretStore :: string
  rb_PrometheusRelease :: string
  rb_HasDMZ :: bool
  rb_DMZStream :: "dmzStreamData option"
  rb_Helm :: bool
  rb_CentralPath :: string
  rb_DMZPath :: string
  rb_K8sSliceDir :: string
  rb_K8sResourceDir :: string

definition the_dmz :: "runbookData \<Rightarrow> dmzStreamData" where
  \<comment> \<open>read only where \<^theory_text>\<open>HasDMZ\<close> holds\<close>
  "the_dmz d = (case rb_DMZStream d of None \<Rightarrow> \<lparr>ds_Name = [], ds_Cluster = []\<rparr> | Some z \<Rightarrow> z)"

definition runbookTmpl :: "runbookData \<Rightarrow> string" where
  \<open>runbookTmpl d =
     ''# Deployment Guide: '' @ rb_DOT d @ ''\<newline>\<newline>> **Generated** by vikasa-infra/cmd/gen '' @
     [CHR 0xE2, CHR 0x80, CHR 0x94] @
     '' review before applying.\<newline>\<newline>## Topology Summary\<newline>\<newline>**DOT:** `'' @ rb_DOT d @
     ''`\<newline>**Deployment mode:** '' @ rb_DeploymentMode d @
     ''\<newline>\<newline>### Clusters\<newline>\<newline>| ID | Substrate | JS Domain | Leaf Endpoint |\<newline>'' @
     ''|----|-----------|-----------|---------------|\<newline>'' @
     concat (map (\<lambda>c.
        ''| `'' @ rc_ID c @ ''` | '' @ rc_SubstrateLabel c @ '' | `'' @ rc_JsDomain c @ ''` | `'' @ rc_LeafEndpoint c @
        ''` |\<newline>'') (rb_Clusters d)) @
     ''\<newline>## Provisioning Order\<newline>\<newline>1. Ensure the **central** cluster (`'' @ rb_CentralCluster d @
     ''`) is reachable and its operator/accounts exist (prerequisite).\<newline>'' @
     ''2. Provision the **central** cluster'' @ [CHR 0x27] @ ''s slice in `'' @ rb_CentralPath d @
     ''` first (k8s: apply the Stream CRs, sync-wave 0; bare-metal: see install notes below).\<newline>'' @
     ''3. Provision each **regional** cluster'' @ [CHR 0x27] @ ''s slice in `'' @ rb_K8sSliceDir d @
     ''` (k8s: sync-wave 1'' @ (if rb_Helm d then ''; bare-metal slices stay under `clusters/<id>/`'' else []) @
     '').\<newline>4. Create DNS records (below).\<newline>'' @
     ''5. Cabinets onboard incrementally (separate runbook).\<newline>'' @
     (if rb_BareMetalClusters d \<noteq> [] then
        ''\<newline>### Bare-Metal Install Notes\<newline>\<newline>'' @
        ''Sub-project B (PKI / accounts) supplies a `security.conf` next to each `nats.conf`\<newline>'' @
        ''(TLS, accounts, operator/resolver). It is referenced via `include "security.conf"`\<newline>'' @
        ''and is **not** generated here.\<newline>'' @
        concat (map (\<lambda>b.
           ''- **`'' @ bn_ID b @ ''`** '' @ [CHR 0xE2, CHR 0x80, CHR 0x94] @ '' on hosts `'' @ bn_Hosts b @
           ''`: install `nats-server`, drop that host'' @ [CHR 0x27] @ ''s\<newline>  `clusters/'' @ bn_ID b @
           ''/nats-<host>.conf` as `/etc/vikasa/nats.conf`, install\<newline>  `clusters/'' @ bn_ID b @
           ''/nats-server.service`, then `systemctl enable --now nats-server`.\<newline>'' @
           ''  Create the streams with `nats stream add --config clusters/'' @ bn_ID b @
           ''/streams/<NAME>.json`.\<newline>'') (rb_BareMetalClusters d))
      else []) @
     (if rb_K8sClusters d then
        ''\<newline>### Kubernetes Clusters\<newline>\<newline>Applied by Argo / `kubectl apply`.\<newline>''
      else []) @
     ''\<newline>## Reconciliation Strategy\<newline>\<newline>'' @
     ''Each renderer emits per-cluster file slices, so any reconciliation toolchain works. Default: per-cluster Argo CD '' @
     ''(pull) for multi-cluster deployments; hub Argo when all clusters are co-administered from one control plane; `kubectl '' @
     ''apply` or bare-metal systemd otherwise.\<newline>\<newline>## DNS Records\<newline>\<newline>'' @
     ''Create these CNAME/A records in your `vikasa.'' @ rb_DOT d @
     ''` zone:\<newline>\<newline>| Name | Target |\<newline>|------|--------|\<newline>'' @
     concat (map (\<lambda>r. ''| `'' @ dns_Name r @ ''` | `'' @ dns_Target r @ ''` |\<newline>'') (rb_DNS d)) @
     ''\<newline>'' @
     ''> **Tip:** On Kubernetes with [external-dns](https://github.com/kubernetes-sigs/external-dns), these records can '' @
     ''be created automatically from Service/Ingress annotations (optional).\<newline>\<newline>'' @
     ''## Verification\<newline>\<newline>For each cluster, verify that the expected streams are present:\<newline>'' @
     concat (map (\<lambda>c.
        ''\<newline>**`'' @ rc_ID c @ ''`** (`'' @ rc_LeafEndpoint c @
        ''`):\<newline>\<newline>```\<newline>nats --server '' @ rc_LeafEndpoint c @
        '' stream ls\<newline>```\<newline>'' @
        (if rc_Streams c \<noteq> [] then
           ''Expected streams:\<newline>'' @ concat (map (\<lambda>s. ''- `'' @ s @ ''`\<newline>'') (rc_Streams c))
         else [])) (rb_Clusters d)) @
     ''\<newline>> The central cluster (`'' @ rb_CentralCluster d @
     ''`) should also show each partition stream as a source of its central shard (`VIKASA_<DOT>_CENTRAL_<district>_<partition>`).'' @
     (if rb_HasCabinets d then
        ''\<newline>\<newline>## Cabinet Onboarding\<newline>\<newline>'' @
        ''Each regional partition stream sources its assigned cabinets'' @ [CHR 0x27] @ '' `VIKASA_BUFFER`:\<newline>'' @
        concat (map (\<lambda>k.
           ''\<newline>- `'' @ cc_Stream k @ ''` '' @ [CHR 0xE2, CHR 0x80, CHR 0x94] @ '' '' @ itoa (cc_Count k) @
           '' cabinet(s)'') (rb_CabinetCounts d)) @
        ''\<newline>\<newline>'' @
        ''Onboard incrementally: add cabinets to the inventory, rerun `cmd/gen`, and apply (NACK reconciles, or `nats stream '' @
        ''update` performs the live source-add). Per-cabinet credentials/JWTs are provisioned by sub-project B (control plane '' @
        ''/ PKI), not generated here.''
      else []) @
     (if rb_HasDMZ d then
        ''\<newline>\<newline>## External Sharing (DMZ)\<newline>\<newline>The **DMZ** cluster (`'' @
        ds_Cluster (the_dmz d) @ ''`) hosts the `'' @ ds_Name (the_dmz d) @ ''` stream (wave 2 '' @
        [CHR 0xE2, CHR 0x80, CHR 0x94] @
        '' provisioned last). It re-publishes a filtered subset of central traffic under public subjects for external consumers.\<newline>'' @
        ''\<newline>'' @ ''- Provision the DMZ cluster'' @ [CHR 0x27] @
        ''s slice after central and regional (wave 2); apply the Stream CRs in `'' @ rb_DMZPath d @ ''`.\<newline>'' @
        ''- The public subjects and per-consumer share names are listed in [`dmz-catalog.md`](dmz-catalog.md).\<newline>'' @
        ''- Issue per-consumer subscribe-only JWTs scoped to each share'' @ [CHR 0x27] @
        ''s public subject (sub-project B / PKI). Consumers receive a credential that cannot publish or access internal subjects.''
      else []) @
     ''\<newline>\<newline>## Deployment (GitOps)\<newline>\<newline>'' @
     (if rb_Helm d then
        ''Each Kubernetes cluster'' @ [CHR 0x27] @
        ''s slice is a Helm chart under `charts/<id>/` (`Chart.yaml`, `values.yaml`, `templates/`); no `kustomization.yaml` '' @
        ''is emitted in helm mode.\<newline>\<newline>'' @
        ''- **Kubernetes:** deploy with `helm install vikasa-<id> charts/<id>` (or render first: `helm template charts/<id> '' @
        ''| kubectl apply -f -`; with Argo CD, point the Application at the chart path '' @
        [CHR 0xE2, CHR 0x80, CHR 0x94] @
        '' the generated `argocd/<id>.yaml` already targets `charts/<id>` and is emitted only when `cmd/gen -argo-repo-url` '' @
        ''is set). `values.yaml` defaults reproduce the generated knob values (`namespace`, `tlsIssuer`, `secretStore`, `prometheusRelease`); '' @
        ''override per environment with `-f`.\<newline>'' @ ''- **Bare-metal:** no Argo '' @
        [CHR 0xE2, CHR 0x80, CHR 0x94] @
        '' install the rendered `nats.conf` + systemd unit and apply the streams per the bare-metal steps above.\<newline>''
      else ''Each `clusters/<id>` is a Kustomize overlay (`kustomization.yaml`).\<newline>\<newline>'' @
        ''- **Kubernetes:** deploy with Argo CD '' @ [CHR 0xE2, CHR 0x80, CHR 0x94] @
        '' apply the generated `argocd/<id>.yaml` (per-cluster pull: each cluster'' @ [CHR 0x27] @
        ''s Argo CD syncs its own `clusters/<id>` from the configured repo) '' @ [CHR 0xE2, CHR 0x80, CHR 0x94] @
        '' or directly with `kubectl apply -k clusters/<id>`. `argocd/<id>.yaml` is generated only when `cmd/gen -argo-repo-url` '' @
        ''is set.\<newline>'' @ ''- **Bare-metal:** no Argo '' @ [CHR 0xE2, CHR 0x80, CHR 0x94] @
        '' install the rendered `nats.conf` + systemd unit and apply the streams per the bare-metal steps above.\<newline>'') @
     ''\<newline>## Observability\<newline>\<newline>'' @
     ''NATS exposes metrics via the prometheus-nats-exporter (enable it in the NATS Helm release; it serves a `metrics` '' @
     ''port on the NATS Service). With the Prometheus Operator installed:\<newline>\<newline>'' @ ''- The generated `'' @
     rb_K8sResourceDir d @ ''servicemonitor.yaml` scrapes that `metrics` port; `'' @ rb_K8sResourceDir d @
     ''prometheusrule.yaml` ships starter NATS/JetStream alerts (`NatsServerDown`, `NatsSlowConsumers`, and `NatsLeafDown` '' @
     ''on regional clusters). Both carry `release: '' @ rb_PrometheusRelease d @ ''` for operator discovery '' @
     [CHR 0xE2, CHR 0x80, CHR 0x94] @ '' tune the alert exprs to your exporter version.\<newline>'' @
     ''- **Bare-metal:** NATS serves monitoring on `:8222`; scrape it via a separate exporter (not generated here).\<newline>'' @
     ''\<newline>## TLS / mTLS\<newline>\<newline>'' @
     ''All inter-tier links use mTLS. The CA and certificates are operator-provisioned (not generated here):\<newline>'' @
     ''\<newline>- **Kubernetes:** create the `'' @ rb_TLSIssuer d @ ''` ClusterIssuer (your CA '' @
     [CHR 0xE2, CHR 0x80, CHR 0x94] @ '' self-signed, Vault, or an intermediate). cert-manager issues each cluster'' @
     [CHR 0x27] @ ''s server cert into secret `<cluster>-nats-server-tls` from the generated `'' @ rb_K8sResourceDir d @
     ''certificate.yaml`; mount that secret into the NATS server pods and reference it in the server'' @ [CHR 0x27] @
     ''s TLS listeners.\<newline>'' @
     ''- **Bare-metal:** provision `/etc/vikasa/tls/{ca,leafnode-server-{cert,key},cluster-{cert,key},client-{cert,key}}.pem` '' @
     ''on each host (e.g. via vault-agent). The generated `nats.conf` already references these paths.\<newline>'' @
     ''- **Cabinet client certs:** `cmd/issue -cabinets` mints `ca/cabinet-ca.crt` (the cabinet client CA) and, per cabinet, '' @
     ''`cabinets/<district>/<id>.{crt,key,creds}`. Append `cabinet-ca.crt` to each server'' @ [CHR 0x27] @
     ''s trusted client-CA bundle (the `ca_file` the listeners reference) so cabinet client certs validate; deliver each '' @
     ''cabinet its own `.crt`/`.key`/`.creds`. The client and leafnode listeners use `verify` (the cabinet'' @
     [CHR 0x27] @ ''s identity is its user JWT, not the cert).\<newline>'' @
     ''- **Inventory token (External Secrets):** provision the `'' @ rb_SecretStore d @
     ''` ClusterSecretStore (your backend '' @ [CHR 0xE2, CHR 0x80, CHR 0x94] @ '' Vault, AWS/GCP SM, '' @
     [CHR 0xE2, CHR 0x80, CHR 0xA6] @ '') and populate `vikasa/'' @ rb_DOT d @ ''/infrahub-token`. The generated `'' @
     rb_K8sResourceDir d @
     ''externalsecret.yaml` materializes the `infrahub-token` Secret (key `token`); the poller reads it (env/mount) instead '' @
     ''of an inline token. Bare-metal/field cabinets pull the same backend value at imaging (sub-project E). No plaintext '' @
     ''token is generated.\<newline>\<newline>## Operations '' @ [CHR 0xE2, CHR 0x80, CHR 0x94] @
     '' HA, Retention & Scaling\<newline>\<newline>Day-2 operation of the `'' @ rb_DOT d @
     ''` topology. Placement is infra-side and mutable; identity (`vikasa.'' @ rb_DOT d @
     ''.<district>.>`) is stable '' @ [CHR 0xE2, CHR 0x80, CHR 0x94] @
     '' rehosting/rebalancing is transparent to central and DMZ (they subscribe by district token, never by cluster).\<newline>'' @
     ''\<newline>### High Availability\<newline>\<newline>'' @
     ''- Each cluster runs a **3-node R3 quorum** (JetStream RAFT) '' @ [CHR 0xE2, CHR 0x80, CHR 0x94] @
     '' tolerates the loss of **1 node**; RAFT caps JetStream at **3'' @ [CHR 0xE2, CHR 0x80, CHR 0x93] @
     ''5 nodes**, so scale by adding clusters, not nodes.\<newline>'' @
     ''- A district spans **multiple independent clusters** for fault isolation and independent upgrades. Central sources '' @
     ''each cluster'' @ [CHR 0x27] @
     ''s partition streams cross-domain (`$JS.<domain>.API`), so losing one cluster degrades **only its partitions**, '' @
     ''not the district.\<newline>- This deployment'' @ [CHR 0x27] @ ''s clusters:\<newline>'' @
     concat (map (\<lambda>c.
        ''  - `'' @ rc_ID c @ ''` ('' @ rc_SubstrateLabel c @ '') '' @ [CHR 0xE2, CHR 0x80, CHR 0x94] @
        '' 3-node R3 quorum\<newline>'') (rb_Clusters d)) @
     ''- Central aggregation cluster: `'' @ rb_CentralCluster d @
     ''`.\<newline>\<newline>### Retention\<newline>\<newline>'' @
     ''- Every stream is **bounded**: file storage with a `max_age` **and** a `max_bytes` cap (finding C2). The exact '' @
     ''values per stream are in each cluster'' @ [CHR 0x27] @ ''s generated `streams.yaml`.\<newline>'' @
     ''- Regional streams keep **short retention (hours)** '' @ [CHR 0xE2, CHR 0x80, CHR 0x94] @
     '' the recent past, not the archive; **central runs shorter still (minutes)** as an aggregation/routing tier. History '' @
     ''lives in **ClickHouse**. Perception volume is governed by the ingest envelope (see `docs/capacity-model.md`), not '' @
     ''a fixed multiplier.\<newline>'' @
     ''- **Node-level backstop (operator-set):** the generator bounds each *stream*, not the NATS *server'' @
     [CHR 0x27] @
     ''s* JetStream store. On k8s set `jetstream.max_file_store` in the NATS Helm values; on bare-metal it is in the generated '' @
     ''`nats.conf` (`max_file_store`).\<newline>'' @
     ''- To change retention: edit the spec, rerun `cmd/gen`, and apply (NACK reconciles, or `nats stream update`).\<newline>'' @
     ''\<newline>### Scaling\<newline>\<newline>'' @
     ''Scale levers, **in order** (reserve identity splits for org changes only):\<newline>\<newline>'' @
     ''1. **Vertical** '' @ [CHR 0xE2, CHR 0x80, CHR 0x94] @ '' bigger NVMe nodes first (bounded by the 3'' @
     [CHR 0xE2, CHR 0x80, CHR 0x93] @ ''5-node RAFT cap).\<newline>2. **Partition within the cluster** '' @
     [CHR 0xE2, CHR 0x80, CHR 0x94] @ '' K streams on the same 3 nodes.\<newline>'' @
     ''3. **Partition across an added cluster** '' @ [CHR 0xE2, CHR 0x80, CHR 0x94] @
     '' the district spans clusters.\<newline>'' @ ''4. **Split the district identity** '' @
     [CHR 0xE2, CHR 0x80, CHR 0x94] @ '' *only* for organizational reorgs, never for capacity.\<newline>\<newline>'' @
     ''**Shard, don'' @ [CHR 0x27] @
     ''t split:** assign partitions **explicitly** (by geography, in the spec/inventory), never by hashing '' @
     [CHR 0xE2, CHR 0x80, CHR 0x94] @ '' growth moves a *chosen* subset, never a hash-avalanche.\<newline>\<newline>'' @
     ''**Expansion = rerun:** edit the spec '' @ [CHR 0xE2, CHR 0x86, CHR 0x92] @ '' rerun `cmd/gen` '' @
     [CHR 0xE2, CHR 0x86, CHR 0x92] @
     '' review the generated `REBALANCE.md` (emitted with `-previous`) for the ordered move/rehost steps '' @
     [CHR 0xE2, CHR 0x86, CHR 0x92] @
     '' apply. Humans decide *when* (from the Observability alerts + monitoring); the generator computes the *how*. Exact '' @
     ''partition count **K** and node sizing come from a load test (no baseline yet '' @ [CHR 0xE2, CHR 0x80, CHR 0x94] @
     '' the capacity advisor is a deferred follow-on).\<newline>''\<close>

definition substrate_of :: "Topology \<Rightarrow> string \<Rightarrow> Substrate option" where
  \<comment> \<open>nil when the cluster or its substrate is\<close>
  "substrate_of t i = (case gm_ptr (t_Cluster t) i of None \<Rightarrow> None | Some c \<Rightarrow> c_Substrate c)"

definition has_type :: "Topology \<Rightarrow> SubstrateType \<Rightarrow> string \<Rightarrow> bool" where
  "has_type t ty i \<longleftrightarrow> (case substrate_of t i of None \<Rightarrow> False | Some s \<Rightarrow> sub_Type s = ty)"

definition deploymentMode :: "Topology \<Rightarrow> string" where
  "deploymentMode t =
     (let clusterIDs = sortedKeys (t_Cluster t);
          hasBare = list_ex (has_type t SubstrateBareMetal) clusterIDs;
          hasK8s = list_ex (has_type t SubstrateKubernetes) clusterIDs;
          k8sContexts = remdups (List.map_filter (\<lambda>i. case substrate_of t i of None \<Rightarrow> None | Some s \<Rightarrow> sub_Context s)
            (filter (has_type t SubstrateKubernetes) clusterIDs))
      in if hasBare \<and> hasK8s then ''mixed (Kubernetes + bare-metal)''
         else if hasBare then ''bare-metal''
         else if hasK8s \<and> length k8sContexts \<le> 1 then ''shared cluster (Kubernetes)''
         else if hasK8s then ''per-cluster (Kubernetes)''
         else ''unknown'')"

definition cluster_stream_names :: "Stream list \<Rightarrow> string list gomap" where
  "cluster_stream_names streams = foldl (\<lambda>m s. append_at (st_Cluster s) (st_Name s) m) [] streams"

definition cluster_row :: "string list gomap \<Rightarrow> Topology \<Rightarrow> string \<Rightarrow> clusterRow option" where
  "cluster_row names t i =
     (case gm_ptr (t_Cluster t) i of
        None \<Rightarrow> None
      | Some c \<Rightarrow> Some
          \<lparr>rc_ID = i,
           rc_SubstrateLabel =
             (if has_type t SubstrateKubernetes i then ''kubernetes''
              else if has_type t SubstrateBareMetal i then ''bare-metal'' else ''unknown''),
           rc_JsDomain = string_of (c_JsDomain c), rc_LeafEndpoint = string_of (c_LeafEndpoint c),
           rc_Streams = (case map_of names i of None \<Rightarrow> [] | Some ns \<Rightarrow> sort ns)\<rparr>)"

definition bare_metal_note :: "Topology \<Rightarrow> string \<Rightarrow> bareMetalNote option" where
  "bare_metal_note t i =
     (case substrate_of t i of
        None \<Rightarrow> None
      | Some s \<Rightarrow> if sub_Type s = SubstrateBareMetal then Some \<lparr>bn_ID = i, bn_Hosts = join '', '' (sub_Hosts s)\<rparr> else None)"

definition slice_dir :: "Topology \<Rightarrow> string \<Rightarrow> string \<Rightarrow> string" where
  \<comment> \<open>the closure \<^theory_text>\<open>sliceDir\<close>\<close>
  "slice_dir t output i = SliceDir i (has_type t SubstrateKubernetes i) output"

definition buildRunbookData :: "Plan \<Rightarrow> Root \<Rightarrow> Config \<Rightarrow> render_error + runbookData" where
  "buildRunbookData p root cfg =
     bindE (derefE root RunbookNilTopology) (\<lambda>t.
     let clusterIDs = sortedKeys (t_Cluster t);
         clusterStreams = cluster_stream_names (pl_Streams p);
         centralCluster = central_id t;
         cabinetCounts = map (\<lambda>s. \<lparr>cc_Stream = st_Name s, cc_Count = int (length (st_Sources s))\<rparr>)
           (filter (\<lambda>s. st_Tier s = TierRegional \<and> st_Sources s \<noteq> []) (pl_Streams p));
         dmzStream = map_option (\<lambda>s. \<lparr>ds_Name = st_Name s, ds_Cluster = st_Cluster s\<rparr>)
           (List.find (\<lambda>s. st_Tier s = TierDMZ) (pl_Streams p));
         helm = (cf_Output cfg = OutputHelm)
     in Inr
       \<lparr>rb_DOT = pl_DOT p, rb_DeploymentMode = deploymentMode t, rb_CentralCluster = centralCluster,
        rb_Clusters = List.map_filter (cluster_row clusterStreams t) clusterIDs,
        rb_BareMetalClusters = List.map_filter (bare_metal_note t) clusterIDs,
        rb_K8sClusters = list_ex (has_type t SubstrateKubernetes) clusterIDs, rb_DNS = pl_DNS p,
        rb_HasCabinets = (cabinetCounts \<noteq> []), rb_CabinetCounts = cabinetCounts,
        rb_TLSIssuer = cf_TLSIssuer cfg, rb_SecretStore = cf_SecretStore cfg,
        rb_PrometheusRelease = cf_PrometheusRelease cfg, rb_HasDMZ = (dmzStream \<noteq> None), rb_DMZStream = dmzStream,
        rb_Helm = helm, rb_CentralPath = slice_dir t (cf_Output cfg) centralCluster,
        rb_DMZPath = (case dmzStream of None \<Rightarrow> [] | Some z \<Rightarrow> slice_dir t (cf_Output cfg) (ds_Cluster z)),
        rb_K8sSliceDir = (if helm then ''charts/<id>/'' else ''clusters/<id>/''),
        rb_K8sResourceDir = (if helm then ''charts/<id>/templates/'' else ''clusters/<id>/'')\<rparr>)"

definition runbook_Render :: "Plan \<Rightarrow> Root \<Rightarrow> Config \<Rightarrow> render_error + string gomap" where
  "runbook_Render p root cfg =
     bindE (buildRunbookData p root cfg) (\<lambda>data. Inr [(''DEPLOYMENT-GUIDE.md'', runbookTmpl data)])"

end
