(* ===== verification/Cabinets.thy ===== *)
theory Cabinets
  imports Plan Fleet
begin

section \<open>Attaching cabinets to a plan\<close>

text \<open>
  File internal/plan/cabinets.go. AttachCabinets indexes the regional streams of the plan by name,
  as pointers into the stream slice, and appends one source per cabinet in place; an error in the
  middle leaves the sources appended so far. The pointers are indices into the list of streams, and
  the result pairs the mutated plan with the error, if any. MaxPartitionFanIn is the advisory
  fan-in report of cmd/gen.
\<close>

datatype attach_error =
    AttachNilPlan | InventoryDotMismatch string string | AttachNilTopology
  | PartitionIndexFailed topo_error
  | CabinetPartitionUndefined string string
  | CabinetNoStream string string string
  | CabinetFilterOutside string string string
  | AttachPanic

definition index_regional :: "Stream list \<Rightarrow> nat gomap" where
  "index_regional ss =
     fold (\<lambda>(i, s) m. if st_Tier s = TierRegional then AList.update (st_Name s) i m else m)
       (enumerate 0 ss) []"

definition buffer_source :: "Cabinet \<Rightarrow> Source" where
  "buffer_source c =
     \<lparr>so_Name = BufferStreamName, so_Domain = cab_ID c, so_FilterSubject = cab_Filter c,
      so_TransformSource = [], so_TransformDest = []\<rparr>"

definition cabinet_target ::
    "string \<Rightarrow> Topology \<Rightarrow> string gomap \<Rightarrow> nat gomap \<Rightarrow> Cabinet \<Rightarrow> attach_error + (string \<times> nat)" where
  \<comment> \<open>the checks of the loop body: the stream the cabinet's source is appended to\<close>
  "cabinet_target dot t partToDistrict streamByName c =
     bindE (derefE (map_of partToDistrict (cab_Partition c))
              (CabinetPartitionUndefined (cab_ID c) (cab_Partition c))) (\<lambda>distID.
     let name = PartitionStreamName dot distID (cab_Partition c) in
     bindE (derefE (map_of streamByName name) (CabinetNoStream (cab_ID c) name (cab_Partition c))) (\<lambda>i.
     if cab_Filter c = [] then Inr (name, i)
     else
       bindE (derefE (gm_ptr (t_District t) distID) AttachPanic) (\<lambda>d.
       case FilterUnderDistrict dot distID (di_SubjectPrefix d) (cab_Filter c) of
         (pfx, True) \<Rightarrow> Inr (name, i)
       | (pfx, False) \<Rightarrow> Inl (CabinetFilterOutside (cab_ID c) (cab_Filter c) pfx))))"

definition append_source :: "Stream list \<Rightarrow> nat \<Rightarrow> Source \<Rightarrow> Stream list" where
  \<comment> \<open>\<^theory_text>\<open>s.Sources = append(s.Sources, src)\<close> through the pointer\<close>
  "append_source ss i src = ss[i := (ss ! i)\<lparr>st_Sources := st_Sources (ss ! i) @ [src]\<rparr>]"

fun attach_loop ::
    "(Cabinet \<Rightarrow> attach_error + (string \<times> nat)) \<Rightarrow> Cabinet list \<Rightarrow> Stream list \<Rightarrow> nat gomap \<Rightarrow>
     Stream list \<times> nat gomap \<times> attach_error option" where
  "attach_loop target [] ss touched = (ss, touched, None)"
| "attach_loop target (c # cs) ss touched =
     (case target c of
        Inl e \<Rightarrow> (ss, touched, Some e)
      | Inr (name, i) \<Rightarrow>
          attach_loop target cs (append_source ss i (buffer_source c)) (AList.update name i touched))"

text \<open>
  \<open>sort.Slice\<close> by the domain may reorder equal domains and \<open>sort_key\<close> keeps them; they need two cabinets
  of one id in a stream, which \<open>LoadInventory\<close> refuses.
\<close>

definition sort_sources :: "nat gomap \<Rightarrow> Stream list \<Rightarrow> Stream list" where
  "sort_sources touched ss =
     fold (\<lambda>ki ss. ss[snd ki := (ss ! snd ki)\<lparr>st_Sources := sort_key so_Domain (st_Sources (ss ! snd ki))\<rparr>])
       touched ss"

definition AttachCabinets ::
    "Plan option \<Rightarrow> Inventory option \<Rightarrow> Root \<Rightarrow> Plan option \<times> attach_error option" where
  "AttachCabinets pp pinv root =
     (case pp of None \<Rightarrow> (None, Some AttachNilPlan)
      | Some p \<Rightarrow>
     (case pinv of None \<Rightarrow> (Some p, None)
      | Some iv \<Rightarrow>
     if inv_DOT iv \<noteq> pl_DOT p then (Some p, Some (InventoryDotMismatch (inv_DOT iv) (pl_DOT p)))
     else (case root of None \<Rightarrow> (Some p, Some AttachNilTopology)
      | Some t \<Rightarrow>
     (case PartitionIndex t of Inl e \<Rightarrow> (Some p, Some (PartitionIndexFailed e))
      | Inr partToDistrict \<Rightarrow>
     (case attach_loop
             (cabinet_target (pl_DOT p) t partToDistrict (index_regional (pl_Streams p)))
             (inv_Cabinets iv) (pl_Streams p) [] of
        (ss, touched, Some e) \<Rightarrow> (Some (p\<lparr>pl_Streams := ss\<rparr>), Some e)
      | (ss, touched, None) \<Rightarrow> (Some (p\<lparr>pl_Streams := sort_sources touched ss\<rparr>), None))))))"

fun fan_in_step :: "string \<times> nat \<Rightarrow> Stream \<Rightarrow> string \<times> nat" where
  "fan_in_step (stream, n) s =
     (if st_Tier s \<noteq> TierRegional then (stream, n)
      else if length (st_Sources s) > n \<or> length (st_Sources s) = n \<and> st_Name s < stream
      then (st_Name s, length (st_Sources s)) else (stream, n))"

definition MaxPartitionFanIn :: "Plan \<Rightarrow> string \<times> nat" where
  "MaxPartitionFanIn p = foldl fan_in_step ([], 0) (pl_Streams p)"

subsection \<open>In-place updates as one map over the streams\<close>

text \<open>
  Appending \<open>g i\<close> to the sources of the stream at index \<open>i\<close>, for all \<open>i\<close> at once; and sorting the
  sources of the streams at the indices \<open>I\<close>.
\<close>

definition add_sources :: "(nat \<Rightarrow> Source list) \<Rightarrow> Stream list \<Rightarrow> Stream list" where
  "add_sources g ss = map (\<lambda>(i, s). s\<lparr>st_Sources := st_Sources s @ g i\<rparr>) (enumerate 0 ss)"

lemma length_add_sources [simp]: "length (add_sources g ss) = length ss"
  by (simp add: add_sources_def)

lemma nth_add_sources:
  "i < length ss \<Longrightarrow> add_sources g ss ! i = (ss ! i)\<lparr>st_Sources := st_Sources (ss ! i) @ g i\<rparr>"
  by (simp add: add_sources_def nth_enumerate_eq)

lemma add_sources_nothing: "add_sources (\<lambda>_. []) ss = ss"
  by (rule nth_equalityI) (simp_all add: nth_add_sources)

lemma append_source_add:
  "i < length ss \<Longrightarrow> append_source ss i src = add_sources (\<lambda>j. if j = i then [src] else []) ss"
  by (rule nth_equalityI) (auto simp: append_source_def nth_add_sources nth_list_update)

lemma add_sources_add:
  "add_sources g (add_sources h ss) = add_sources (\<lambda>i. h i @ g i) ss"
  by (rule nth_equalityI) (simp_all add: nth_add_sources)

lemma add_sources_cong: "(\<And>i. g i = h i) \<Longrightarrow> add_sources g ss = add_sources h ss"
  by presburger

definition index_of :: "(Cabinet \<Rightarrow> attach_error + (string \<times> nat)) \<Rightarrow> Cabinet \<Rightarrow> nat option" where
  "index_of target c = (case target c of Inl _ \<Rightarrow> None | Inr ni \<Rightarrow> Some (snd ni))"

definition new_sources :: "(Cabinet \<Rightarrow> attach_error + (string \<times> nat)) \<Rightarrow> Cabinet list \<Rightarrow> nat \<Rightarrow> Source list" where
  "new_sources target cs i = map buffer_source (filter (\<lambda>c. index_of target c = Some i) cs)"

text \<open>The loop appends, in inventory order, and stops at the first cabinet that fails.\<close>

lemma attach_loop_ok:
  assumes "\<forall>c\<in>set cs. \<forall>n i. target c = Inr (n, i) \<longrightarrow> i < length ss"
    and "\<forall>c\<in>set cs. \<exists>ni. target c = Inr ni"
  shows "attach_loop target cs ss m = (add_sources (new_sources target cs) ss,
     fold (\<lambda>c. AList.update (fst (projr (target c))) (snd (projr (target c)))) cs m, None)"
  using assms
proof (induction cs arbitrary: ss m)
  case Nil
  then show ?case by (simp add: new_sources_def [abs_def] add_sources_nothing)
next
  case (Cons c cs)
  then obtain n i where c: "target c = Inr (n, i)" "i < length ss" by force
  have "add_sources (new_sources target cs) (append_source ss i (buffer_source c)) =
      add_sources (new_sources target (c # cs)) ss"
    unfolding append_source_add [OF c(2)] add_sources_add
    by (rule add_sources_cong) (simp add: new_sources_def index_of_def c)
  with Cons c show ?case by (simp add: append_source_def)
qed

lemma attach_loop_error:
  assumes "\<forall>c\<in>set cs. \<forall>n i. target c = Inr (n, i) \<longrightarrow> i < length ss"
  shows "(\<exists>ss' m'. attach_loop target cs ss m = (ss', m', Some e)) \<longleftrightarrow>
     (\<exists>ys c zs. cs = ys @ c # zs \<and> (\<forall>y\<in>set ys. \<exists>ni. target y = Inr ni) \<and> target c = Inl e)"
  using assms
proof (induction cs arbitrary: ss m)
  case (Cons c cs)
  show ?case
  proof (cases "target c")
    case (Inl e')
    have "(\<exists>ys c' zs. c # cs = ys @ c' # zs \<and> (\<forall>y\<in>set ys. \<exists>ni. target y = Inr ni) \<and> target c' = Inl e) \<longleftrightarrow> e' = e"
      (is "?L \<longleftrightarrow> _")
    proof
      assume ?L
      then obtain ys c' zs where *: "c # cs = ys @ c' # zs" "\<forall>y\<in>set ys. \<exists>ni. target y = Inr ni" "target c' = Inl e"
        by blast
      with Inl have "ys = []" by (cases ys) auto
      with * Inl show "e' = e" by simp
    next
      assume "e' = e"
      with Inl show ?L by (intro exI [of _ "[]"]) auto
    qed
    with Inl show ?thesis by auto
  next
    case (Inr ni)
    obtain n i where ni: "ni = (n, i)" by (cases ni)
    have "(\<exists>ss' m'. attach_loop target (c # cs) ss m = (ss', m', Some e)) \<longleftrightarrow>
        (\<exists>ys c' zs. cs = ys @ c' # zs \<and> (\<forall>y\<in>set ys. \<exists>ni. target y = Inr ni) \<and> target c' = Inl e)"
      using Cons Inr ni by (simp add: append_source_def)
    also have "\<dots> \<longleftrightarrow> (\<exists>ys c' zs. c # cs = ys @ c' # zs \<and> (\<forall>y\<in>set ys. \<exists>ni. target y = Inr ni) \<and> target c' = Inl e)"
      (is "?L \<longleftrightarrow> ?R")
    proof
      assume ?L
      then obtain ys c' zs where "cs = ys @ c' # zs" "\<forall>y\<in>set ys. \<exists>ni. target y = Inr ni" "target c' = Inl e"
        by blast
      with Inr show ?R by (intro exI [of _ "c # ys"]) auto
    next
      assume ?R
      then obtain ys c' zs where *: "c # cs = ys @ c' # zs" "\<forall>y\<in>set ys. \<exists>ni. target y = Inr ni" "target c' = Inl e"
        by blast
      with Inr obtain ys' where "ys = c # ys'" by (cases ys) auto
      with * show ?L by auto
    qed
    finally show ?thesis .
  qed
qed simp

definition sort_at :: "nat set \<Rightarrow> Stream list \<Rightarrow> Stream list" where
  "sort_at I ss = map (\<lambda>(i, s). if i \<in> I then s\<lparr>st_Sources := sort_key so_Domain (st_Sources s)\<rparr> else s)
     (enumerate 0 ss)"

lemma nth_sort_at: "i < length ss \<Longrightarrow> sort_at I ss ! i =
     (if i \<in> I then (ss ! i)\<lparr>st_Sources := sort_key so_Domain (st_Sources (ss ! i))\<rparr> else ss ! i)"
  by (simp add: sort_at_def nth_enumerate_eq)

lemma length_sort_at [simp]: "length (sort_at I ss) = length ss"
  by (simp add: sort_at_def)

text \<open>
  Sorting the touched streams through their pointers, in any order and with repetitions, sorts
  exactly the streams pointed at.
\<close>

lemma sort_sources_at:
  "\<forall>i\<in>snd ` set m. i < length ss \<Longrightarrow> sort_sources m ss = sort_at (snd ` set m) ss"
proof (induction m arbitrary: ss)
  case Nil
  show ?case by (rule nth_equalityI) (simp_all add: sort_sources_def nth_sort_at)
next
  case (Cons ki m)
  let ?i = "snd ki"
  let ?ss = "ss[?i := (ss ! ?i)\<lparr>st_Sources := sort_key so_Domain (st_Sources (ss ! ?i))\<rparr>]"
  have i: "?i < length ss" using Cons.prems by simp
  have "sort_sources (ki # m) ss = sort_sources m ?ss" by (simp add: sort_sources_def)
  also have "\<dots> = sort_at (snd ` set m) ?ss" using Cons.prems by (intro Cons.IH) simp
  also have "\<dots> = sort_at (snd ` set (ki # m)) ss"
  proof (rule nth_equalityI)
    fix j assume "j < length (sort_at (snd ` set m) ?ss)"
    then show "sort_at (snd ` set m) ?ss ! j = sort_at (snd ` set (ki # m)) ss ! j"
      by (cases "j = ?i") (simp_all add: nth_sort_at sort_key_id_if_sorted)
  qed simp
  finally show ?case .
qed

text \<open>The touched streams are those that got a source.\<close>

lemma touched_indices:
  assumes "\<forall>c\<in>set cs. \<exists>n i. target c = Inr (n, i) \<and> idx n = Some i"
    and "distinct (map fst m)" and "\<forall>(n, i)\<in>set m. idx n = Some i"
  shows "snd ` set (fold (\<lambda>c. AList.update (fst (projr (target c))) (snd (projr (target c)))) cs m) =
     snd ` set m \<union> {i. new_sources target cs i \<noteq> []}"
  using assms
proof (induction cs arbitrary: m)
  case Nil
  then show ?case by (simp add: new_sources_def)
next
  case (Cons c cs)
  then obtain n i where c: "target c = Inr (n, i)" "idx n = Some i" by force
  let ?m = "AList.update n i m"
  have d: "distinct (map fst ?m)" using Cons.prems(2) by (rule distinct_update)
  have mem: "(k, v) \<in> set ?m \<longleftrightarrow> (if k = n then v = i else (k, v) \<in> set m)" for k v
    unfolding map_of_eq_Some_iff [OF d, symmetric] map_of_eq_Some_iff [OF Cons.prems(2), symmetric]
    by (auto simp: update_conv')
  have "\<forall>(k, v)\<in>set ?m. idx k = Some v" using Cons.prems(3) c by (auto simp: mem split: if_splits)
  moreover have "snd ` set ?m = insert i (snd ` set m)"
  proof (intro equalityI subsetI)
    fix v assume "v \<in> insert i (snd ` set m)"
    then show "v \<in> snd ` set ?m"
    proof
      assume "v = i"
      then have "(n, v) \<in> set ?m" by (simp add: mem)
      then show ?thesis by force
    next
      assume "v \<in> snd ` set m"
      then obtain k where k: "(k, v) \<in> set m" by auto
      then have "(k, v) \<in> set ?m" using Cons.prems(3) c by (auto simp: mem)
      then show ?thesis by force
    qed
  qed (auto simp: mem split: if_splits)
  moreover have "{j. new_sources target (c # cs) j \<noteq> []} = insert i {j. new_sources target cs j \<noteq> []}"
    by (auto simp: new_sources_def index_of_def c)
  ultimately show ?case using Cons.IH [of ?m] Cons.prems d c by simp
qed

subsection \<open>What a cabinet needs, and what attaching does\<close>

definition regional_names :: "Stream list \<Rightarrow> string list" where
  "regional_names ss = map st_Name (filter (\<lambda>s. st_Tier s = TierRegional) ss)"

lemma index_regional_append:
  "index_regional (ss @ [s]) = (if st_Tier s = TierRegional
     then AList.update (st_Name s) (length ss) (index_regional ss) else index_regional ss)"
  by (simp add: index_regional_def enumerate_append_eq)

text \<open>The pointer index: each regional name points at its stream.\<close>

lemma index_regional_get:
  "distinct (regional_names ss) \<Longrightarrow> map_of (index_regional ss) n = Some i \<longleftrightarrow>
     i < length ss \<and> st_Tier (ss ! i) = TierRegional \<and> st_Name (ss ! i) = n"
proof (induction ss rule: rev_induct)
  case Nil
  then show ?case by (simp add: index_regional_def)
next
  case (snoc s ss)
  then have IH: "map_of (index_regional ss) n = Some i \<longleftrightarrow>
      i < length ss \<and> st_Tier (ss ! i) = TierRegional \<and> st_Name (ss ! i) = n"
    by (simp add: regional_names_def split: if_splits)
  have fresh: "st_Name (ss ! i) \<noteq> st_Name s"
    if "st_Tier s = TierRegional" "i < length ss" "st_Tier (ss ! i) = TierRegional"
  proof
    assume "st_Name (ss ! i) = st_Name s"
    moreover have "ss ! i \<in> {x \<in> set ss. st_Tier x = TierRegional}" using that by simp
    ultimately have "st_Name s \<in> st_Name ` {x \<in> set ss. st_Tier x = TierRegional}" by (metis imageI)
    then show False using snoc.prems that(1) by (simp add: regional_names_def)
  qed
  show ?case
    using fresh by (auto simp: index_regional_append update_conv' IH nth_append less_Suc_eq split: if_splits)
qed

definition attachable :: "Plan \<Rightarrow> Topology \<Rightarrow> Cabinet \<Rightarrow> bool" where
  "attachable p t c \<longleftrightarrow>
     (\<exists>d. owns t d (cab_Partition c) \<and>
        PartitionStreamName (pl_DOT p) d (cab_Partition c) \<in> set (regional_names (pl_Streams p)) \<and>
        (cab_Filter c \<noteq> [] \<longrightarrow> covers (pl_DOT p) t d (cab_Filter c)))"

definition sources_for :: "string \<Rightarrow> Topology \<Rightarrow> Cabinet list \<Rightarrow> string \<Rightarrow> Source list" where
  "sources_for dot t cs n =
     map buffer_source (filter (\<lambda>c. \<exists>d. owns t d (cab_Partition c) \<and> n = PartitionStreamName dot d (cab_Partition c)) cs)"

definition attached :: "string \<Rightarrow> Topology \<Rightarrow> Cabinet list \<Rightarrow> Stream \<Rightarrow> Stream" where
  "attached dot t cs s =
     (if st_Tier s = TierRegional \<and> sources_for dot t cs (st_Name s) \<noteq> []
      then s\<lparr>st_Sources := sort_key so_Domain (st_Sources s @ sources_for dot t cs (st_Name s))\<rparr> else s)"

lemma cabinet_target_iff:
  "cabinet_target dot t idx sbn c = Inr (n, i) \<longleftrightarrow>
     (\<exists>d. map_of idx (cab_Partition c) = Some d \<and> n = PartitionStreamName dot d (cab_Partition c) \<and>
        map_of sbn n = Some i \<and> (cab_Filter c \<noteq> [] \<longrightarrow> covers dot t d (cab_Filter c)))"
  by (cases "cab_Filter c = []")
     (auto simp: cabinet_target_def Let_def covers_def FilterUnderDistrict_def split: bool.splits)

lemma owner_unique: "PartitionIndex t = Inr idx \<Longrightarrow> go_maps t \<Longrightarrow> owns t d k \<Longrightarrow> owns t d' k \<Longrightarrow> d = d'"
  using PartitionIndex_lookup by (metis option.inject)

lemma target_iff:
  assumes "go_maps t" and "PartitionIndex t = Inr idx" and "distinct (regional_names (pl_Streams p))"
  shows "cabinet_target (pl_DOT p) t idx (index_regional (pl_Streams p)) c = Inr (n, i) \<longleftrightarrow>
     (\<exists>d. owns t d (cab_Partition c) \<and> n = PartitionStreamName (pl_DOT p) d (cab_Partition c) \<and>
        i < length (pl_Streams p) \<and> st_Tier (pl_Streams p ! i) = TierRegional \<and> st_Name (pl_Streams p ! i) = n \<and>
        (cab_Filter c \<noteq> [] \<longrightarrow> covers (pl_DOT p) t d (cab_Filter c)))"
  unfolding cabinet_target_iff index_regional_get [OF assms(3)] PartitionIndex_lookup [OF assms(1,2)] by blast

lemma attachable_iff:
  assumes "go_maps t" and "PartitionIndex t = Inr idx" and "distinct (regional_names (pl_Streams p))"
  shows "attachable p t c \<longleftrightarrow>
     (\<exists>ni. cabinet_target (pl_DOT p) t idx (index_regional (pl_Streams p)) c = Inr ni)"
  by (force simp: attachable_def target_iff [OF assms] regional_names_def in_set_conv_nth)

text \<open>
  The contract of the loop: with unique regional names, all cabinets attachable, the imperative
  update of the stream slice is the pure function \<open>attached\<close> on every stream.
\<close>

lemma attach_streams:
  assumes "go_maps t" and "PartitionIndex t = Inr idx" and "distinct (regional_names (pl_Streams p))"
    and "\<forall>c\<in>set cs. attachable p t c"
  shows "\<exists>ss m. attach_loop (cabinet_target (pl_DOT p) t idx (index_regional (pl_Streams p))) cs (pl_Streams p) [] =
      (ss, m, None) \<and> sort_sources m ss = map (attached (pl_DOT p) t cs) (pl_Streams p)"
proof -
  let ?target = "cabinet_target (pl_DOT p) t idx (index_regional (pl_Streams p))"
  let ?ss = "pl_Streams p" and ?new = "new_sources (cabinet_target (pl_DOT p) t idx (index_regional (pl_Streams p))) cs"
  note target = target_iff [OF assms(1-3)]
  have ok: "\<forall>c\<in>set cs. \<exists>ni. ?target c = Inr ni" using assms(4) attachable_iff [OF assms(1-3)] by blast
  have bound: "\<forall>c\<in>set cs. \<forall>n i. ?target c = Inr (n, i) \<longrightarrow> i < length ?ss" using target by blast
  have new: "?new i = (if st_Tier (?ss ! i) = TierRegional then sources_for (pl_DOT p) t cs (st_Name (?ss ! i)) else [])"
    if i: "i < length ?ss" for i
  proof -
    have "index_of ?target c = Some i \<longleftrightarrow> st_Tier (?ss ! i) = TierRegional \<and>
        (\<exists>d. owns t d (cab_Partition c) \<and> st_Name (?ss ! i) = PartitionStreamName (pl_DOT p) d (cab_Partition c))"
      if "c \<in> set cs" for c
    proof -
      from that ok obtain n j where c: "?target c = Inr (n, j)" by force
      then obtain d where d: "owns t d (cab_Partition c)" "n = PartitionStreamName (pl_DOT p) d (cab_Partition c)"
        "st_Name (?ss ! j) = n" "j < length ?ss" "st_Tier (?ss ! j) = TierRegional"
        "cab_Filter c \<noteq> [] \<longrightarrow> covers (pl_DOT p) t d (cab_Filter c)" unfolding target by blast
      have "index_of ?target c = Some i \<longleftrightarrow> ?target c = Inr (n, i)" using c by (auto simp: index_of_def)
      also have "\<dots> \<longleftrightarrow> st_Tier (?ss ! i) = TierRegional \<and> st_Name (?ss ! i) = n"
        using d i unfolding target by auto
      also have "\<dots> \<longleftrightarrow> st_Tier (?ss ! i) = TierRegional \<and>
          (\<exists>d. owns t d (cab_Partition c) \<and> st_Name (?ss ! i) = PartitionStreamName (pl_DOT p) d (cab_Partition c))"
        using d owner_unique [OF assms(2,1)] by metis
      finally show ?thesis .
    qed
    then show ?thesis
      by (auto simp: new_sources_def sources_for_def intro!: arg_cong [where f = "map buffer_source"] filter_cong)
  qed
  obtain m where m: "attach_loop ?target cs ?ss [] = (add_sources ?new ?ss, m, None)"
    and mset: "m = fold (\<lambda>c. AList.update (fst (projr (?target c))) (snd (projr (?target c)))) cs []"
    using attach_loop_ok [OF bound ok] by blast
  have idx: "\<forall>c\<in>set cs. \<exists>n i. ?target c = Inr (n, i) \<and> map_of (index_regional ?ss) n = Some i"
    using ok by (force simp: cabinet_target_iff)
  have touched: "snd ` set m = {i. ?new i \<noteq> []}"
    using touched_indices [OF idx, of "[]"] by (simp add: mset)
  have small: "\<forall>i\<in>snd ` set m. i < length (add_sources ?new ?ss)"
    using bound ok by (auto simp: touched new_sources_def index_of_def filter_empty_conv split: sum.splits)
  have "sort_sources m (add_sources ?new ?ss) = map (attached (pl_DOT p) t cs) ?ss"
    unfolding sort_sources_at [OF small] touched
    by (rule nth_equalityI) (auto simp: nth_sort_at nth_add_sources attached_def new)
  with m show ?thesis by blast
qed

lemma AttachCabinets_ok_iff:
  assumes "go_maps t" and "PartitionIndex t = Inr idx" and "distinct (regional_names (pl_Streams p))"
    and "inv_DOT iv = pl_DOT p"
  shows "AttachCabinets (Some p) (Some iv) (Some t) = (r, None) \<longleftrightarrow>
     (\<forall>c\<in>set (inv_Cabinets iv). attachable p t c) \<and>
     r = Some (p\<lparr>pl_Streams := map (attached (pl_DOT p) t (inv_Cabinets iv)) (pl_Streams p)\<rparr>)"
proof -
  let ?target = "cabinet_target (pl_DOT p) t idx (index_regional (pl_Streams p))"
  let ?loop = "attach_loop ?target (inv_Cabinets iv) (pl_Streams p) []"
  show ?thesis
  proof (cases "\<forall>c\<in>set (inv_Cabinets iv). attachable p t c")
    case True
    from attach_streams [OF assms(1-3) True] obtain ss m where "?loop = (ss, m, None)"
      "sort_sources m ss = map (attached (pl_DOT p) t (inv_Cabinets iv)) (pl_Streams p)" by blast
    with True assms(2,4) show ?thesis by (auto simp: AttachCabinets_def)
  next
    case False
    have "\<exists>e. snd (snd ?loop) = Some e"
    proof (rule ccontr)
      assume none: "\<nexists>e. snd (snd ?loop) = Some e"
      have "\<forall>c\<in>set cs. \<exists>ni. ?target c = Inr ni" if "snd (snd (attach_loop ?target cs ss m)) = None" for cs ss m
        using that by (induction cs arbitrary: ss m) (auto split: sum.splits prod.splits)
      with none False attachable_iff [OF assms(1-3)] show False by force
    qed
    with False assms(2,4) show ?thesis by (cases ?loop) (auto simp: AttachCabinets_def)
  qed
qed

lemma Build_regional_names:
  assumes "Build (Some t) = Inr p"
  shows "distinct (regional_names (pl_Streams p))"
    and "s \<in> set (pl_Streams p) \<Longrightarrow> st_Tier s = TierRegional \<Longrightarrow> st_Sources s = []"
proof -
  from assms obtain dot ce cc where p: "p = plan_of dot t ce cc"
    and d: "distinct (map pe_stream (parts_of dot t))" by (auto simp: Build_iff plannable_def)
  have f: "filter (\<lambda>s. st_Tier s = TierRegional) (plan_streams dot t ce cc) = map (regional_of t) (parts_of dot t)"
    by (auto simp: plan_streams_def filter_empty_conv dmz_streams_def split: option.splits)
  have "mset (filter (\<lambda>s. st_Tier s = TierRegional) (pl_Streams p)) =
      mset (filter (\<lambda>s. st_Tier s = TierRegional) (plan_streams dot t ce cc))"
    by (simp add: p plan_of_def)
  then have m: "mset (regional_names (pl_Streams p)) = mset (map pe_stream (parts_of dot t))"
    unfolding f by (simp add: regional_names_def mset_map image_mset.compositionality comp_def)
  show "distinct (regional_names (pl_Streams p))" using d mset_eq_imp_distinct_iff [OF m] by blast
  show "st_Sources s = []" if "s \<in> set (pl_Streams p)" "st_Tier s = TierRegional"
    using that by (auto simp: p plan_of_def plan_streams_def regional_of_def regional_stream_def
        dest: dmz_streams_tier)
qed

lemma attached_permuted:
  assumes "mset cs = mset cs'" and "distinct (map cab_ID cs)" and "st_Tier s = TierRegional \<longrightarrow> st_Sources s = []"
  shows "attached dot t cs' s = attached dot t cs s"
proof -
  have m: "mset (sources_for dot t cs n) = mset (sources_for dot t cs' n)" for n
    using assms(1) by (simp add: sources_for_def)
  have "map so_Domain (sources_for dot t cs n) = map cab_ID (filter (\<lambda>c. \<exists>d. owns t d (cab_Partition c) \<and>
      n = PartitionStreamName dot d (cab_Partition c)) cs)" for n
    by (simp add: sources_for_def buffer_source_def)
  then have "distinct (map so_Domain (sources_for dot t cs n))" for n
    using assms(2) by (simp add: distinct_map_filter)
  then have "sort_key so_Domain (sources_for dot t cs' n) = sort_key so_Domain (sources_for dot t cs n)" for n
    using sk.srt_cong [OF m] by metis
  moreover have "sources_for dot t cs' n = [] \<longleftrightarrow> sources_for dot t cs n = []" for n
    using m [of n] by (metis mset_zero_iff)
  ultimately show ?thesis using assms(3) by (simp add: attached_def)
qed

subsection \<open>Properties\<close>

text \<open>
  C15. Attaching cabinets, as a contract: on a plan with unique regional stream names, the in-place
  update through the pointer index succeeds exactly when every cabinet names a partition of the
  topology that has a regional stream and its filter, if any, lies in that partition's district;
  and then it is the pure update of each regional stream with one source per cabinet of its
  partition, ordered by domain, and changes nothing else.
\<close>

theorem AttachCabinets_refines:
  assumes "go_maps t" and "PartitionIndex t = Inr idx" and "distinct (regional_names (pl_Streams p))"
    and "inv_DOT iv = pl_DOT p"
  shows "AttachCabinets (Some p) (Some iv) (Some t) = (r, None) \<longleftrightarrow>
     (\<forall>c\<in>set (inv_Cabinets iv). attachable p t c) \<and>
     r = Some (p\<lparr>pl_Streams := map (attached (pl_DOT p) t (inv_Cabinets iv)) (pl_Streams p)\<rparr>)"
  using assms by (rule AttachCabinets_ok_iff)

text \<open>
  C14. Cabinet confinement: when cabinets have been attached, every concrete subject that the
  filter of a cabinet selects lies in the subject space of the district that holds the cabinet's
  partition, so no cabinet can feed another district's data into the hierarchy.
\<close>

theorem AttachCabinets_confined:
  assumes "AttachCabinets (Some p) (Some iv) (Some t) = (Some p', None)" and "go_maps t"
    and "c \<in> set (inv_Cabinets iv)" and "cab_Filter c \<noteq> []" and "nats_match (tokens (cab_Filter c)) ts"
  shows "\<exists>d di. owns t d (cab_Partition c) \<and> gm_ptr (t_District t) d = Some di \<and>
     nats_match (tokens (SubjectSpace (pl_DOT p) d (di_SubjectPrefix di))) ts"
proof -
  from assms(1) obtain idx where idx: "PartitionIndex t = Inr idx"
    by (auto simp: AttachCabinets_def split: if_splits sum.splits)
  let ?target = "cabinet_target (pl_DOT p) t idx (index_regional (pl_Streams p))"
  have ok: "\<forall>c\<in>set cs. \<exists>ni. ?target c = Inr ni" if "snd (snd (attach_loop ?target cs ss m)) = None" for cs ss m
    using that by (induction cs arbitrary: ss m) (auto split: sum.splits prod.splits)
  have "snd (snd (attach_loop ?target (inv_Cabinets iv) (pl_Streams p) [])) = None"
    using assms(1) idx by (auto simp: AttachCabinets_def split: if_splits prod.splits option.splits)
  with assms(3) obtain n i where "?target c = Inr (n, i)" using ok by force
  with assms(4) obtain d where d: "map_of idx (cab_Partition c) = Some d" "covers (pl_DOT p) t d (cab_Filter c)"
    unfolding cabinet_target_iff by blast
  then obtain di where di: "gm_ptr (t_District t) d = Some di"
    "UnderPrefix (cab_Filter c) (SubjectSpace (pl_DOT p) d (di_SubjectPrefix di))" by (auto simp: covers_def)
  have "nats_match (tokens (SubjectSpace (pl_DOT p) d (di_SubjectPrefix di))) ts"
    using bd.grants_confined [of "[cab_Filter c]" _ ts] di(2) assms(5) by simp
  with d di PartitionIndex_lookup [OF assms(2) idx] show ?thesis by blast
qed

text \<open>
  Order of the inventory: for a plan that Build returned and an inventory with distinct cabinet
  ids, listing the cabinets in another order attaches the same sources in the same order.
\<close>

theorem AttachCabinets_order_independent:
  assumes "Build (Some t) = Inr p" and "go_maps t" and "wf_inventory iv"
    and "inv_DOT iv' = inv_DOT iv" and "mset (inv_Cabinets iv) = mset (inv_Cabinets iv')"
  shows "AttachCabinets (Some p) (Some iv) (Some t) = (r, None) \<longleftrightarrow>
     AttachCabinets (Some p) (Some iv') (Some t) = (r, None)"
proof (cases "inv_DOT iv = pl_DOT p \<and> (\<exists>idx. PartitionIndex t = Inr idx)")
  case True
  then obtain idx where *: "inv_DOT iv = pl_DOT p" "inv_DOT iv' = pl_DOT p" "PartitionIndex t = Inr idx"
    using assms(4) by auto
  note iff = AttachCabinets_ok_iff [OF assms(2) *(3) Build_regional_names(1) [OF assms(1)]]
  have "attached (pl_DOT p) t (inv_Cabinets iv') s = attached (pl_DOT p) t (inv_Cabinets iv) s"
    if "s \<in> set (pl_Streams p)" for s
    using that assms(3,5) Build_regional_names(2) [OF assms(1) that]
    by (intro attached_permuted) (auto simp: wf_inventory_def)
  then have eq: "map (attached (pl_DOT p) t (inv_Cabinets iv')) (pl_Streams p) =
      map (attached (pl_DOT p) t (inv_Cabinets iv)) (pl_Streams p)" by (intro map_cong refl)
  show ?thesis
    unfolding iff [OF *(1)] iff [OF *(2)] mset_eq_setD [OF assms(5)] eq ..
next
  case False
  with assms(4) show ?thesis by (auto simp: AttachCabinets_def split: sum.splits)
qed

text \<open>
  Errors of attaching: a run that fails past its preliminary checks fails at the first
  cabinet that cannot be attached, with the error naming that cabinet's missing partition, missing
  stream or stray filter; the nil district of a lookup is never dereferenced.
\<close>

theorem AttachCabinets_first_error:
  assumes "go_maps t" and "PartitionIndex t = Inr idx" and "distinct (regional_names (pl_Streams p))"
    and "inv_DOT iv = pl_DOT p" and "AttachCabinets (Some p) (Some iv) (Some t) = (r, Some e)"
  shows "\<exists>ys c zs. inv_Cabinets iv = ys @ c # zs \<and> (\<forall>y\<in>set ys. attachable p t y) \<and> \<not> attachable p t c \<and>
     (e = CabinetPartitionUndefined (cab_ID c) (cab_Partition c) \<or>
      (\<exists>n. e = CabinetNoStream (cab_ID c) n (cab_Partition c)) \<or>
      (\<exists>sp. e = CabinetFilterOutside (cab_ID c) (cab_Filter c) sp))"
proof -
  let ?target = "cabinet_target (pl_DOT p) t idx (index_regional (pl_Streams p))"
  have bound: "\<forall>c\<in>set (inv_Cabinets iv). \<forall>n i. ?target c = Inr (n, i) \<longrightarrow> i < length (pl_Streams p)"
    using target_iff [OF assms(1-3)] by blast
  have "\<exists>ss m. attach_loop ?target (inv_Cabinets iv) (pl_Streams p) [] = (ss, m, Some e)"
    using assms(2,4,5) by (auto simp: AttachCabinets_def split: prod.splits option.splits)
  then obtain ys c zs where c: "inv_Cabinets iv = ys @ c # zs" "\<forall>y\<in>set ys. \<exists>ni. ?target y = Inr ni"
    "?target c = Inl e" unfolding attach_loop_error [OF bound] by blast
  have "owns t d k \<Longrightarrow> gm_ptr (t_District t) d \<noteq> None" for d k
    using assms(1) by (auto simp: owns_def go_maps_def gm_ptr_member)
  with c(3) have "e = CabinetPartitionUndefined (cab_ID c) (cab_Partition c) \<or>
      (\<exists>n. e = CabinetNoStream (cab_ID c) n (cab_Partition c)) \<or>
      (\<exists>sp. e = CabinetFilterOutside (cab_ID c) (cab_Filter c) sp)"
    by (auto simp: cabinet_target_def bindE_eq_Inl Let_def PartitionIndex_lookup [OF assms(1,2)]
        FilterUnderDistrict_def split: if_splits bool.splits)
  moreover have "\<forall>y\<in>set ys. attachable p t y" "\<not> attachable p t c"
    using c(2,3) by (auto simp: attachable_iff [OF assms(1-3)])
  ultimately show ?thesis using c(1) by blast
qed

text \<open>
  The fan-in report: the count is the largest number of sources of a regional stream, and
  when it is positive the name is the least among the regional streams that have that many. When no
  regional stream has a source the report is the empty name and 0.
\<close>

theorem MaxPartitionFanIn_correct:
  assumes "MaxPartitionFanIn p = (n, k)"
  shows "(\<forall>s\<in>set (pl_Streams p). st_Tier s = TierRegional \<longrightarrow> length (st_Sources s) \<le> k) \<and>
    (if k = 0 then n = []
     else (\<exists>s\<in>set (pl_Streams p). st_Tier s = TierRegional \<and> st_Name s = n \<and> length (st_Sources s) = k) \<and>
       (\<forall>s\<in>set (pl_Streams p). st_Tier s = TierRegional \<and> length (st_Sources s) = k \<longrightarrow> n \<le> st_Name s))"
proof -
  have "case foldl fan_in_step ([], 0) ss of (n, k) \<Rightarrow>
      (\<forall>s\<in>set ss. st_Tier s = TierRegional \<longrightarrow> length (st_Sources s) \<le> k) \<and>
      (if k = 0 then n = []
       else (\<exists>s\<in>set ss. st_Tier s = TierRegional \<and> st_Name s = n \<and> length (st_Sources s) = k) \<and>
         (\<forall>s\<in>set ss. st_Tier s = TierRegional \<and> length (st_Sources s) = k \<longrightarrow> n \<le> st_Name s))" for ss
  proof (induction ss rule: rev_induct)
    case (snoc s ss)
    obtain m j where mj: "foldl fan_in_step ([], 0) ss = (m, j)" by fastforce
    show ?case
    proof (cases "st_Tier s = TierRegional")
      case True
      consider "length (st_Sources s) > j" | "length (st_Sources s) = j" "st_Name s < m"
        | "length (st_Sources s) \<le> j" "\<not> (length (st_Sources s) = j \<and> st_Name s < m)" by linarith
      then show ?thesis
        using snoc True by cases (fastforce simp: mj not_less split: if_splits)+
    qed (use snoc in \<open>auto simp: mj split: if_splits\<close>)
  qed simp
  from this [of "pl_Streams p"] assms show ?thesis by (simp add: MaxPartitionFanIn_def)
qed

subsection \<open>Witnesses\<close>

definition ex_attached :: Plan where
  "ex_attached = the (fst (AttachCabinets (Some ex_plan) (Some ex_inventory) (Some ex_topology)))"

lemma ex_attach: "AttachCabinets (Some ex_plan) (Some ex_inventory) (Some ex_topology) = (Some ex_attached, None)"
proof -
  have "snd (AttachCabinets (Some ex_plan) (Some ex_inventory) (Some ex_topology)) = None"
    "fst (AttachCabinets (Some ex_plan) (Some ex_inventory) (Some ex_topology)) \<noteq> None"
    by code_simp+
  then show ?thesis by (auto simp: ex_attached_def prod_eq_iff)
qed

lemma ex_index: "PartitionIndex ex_topology = Inr [(''d7/0'', ''d7''), (''d7/1'', ''d7'')]"
  by code_simp

lemma ex_dot: "inv_DOT ex_inventory = pl_DOT ex_plan"
  by (simp add: ex_inventory_def ex_plan_def)

theorem AttachCabinets_refines_witness: "list_all (attachable ex_plan ex_topology) (inv_Cabinets ex_inventory)"
  using AttachCabinets_refines [OF ex_maps ex_index Build_regional_names(1) [OF ex_build] ex_dot, THEN iffD1, OF ex_attach]
  by (simp add: list_all_iff)

theorem AttachCabinets_confined_witness:
  "\<exists>d di. owns ex_topology d ''d7/0'' \<and> gm_ptr (t_District ex_topology) d = Some di \<and>
     nats_match (tokens (SubjectSpace ''exdot'' d (di_SubjectPrefix di))) [''vikasa'', ''exdot'', ''d7'', ''a'', ''speed'']"
  using AttachCabinets_confined [OF ex_attach ex_maps, of "inv_Cabinets ex_inventory ! 0"
      "[''vikasa'', ''exdot'', ''d7'', ''a'', ''speed'']"]
  by (simp add: ex_inventory_def tokens_def ex_plan_def)

theorem AttachCabinets_order_independent_witness:
  "AttachCabinets (Some ex_plan) (Some (ex_inventory\<lparr>inv_Cabinets := rev (inv_Cabinets ex_inventory)\<rparr>)) (Some ex_topology) =
     (Some ex_attached, None)"
  by (rule AttachCabinets_order_independent [OF ex_build ex_maps ex_inventory_wf, THEN iffD1, OF _ _ ex_attach]) simp_all

definition ex_stray_inventory :: Inventory where
  "ex_stray_inventory = ex_inventory\<lparr>inv_Cabinets := inv_Cabinets ex_inventory @
     [\<lparr>cab_ID = ''c9'', cab_Partition = ''d7/0'', cab_Filter = ''vikasa.exdot.d70.>''\<rparr>]\<rparr>"

theorem AttachCabinets_first_error_witness:
  "\<exists>r e c. AttachCabinets (Some ex_plan) (Some ex_stray_inventory) (Some ex_topology) = (r, Some e) \<and>
     c \<in> set (inv_Cabinets ex_stray_inventory) \<and> \<not> attachable ex_plan ex_topology c"
proof -
  have "snd (AttachCabinets (Some ex_plan) (Some ex_stray_inventory) (Some ex_topology)) \<noteq> None"
    by code_simp
  then obtain r e where e: "AttachCabinets (Some ex_plan) (Some ex_stray_inventory) (Some ex_topology) = (r, Some e)"
    by (cases "AttachCabinets (Some ex_plan) (Some ex_stray_inventory) (Some ex_topology)") auto
  have "inv_DOT ex_stray_inventory = pl_DOT ex_plan" by (simp add: ex_stray_inventory_def ex_dot)
  from AttachCabinets_first_error [OF ex_maps ex_index Build_regional_names(1) [OF ex_build] this e] e
  show ?thesis by (metis in_set_conv_decomp)
qed

theorem MaxPartitionFanIn_correct_witness:
  "MaxPartitionFanIn ex_attached = (''VIKASA_EXDOT_D7_D7_0'', 2) \<and>
     (\<exists>s\<in>set (pl_Streams ex_attached). st_Name s = ''VIKASA_EXDOT_D7_D7_0'' \<and> length (st_Sources s) = 2)"
proof -
  have m: "MaxPartitionFanIn ex_attached = (''VIKASA_EXDOT_D7_D7_0'', 2)" by code_simp
  from MaxPartitionFanIn_correct [OF this] m show ?thesis by auto
qed

end
