(* ===== verification/Diagram.thy ===== *)
theory Diagram
  imports K8s Cabinets
begin

section \<open>The topology diagram\<close>

text \<open>
  File internal/render/diagram.go: the Mermaid flowchart of a plan. Node ids come from an allocator
  that hands out a fresh id for each pair of a prefix and a name; its state is threaded through the
  rendering. Names are walked by rune, as \<^theory_text>\<open>range\<close> over a string does: \<open>rune_width\<close> is the
  number of bytes of the first rune, 1 for a byte that is no valid UTF-8.
\<close>

subsection \<open>Node ids\<close>

definition in_range :: "nat \<Rightarrow> nat \<Rightarrow> char \<Rightarrow> bool" where
  "in_range lo hi c \<longleftrightarrow> lo \<le> of_char c \<and> of_char c \<le> (hi :: nat)"

definition continuation :: "char list \<Rightarrow> bool" where
  "continuation cs \<longleftrightarrow> list_all (in_range 0x80 0xBF) cs"

definition second_byte :: "char \<Rightarrow> char \<Rightarrow> bool" where
  \<comment> \<open>the accept ranges of package unicode/utf8\<close>
  "second_byte a b \<longleftrightarrow>
     (if a = CHR 0xE0 then in_range 0xA0 0xBF b
      else if a = CHR 0xED then in_range 0x80 0x9F b
      else if a = CHR 0xF0 then in_range 0x90 0xBF b
      else if a = CHR 0xF4 then in_range 0x80 0x8F b
      else in_range 0x80 0xBF b)"

definition rune_width :: "string \<Rightarrow> nat" where
  "rune_width s =
     (case s of
        a # b # r \<Rightarrow>
          if in_range 0xC2 0xDF a \<and> second_byte a b then 2
          else if in_range 0xE0 0xEF a \<and> second_byte a b \<and> length r \<ge> 1 \<and> continuation (take 1 r) then 3
          else if in_range 0xF0 0xF4 a \<and> second_byte a b \<and> length r \<ge> 2 \<and> continuation (take 2 r) then 4
          else 1
      | _ \<Rightarrow> 1)"

definition node_char :: "char \<Rightarrow> bool" where
  "node_char c \<longleftrightarrow> CHR ''A'' \<le> c \<and> c \<le> CHR ''Z'' \<or> CHR ''a'' \<le> c \<and> c \<le> CHR ''z'' \<or>
     CHR ''0'' \<le> c \<and> c \<le> CHR ''9'' \<or> c = CHR ''_''"

fun sanitize_runes :: "string \<Rightarrow> string" where
  "sanitize_runes [] = []"
| "sanitize_runes (c # s) =
     (if node_char c then c else CHR ''_'') # sanitize_runes (drop (rune_width (c # s) - 1) s)"

definition sanitizeNodeID :: "string \<Rightarrow> string \<Rightarrow> string" where
  "sanitizeNodeID pre raw = pre @ sanitize_runes raw"

record idAlloc =
  byPair :: "string gomap"
  assigned :: "string list" \<comment> \<open>the keys of a map to bool\<close>

definition newIDAlloc :: idAlloc where
  "newIDAlloc = \<lparr>byPair = [], assigned = []\<rparr>"

definition suffixed :: "string \<Rightarrow> int \<Rightarrow> string" where
  "suffixed base n = base @ CHR ''_'' # itoa n"

text \<open>The loop ends because only finitely many ids are taken and the suffixes differ.\<close>

definition taken :: "string list \<Rightarrow> string \<Rightarrow> int \<Rightarrow> int set" where
  "taken as base n = {m. n \<le> m \<and> suffixed base m \<in> set as}"

lemma suffixed_inj: "0 \<le> m \<Longrightarrow> 0 \<le> n \<Longrightarrow> suffixed base m = suffixed base n \<longleftrightarrow> m = n"
  by (simp add: suffixed_def itoa_inj)

lemma finite_taken: "0 \<le> n \<Longrightarrow> finite (taken as base n)"
proof (rule inj_on_finite [of "suffixed base" _ "set as"])
  show "0 \<le> n \<Longrightarrow> inj_on (suffixed base) (taken as base n)"
    by (rule inj_onI) (simp add: taken_def suffixed_inj)
qed (auto simp: taken_def)

lemma card_taken: "0 \<le> n \<Longrightarrow> card (taken as base n) \<le> length as"
proof -
  assume n: "0 \<le> n"
  then have "inj_on (suffixed base) (taken as base n)"
    by (intro inj_onI) (simp add: taken_def suffixed_inj)
  then have "card (taken as base n) \<le> card (set as)"
    by (rule card_inj_on_le) (auto simp: taken_def)
  then show ?thesis using card_length le_trans by blast
qed

lemma taken_step:
  assumes "0 \<le> n" and "suffixed base n \<in> set as"
  shows "card (taken as base (n + 1)) < card (taken as base n)"
proof (rule psubset_card_mono [OF finite_taken [OF assms(1)]])
  have "n \<in> taken as base n" "n \<notin> taken as base (n + 1)" using assms by (auto simp: taken_def)
  moreover have "taken as base (n + 1) \<subseteq> taken as base n" by (auto simp: taken_def)
  ultimately show "taken as base (n + 1) \<subset> taken as base n" by blast
qed

lemma taken_next: "0 \<le> n \<Longrightarrow> card (taken as base (n + 1)) \<le> card (taken as base n)"
  by (rule card_mono [OF finite_taken]) (auto simp: taken_def)

function fresh_id :: "string list \<Rightarrow> string \<Rightarrow> string \<Rightarrow> int \<Rightarrow> string" where
  \<comment> \<open>called with n = 2: \<^theory_text>\<open>for n := 2; a.assigned[id]; n++ { id = fmt.Sprintf("%s_%d", base, n) }\<close>\<close>
  "fresh_id as base i n =
     (if n < 0 then i
      else if i \<in> set as then fresh_id as base (suffixed base n) (n + 1) else i)"
  by pat_completeness auto
termination
proof (relation "measure (\<lambda>(as, base, i, n). 2 * card (taken as base n) + (if i \<in> set as then 1 else 0))")
  fix as :: "string list" and base i :: string and n :: int
  assume "\<not> n < 0" "i \<in> set as"
  then show "((as, base, suffixed base n, n + 1), as, base, i, n)
      \<in> measure (\<lambda>(as, base, i, n). 2 * card (taken as base n) + (if i \<in> set as then 1 else 0))"
    using taken_step [of n base as] taken_next [of n as base] by auto
qed simp

declare fresh_id.simps [simp del]

definition pair_key :: "string \<Rightarrow> string \<Rightarrow> string" where
  "pair_key pre raw = pre @ CHR 0x00 # raw"

definition alloc_id :: "idAlloc \<Rightarrow> string \<Rightarrow> string \<Rightarrow> string \<times> idAlloc" where
  "alloc_id a pre raw =
     (let key = pair_key pre raw in
      case map_of (byPair a) key of
        Some got \<Rightarrow> (got, a)
      | None \<Rightarrow>
          let base = sanitizeNodeID pre raw;
              i = fresh_id (assigned a) base base 2 in
          (i, \<lparr>byPair = AList.update key i (byPair a), assigned = i # assigned a\<rparr>))"

subsection \<open>Rendering\<close>

definition mermaid_escape :: "string \<Rightarrow> string" where
  \<comment> \<open>\<^theory_text>\<open>escapeLabel\<close> of this package\<close>
  "mermaid_escape s = concat (map (\<lambda>c. if c = CHR 0x22 then ''&quot;'' else [c]) s)"

definition stream_label :: "Stream \<Rightarrow> string" where
  "stream_label s =
     st_Name s @ ''<br/>js-domain: '' @ st_JSDomain s @ ''<br/>replicas: '' @ itoa (st_Replicas s) @
     ''<br/>tier: '' @ TierString (st_Tier s) @
     (if st_MaxAge s \<noteq> [] then ''<br/>maxAge: '' @ st_MaxAge s else [])"

text \<open>A step takes the allocator and the text written so far.\<close>

type_synonym diagram = "idAlloc \<times> string"

definition stream_node :: "diagram \<Rightarrow> Stream \<Rightarrow> diagram" where
  \<open>stream_node d s =
     (case alloc_id (fst d) ''s_'' (st_Name s) of
        (i, ids) \<Rightarrow> (ids, snd d @ ''    '' @ i @ ''["'' @ mermaid_escape (stream_label s) @ ''"]\<newline>''))\<close>

definition cluster_group :: "diagram \<Rightarrow> string \<times> Stream list \<Rightarrow> diagram" where
  \<open>cluster_group d g =
     (case alloc_id (fst d) ''cl_'' (fst g) of
        (i, ids) \<Rightarrow>
          let d = foldl stream_node
            (ids, snd d @ ''  subgraph '' @ i @ ''["cluster: '' @ mermaid_escape (fst g) @ ''"]\<newline>'') (snd g) in
          (fst d, snd d @ ''  end\<newline>''))\<close>

definition plain_edge :: "string \<Rightarrow> string \<Rightarrow> diagram \<Rightarrow> string \<Rightarrow> diagram" where
  "plain_edge kind to d from =
     (case alloc_id (fst d) ''s_'' from of
        (a, ids) \<Rightarrow> (case alloc_id ids ''s_'' to of
        (b, ids) \<Rightarrow> (ids, snd d @ ''  '' @ a @ '' -->|'' @ kind @ ''| '' @ b @ ''\<newline>'')))"

definition cabinet_edge :: "string \<Rightarrow> diagram \<Rightarrow> Source \<Rightarrow> diagram" where
  \<open>cabinet_edge to d src =
     (if so_Name src \<noteq> BufferStreamName then d
      else case alloc_id (fst d) ''cab_'' (so_Domain src) of
        (a, ids) \<Rightarrow> (case alloc_id ids ''s_'' to of
        (b, ids) \<Rightarrow> (ids, snd d @ ''  '' @ a @ ''(["cabinet: '' @ mermaid_escape (so_Domain src) @ ''"]) -->|leaf| '' @ b @
           ''\<newline>'')))\<close>

definition centralName :: "Stream list \<Rightarrow> string" where
  \<comment> \<open>the last central stream\<close>
  "centralName ss = foldl (\<lambda>name s. if st_Tier s = TierCentral then st_Name s else name) [] ss"

definition stream_edges :: "string \<Rightarrow> diagram \<Rightarrow> Stream \<Rightarrow> diagram" where
  "stream_edges central d s =
     (case st_Tier s of
        TierCentral \<Rightarrow> foldl (plain_edge ''source'' (st_Name s)) d (map so_Name (st_Sources s))
      | TierRegional \<Rightarrow> foldl (cabinet_edge (st_Name s)) d (st_Sources s)
      | TierDMZ \<Rightarrow> if central \<noteq> [] then plain_edge ''share'' (st_Name s) d central else d)"

definition plan_groups :: "Stream list \<Rightarrow> (string \<times> Stream list) list" where
  "plan_groups ss = sort_key fst (foldl (\<lambda>m s. append_at (st_Cluster s) s m) [] ss)"

definition diagram_head :: "string \<Rightarrow> string" where
  "diagram_head dot =
     ''# Topology Diagram: '' @ dot @ ''\<newline>\<newline>> **Generated** by vikasa-infra/cmd/gen '' @
     [CHR 0xE2, CHR 0x80, CHR 0x94] @
     '' regenerated on every run; do not edit.\<newline>\<newline>```mermaid\<newline>flowchart TD\<newline>''"

definition diagram_Render :: "Plan option \<Rightarrow> render_error + string gomap" where
  "diagram_Render pp =
     bindE (derefE pp DiagramNilPlan) (\<lambda>p.
     let d = foldl cluster_group (newIDAlloc, diagram_head (pl_DOT p)) (plan_groups (pl_Streams p));
         d = foldl (stream_edges (centralName (pl_Streams p))) d (pl_Streams p)
     in Inr [(''TOPOLOGY.md'', snd d @ ''```\<newline>'')])"

subsection \<open>Properties of the allocator\<close>

lemma fresh_id_spec:
  assumes "0 \<le> n"
  shows "fresh_id as base i n \<notin> set as \<and>
    (fresh_id as base i n = i \<or>
     (i \<in> set as \<and> (\<exists>m\<ge>n. fresh_id as base i n = suffixed base m \<and> {n..<m} \<subseteq> taken as base n)))"
  using assms
proof (induction as base i n rule: fresh_id.induct)
  case (1 as base i n)
  show ?case
  proof (cases "i \<in> set as")
    case False
    with 1 show ?thesis by (subst (1 2) fresh_id.simps) simp
  next
    case True
    let ?r = "fresh_id as base (suffixed base n) (n + 1)"
    have r: "fresh_id as base i n = ?r" using True 1(2) by (subst fresh_id.simps) simp
    from 1 True have IH: "?r \<notin> set as" "?r = suffixed base n \<or>
        (suffixed base n \<in> set as \<and> (\<exists>m\<ge>n + 1. ?r = suffixed base m \<and> {n + 1..<m} \<subseteq> taken as base (n + 1)))"
      by simp_all
    from IH(2) have "\<exists>m\<ge>n. ?r = suffixed base m \<and> {n..<m} \<subseteq> taken as base n"
    proof
      assume "?r = suffixed base n"
      then show ?thesis by (intro exI [of _ n]) simp
    next
      assume "suffixed base n \<in> set as \<and> (\<exists>m\<ge>n + 1. ?r = suffixed base m \<and> {n + 1..<m} \<subseteq> taken as base (n + 1))"
      then obtain m where m: "m \<ge> n + 1" "?r = suffixed base m" "{n + 1..<m} \<subseteq> taken as base (n + 1)"
        and n: "n \<in> taken as base n" by (auto simp: taken_def)
      have "{n..<m} \<subseteq> taken as base n"
      proof
        fix k assume "k \<in> {n..<m}"
        then have "k = n \<or> k \<in> {n + 1..<m}" by auto
        with m(3) n have "k = n \<or> k \<in> taken as base (n + 1)" by blast
        with n show "k \<in> taken as base n" by (auto simp: taken_def)
      qed
      with m(1,2) show ?thesis by (intro exI [of _ m]) simp
    qed
    with True IH(1) show ?thesis unfolding r by blast
  qed
qed

text \<open>
  C39. The search for a fresh id ends: with n ids handed out, the loop stops after at most n rounds, with
  the sanitized name or one of its first n numbered variants, and what it returns was not taken.
\<close>

theorem fresh_id_ends:
  "fresh_id as base base 2 \<notin> set as \<and>
   fresh_id as base base 2 \<in> set (base # map (suffixed base) [2..int (length as) + 1])"
proof -
  let ?r = "fresh_id as base base 2"
  have spec: "?r \<notin> set as" "?r = base \<or> (base \<in> set as \<and> (\<exists>m\<ge>2. ?r = suffixed base m \<and> {2..<m} \<subseteq> taken as base 2))"
    using fresh_id_spec [of 2 as base base] by simp_all
  from spec(2) have "?r = base \<or> (\<exists>m. 2 \<le> m \<and> m \<le> int (length as) + 1 \<and> ?r = suffixed base m)"
  proof
    assume "base \<in> set as \<and> (\<exists>m\<ge>2. ?r = suffixed base m \<and> {2..<m} \<subseteq> taken as base 2)"
    then obtain m where m: "base \<in> set as" "2 \<le> m" "?r = suffixed base m" "{2..<m} \<subseteq> taken as base 2" by blast
    have inj: "inj_on (suffixed base) {2..<m}" by (rule inj_onI) (simp add: suffixed_inj)
    have "insert base (suffixed base ` {2..<m}) \<subseteq> set as" using m(1,4) by (auto simp: taken_def)
    then have "card (insert base (suffixed base ` {2..<m})) \<le> length as"
      using card_mono [of "set as"] card_length le_trans by (metis List.finite_set)
    moreover have "base \<notin> suffixed base ` {2..<m}" by (auto simp: suffixed_def)
    ultimately have "m \<le> int (length as) + 1" using m(2) by (simp add: card_image [OF inj])
    with m(2,3) show ?thesis by blast
  qed simp
  with spec(1) show ?thesis by auto
qed

text \<open>A run of requests.\<close>

fun alloc_all :: "idAlloc \<Rightarrow> (string \<times> string) list \<Rightarrow> string list \<times> idAlloc" where
  "alloc_all a [] = ([], a)"
| "alloc_all a (r # rs) =
     (case alloc_id a (fst r) (snd r) of
        (i, a') \<Rightarrow> (case alloc_all a' rs of (is, a'') \<Rightarrow> (i # is, a'')))"

definition alloc_ok :: "idAlloc \<Rightarrow> bool" where
  "alloc_ok a \<longleftrightarrow>
     (\<forall>k i. map_of (byPair a) k = Some i \<longrightarrow> i \<in> set (assigned a)) \<and>
     (\<forall>k k' i. map_of (byPair a) k = Some i \<and> map_of (byPair a) k' = Some i \<longrightarrow> k = k')"

lemma alloc_id_ok:
  assumes "alloc_ok a" and "alloc_id a pre raw = (i, a')"
  shows "alloc_ok a' \<and> map_of (byPair a') (pair_key pre raw) = Some i \<and>
    (\<forall>k j. map_of (byPair a) k = Some j \<longrightarrow> map_of (byPair a') k = Some j)"
proof (cases "map_of (byPair a) (pair_key pre raw)")
  case (Some got)
  with assms show ?thesis by (simp add: alloc_id_def)
next
  case None
  let ?i = "fresh_id (assigned a) (sanitizeNodeID pre raw) (sanitizeNodeID pre raw) 2"
  have new: "?i \<notin> set (assigned a)" using fresh_id_spec [of 2] by simp
  have eq: "i = ?i" "a' = \<lparr>byPair = AList.update (pair_key pre raw) ?i (byPair a), assigned = ?i # assigned a\<rparr>"
    using assms(2) None by (auto simp: alloc_id_def Let_def)
  from assms(1) new show ?thesis
    unfolding eq alloc_ok_def by (auto simp: update_conv' None split: if_splits)
qed

lemma alloc_all_ok:
  "alloc_ok a \<Longrightarrow> alloc_all a rs = (is, a') \<Longrightarrow> alloc_ok a' \<and> length is = length rs \<and>
    (\<forall>k j. map_of (byPair a) k = Some j \<longrightarrow> map_of (byPair a') k = Some j) \<and>
    (\<forall>n<length rs. map_of (byPair a') (pair_key (fst (rs ! n)) (snd (rs ! n))) = Some (is ! n))"
proof (induction rs arbitrary: a "is")
  case (Cons r rs)
  obtain i b where i: "alloc_id a (fst r) (snd r) = (i, b)" by (cases "alloc_id a (fst r) (snd r)")
  obtain js where js: "alloc_all b rs = (js, a')" "is = i # js"
    using Cons.prems(2) by (auto simp: i split: prod.splits)
  note head = alloc_id_ok [OF Cons.prems(1) i]
  note tail = Cons.IH [OF conjunct1 [OF head] js(1)]
  have "map_of (byPair a') (pair_key (fst ((r # rs) ! n)) (snd ((r # rs) ! n))) = Some (is ! n)" if "n < length (r # rs)" for n
    using head tail that by (cases n) (auto simp: js(2))
  with head tail show ?case by (auto simp: js(2))
qed simp

lemma pair_key_inj:
  assumes "CHR 0x00 \<notin> set p" and "CHR 0x00 \<notin> set p'"
  shows "pair_key p r = pair_key p' r' \<longleftrightarrow> p = p' \<and> r = r'"
proof
  assume eq: "pair_key p r = pair_key p' r'"
  have "takeWhile (\<lambda>c. c \<noteq> CHR 0x00) (pair_key q s) = q" if "CHR 0x00 \<notin> set q" for q s
    using that by (auto simp: pair_key_def takeWhile_append takeWhile_eq_all_conv)
  with eq assms have "p = p'" by metis
  with eq show "p = p' \<and> r = r'" by (simp add: pair_key_def)
qed simp

text \<open>
  C40. Node ids name nodes: over any run of requests, two requests get the same id exactly when they ask
  for the same name under the same prefix. So an edge always meets the node that was declared for
  its name, and no two nodes of a diagram coincide, whatever sanitizing does to their names.
\<close>

theorem alloc_ids_unique:
  assumes "alloc_all newIDAlloc rs = (is, a)" and "list_all (\<lambda>r. CHR 0x00 \<notin> set (fst r)) rs"
    and "i < length rs" and "j < length rs"
  shows "length is = length rs \<and> (is ! i = is ! j \<longleftrightarrow> rs ! i = rs ! j)"
proof -
  have "alloc_ok newIDAlloc" by (simp add: alloc_ok_def newIDAlloc_def)
  note run = alloc_all_ok [OF this assms(1)]
  let ?key = "\<lambda>n. pair_key (fst (rs ! n)) (snd (rs ! n))"
  have "is ! i = is ! j \<longleftrightarrow> ?key i = ?key j"
    using run assms(3,4) unfolding alloc_ok_def by (metis option.inject)
  also have "\<dots> \<longleftrightarrow> rs ! i = rs ! j"
    using assms(2-4) by (simp add: pair_key_inj list_all_length prod_eq_iff)
  finally show ?thesis using run by simp
qed

theorem alloc_ids_unique_witness:
  "let (is, a) = alloc_all newIDAlloc [(''s_'', ''a-b''), (''s_'', ''a.b''), (''s_'', ''a-b'')] in is ! 0 \<noteq> is ! 1 \<and> is ! 0 = is ! 2"
proof -
  let ?rs = "[(''s_'', ''a-b''), (''s_'', ''a.b''), (''s_'', ''a-b'')]"
  obtain ids a where run: "alloc_all newIDAlloc ?rs = (ids, a)" by (cases "alloc_all newIDAlloc ?rs")
  have nul: "list_all (\<lambda>r. CHR 0x00 \<notin> set (fst r)) ?rs" by simp
  show ?thesis
    using alloc_ids_unique [OF run nul, of 0 1] alloc_ids_unique [OF run nul, of 0 2]
    unfolding run Let_def prod.case by simp
qed

end
