(* ===== verification/Gen.thy ===== *)
theory Gen
  imports Documents Diagram WriteTree
begin

section \<open>The generator\<close>

text \<open>
  File cmd/gen/main.go: loading the specification, building the plan, attaching the cabinets,
  running every renderer, merging their files and writing the tree. The inputs are the decoded
  files (\<open>spec_file\<close>, \<open>inventory_file\<close>); the summary that is printed is the result. Parsing the
  flags and printing are not modelled.
\<close>

record gen_options =
  go_spec :: spec_file
  go_out :: path
  go_cabinets :: "inventory_file option" \<comment> \<open>None for the empty path\<close>
  go_previous :: "spec_file option"
  go_prune :: bool
  go_maxFanIn :: int
  go_cfg :: Config

datatype gen_error =
    InvalidOutput string
  | LoadSpecFailed topo_error
  | BuildPlanFailed plan_error
  | LoadCabinetsFailed fleet_error
  | AttachFailed attach_error
  | DispatchFailed render_error
  | MergeFailed tree_error
  | DiagramFailed render_error
  | RunbookFailed render_error
  | BuildAccountsFailed accounts_error
  | LoadPreviousFailed topo_error
  | BuildPreviousFailed plan_error
  | AttachPreviousFailed attach_error
  | WriteTreeFailed tree_error
  | GenPanic

record gen_summary =
  gs_DOT :: string
  gs_Partitions :: nat
  gs_Central :: nat
  gs_Accounts :: nat
  gs_Cabinets :: nat
  gs_Rebalance :: nat
  gs_DNS :: nat
  gs_Files :: nat
  gs_FanIn :: nat
  gs_Warning :: "(string \<times> nat) option" \<comment> \<open>the partition that is warned about\<close>

definition wrapE :: "('d \<Rightarrow> 'e) \<Rightarrow> 'd + 'a \<Rightarrow> 'e + 'a" where
  "wrapE h r = (case r of Inl e \<Rightarrow> Inl (h e) | Inr x \<Rightarrow> Inr x)"

definition attach_to :: "(attach_error \<Rightarrow> gen_error) \<Rightarrow> Plan \<Rightarrow> Inventory \<Rightarrow> Root \<Rightarrow> gen_error + Plan" where
  "attach_to h p iv root =
     (case AttachCabinets (Some p) (Some iv) root of
        (_, Some e) \<Rightarrow> Inl (h e)
      | (pp, None) \<Rightarrow> derefE pp GenPanic)"

definition merge_into :: "string gomap \<Rightarrow> string gomap \<Rightarrow> gen_error + string gomap" where
  "merge_into all part =
     (case MergeInto all part of (Some e, _) \<Rightarrow> Inl (MergeFailed e) | (None, m) \<Rightarrow> Inr m)"

definition gen_plan :: "gen_options \<Rightarrow> Root \<Rightarrow> gen_error + Plan \<times> Inventory option" where
  \<comment> \<open>from \<^theory_text>\<open>plan.Build\<close> to \<^theory_text>\<open>plan.AttachCabinets\<close>\<close>
  "gen_plan opts root =
     bindE (wrapE BuildPlanFailed (Build root)) (\<lambda>p.
     case go_cabinets opts of
       None \<Rightarrow> Inr (p, None)
     | Some f \<Rightarrow>
         bindE (wrapE LoadCabinetsFailed (LoadInventory f)) (\<lambda>iv.
         bindE (attach_to AttachFailed p iv root) (\<lambda>p. Inr (p, Some iv))))"

definition rebalance_files ::
    "gen_options \<Rightarrow> Plan \<Rightarrow> Inventory option \<Rightarrow> string gomap \<Rightarrow> gen_error + string gomap \<times> nat" where
  "rebalance_files opts p iv all =
     (case go_previous opts of
        None \<Rightarrow> Inr (all, 0)
      | Some f \<Rightarrow>
          bindE (wrapE LoadPreviousFailed (Load f)) (\<lambda>prevRoot.
          bindE (wrapE BuildPreviousFailed (Build prevRoot)) (\<lambda>prevPlan.
          bindE (case iv of None \<Rightarrow> Inr prevPlan | Some iv \<Rightarrow> attach_to AttachPreviousFailed prevPlan iv prevRoot) (\<lambda>prevPlan.
          let delta = Diff prevPlan p in
          bindE (merge_into all (rebalance_Render delta)) (\<lambda>all. Inr (all, ChangeCount delta))))))"

definition render_all ::
    "(int \<Rightarrow> int \<Rightarrow> int \<Rightarrow> int) \<Rightarrow> gen_options \<Rightarrow> Root \<Rightarrow> Plan \<Rightarrow> gen_error + string gomap \<times> Model" where
  \<comment> \<open>the renderers that always run, in their order\<close>
  "render_all frac opts root p =
     bindE (wrapE DispatchFailed (Dispatch frac p root (go_cfg opts))) (\<lambda>clusterFiles.
     bindE (merge_into [] clusterFiles) (\<lambda>all.
     bindE (merge_into all (dns_Render p)) (\<lambda>all.
     bindE (wrapE DiagramFailed (diagram_Render (Some p))) (\<lambda>diagramFiles.
     bindE (merge_into all diagramFiles) (\<lambda>all.
     bindE (wrapE RunbookFailed (runbook_Render p root (go_cfg opts))) (\<lambda>runbookFiles.
     bindE (merge_into all runbookFiles) (\<lambda>all.
     bindE (wrapE BuildAccountsFailed (BuildAccounts root)) (\<lambda>acctModel.
     bindE (merge_into all (accounts_Render acctModel)) (\<lambda>all.
     bindE (derefE root GenPanic) (\<lambda>t.
     bindE (derefE (t_Dot t) GenPanic) (\<lambda>dot.
     bindE (merge_into all (catalog_Render dot (t_DMZ t))) (\<lambda>all.
     Inr (all, acctModel)))))))))))))"

definition gen_files ::
    "(int \<Rightarrow> int \<Rightarrow> int \<Rightarrow> int) \<Rightarrow> gen_options \<Rightarrow> gen_error + string gomap \<times> gen_summary" where
  \<comment> \<open>\<^theory_text>\<open>run\<close> before the tree is written\<close>
  "gen_files frac opts =
     bindE (guardE (cf_Output (go_cfg opts) \<notin> {[], OutputKustomize, OutputHelm}) (InvalidOutput (cf_Output (go_cfg opts)))) (\<lambda>_.
     bindE (wrapE LoadSpecFailed (Load (go_spec opts))) (\<lambda>root.
     bindE (gen_plan opts root) (\<lambda>(p, iv).
     let (fanStream, fanN) = MaxPartitionFanIn p;
         warning = (if go_maxFanIn opts > 0 \<and> int fanN > go_maxFanIn opts then Some (fanStream, fanN) else None) in
     bindE (render_all frac opts root p) (\<lambda>(all, acctModel).
     bindE (rebalance_files opts p iv all) (\<lambda>(all, changes).
     Inr (all,
       \<lparr>gs_DOT = pl_DOT p,
        gs_Partitions = length (filter (\<lambda>s. st_Tier s = TierRegional) (pl_Streams p)),
        gs_Central = length (filter (\<lambda>s. st_Tier s = TierCentral) (pl_Streams p)),
        gs_Accounts = length (m_Accounts acctModel),
        gs_Cabinets = (case iv of None \<Rightarrow> 0 | Some iv \<Rightarrow> length (inv_Cabinets iv)),
        gs_Rebalance = changes, gs_DNS = length (pl_DNS p), gs_Files = length all, gs_FanIn = fanN,
        gs_Warning = warning\<rparr>))))))"

definition gen_run ::
    "(int \<Rightarrow> int \<Rightarrow> int \<Rightarrow> int) \<Rightarrow> gen_options \<Rightarrow> (gen_error, gen_summary) io" where
  "gen_run frac opts =
     bindIO (liftIO (gen_files frac opts)) (\<lambda>(all, summary).
     bindIO (wrapIO WriteTreeFailed (WriteTree (go_out opts) all (go_prune opts))) (\<lambda>_.
     returnIO summary))"

end
