(* ===== verification/Slices.thy ===== *)
theory Slices
  imports Dispatch WriteTree
begin

section \<open>The files of the clusters\<close>

text \<open>
  What the renderers of internal/render promise to \<^theory_text>\<open>Dispatch\<close>, as a locale: the interface
  \<^theory_text>\<open>SubstrateRenderer\<close> with the names it may use and the one way it may fail, its interpretations
  on the three renderers and on the choice between them, and what follows for the tree: which file
  of \<^theory_text>\<open>Dispatch\<close> belongs to which cluster, and when it fails.
\<close>

subsection \<open>Names\<close>

definition safe_component :: "string \<Rightarrow> bool" where
  "safe_component c \<longleftrightarrow> plain_component c \<and> \<not> HasPrefix c tmpPrefix"

text \<open>A name below the directory of a cluster, as components.\<close>

fun slice_path :: "path \<Rightarrow> bool" where
  "slice_path [a] = (safe_component a \<and> a \<noteq> ''streams'' \<and> a \<noteq> ''templates'')"
| "slice_path [d, a] = ((d = ''streams'' \<or> d = ''templates'') \<and> safe_component a)"
| "slice_path _ = False"

fun cluster_path :: "path \<Rightarrow> bool" where
  "cluster_path [d, a] = (d = ''argocd'' \<and> safe_component a)"
| "cluster_path (d # i # a # as) = ((d = ''clusters'' \<or> d = ''charts'') \<and> safe_component i \<and> slice_path (a # as))"
| "cluster_path _ = False"

definition slice_name :: "string \<Rightarrow> bool" where
  "slice_name n \<longleftrightarrow> slice_path (split_char CHR ''/'' n)"

lemma split_dir: "CHR ''/'' \<notin> set d \<Longrightarrow> split_char CHR ''/'' (d @ CHR ''/'' # n) = d # split_char CHR ''/'' n"
  by (simp add: split_char_append split_char_no_sep)

lemma slice_name_file: "CHR ''/'' \<notin> set a \<Longrightarrow> slice_name a \<longleftrightarrow> safe_component a \<and> a \<noteq> ''streams'' \<and> a \<noteq> ''templates''"
  by (simp add: slice_name_def split_char_no_sep)

lemma slice_name_streams: "CHR ''/'' \<notin> set a \<Longrightarrow> slice_name (''streams/'' @ a) \<longleftrightarrow> safe_component a"
  using split_dir [of "''streams''" a] by (simp add: slice_name_def split_char_no_sep)

lemma slice_name_templates: "CHR ''/'' \<notin> set a \<Longrightarrow> slice_name (''templates/'' @ a) \<longleftrightarrow> safe_component a"
  using split_dir [of "''templates''" a] by (simp add: slice_name_def split_char_no_sep)

lemma safe_long: "c \<noteq> CHR ''.'' \<Longrightarrow> safe_component (c # cs)"
  by (auto simp: safe_component_def plain_component_def HasPrefix_iff tmpPrefix_def)

text \<open>The directory of a cluster.\<close>

lemma split_SliceDir:
  assumes "CHR ''/'' \<notin> set i"
  shows "split_char CHR ''/'' (SliceDir i b out @ n) =
    (if b \<and> out = OutputHelm then ''charts'' else ''clusters'') # i # split_char CHR ''/'' n"
  using split_dir [OF assms, of n] split_dir [of "''charts''" "i @ CHR ''/'' # n"]
    split_dir [of "''clusters''" "i @ CHR ''/'' # n"]
  by (simp add: SliceDir_def)

lemma split_argo: "CHR ''/'' \<notin> set i \<Longrightarrow> split_char CHR ''/'' (''argocd/'' @ i @ ''.yaml'') = [''argocd'', i @ ''.yaml'']"
  using split_dir [of "''argocd''" "i @ ''.yaml''"] by (simp add: split_char_no_sep)

lemma cluster_path_slice:
  "slice_name n \<Longrightarrow> safe_component i \<Longrightarrow> CHR ''/'' \<notin> set i \<Longrightarrow> cluster_path (split_char CHR ''/'' (SliceDir i b out @ n))"
  unfolding split_SliceDir slice_name_def by (cases "split_char CHR ''/'' n") auto

lemma cluster_path_argo:
  "tokenRE i \<Longrightarrow> CHR ''/'' \<notin> set i \<Longrightarrow> cluster_path (split_char CHR ''/'' (''argocd/'' @ i @ ''.yaml''))"
  unfolding split_argo by (cases i) (auto simp: tokenRE_def token_start_def intro!: safe_long)

subsection \<open>The interface of a renderer\<close>

text \<open>What every plan guarantees of its streams, whatever the specification says.\<close>

definition planned_stream :: "Stream \<Rightarrow> bool" where
  "planned_stream s \<longleftrightarrow> HasPrefix (st_Name s) ''VIKASA_'' \<and> CHR ''/'' \<notin> set (st_Name s) \<and>
     st_MaxAge s \<in> {''6h'', ''15m'', ''1h''} \<and> st_Duplicates s \<in> {[], ''5m''}"

definition needs_hosts :: "ClusterSlice \<Rightarrow> bool" where
  "needs_hosts sl \<longleftrightarrow> cs_SubstrateType sl = SubstrateString SubstrateBareMetal \<and> cs_Hosts sl = []"

locale substrate_renderer =
  fixes render :: "ClusterSlice \<Rightarrow> render_error + string gomap"
    and serves :: "ClusterSlice \<Rightarrow> bool"
  assumes distinct_files: "serves sl \<Longrightarrow> render sl = Inr fs \<Longrightarrow> distinct (map fst fs)"
    and slice_files: "serves sl \<Longrightarrow> render sl = Inr fs \<Longrightarrow> n \<in> fst ` set fs \<Longrightarrow> slice_name n"
    and only_hosts: "serves sl \<Longrightarrow> render sl = Inl e \<longleftrightarrow> needs_hosts sl \<and> e = NoHosts (cs_ID sl)"
begin

lemma renders: "serves sl \<Longrightarrow> (\<exists>fs. render sl = Inr fs) \<longleftrightarrow> \<not> needs_hosts sl"
  using only_hosts [of sl "NoHosts (cs_ID sl)"] only_hosts [of sl] by (cases "render sl") auto

lemma placed_path:
  "serves sl \<Longrightarrow> render sl = Inr fs \<Longrightarrow> safe_component i \<Longrightarrow> CHR ''/'' \<notin> set i \<Longrightarrow> n \<in> fst ` set fs \<Longrightarrow>
     cluster_path (split_char CHR ''/'' (SliceDir i b out @ n))"
  by (rule cluster_path_slice [OF slice_files])

lemma placed_distinct: "serves sl \<Longrightarrow> render sl = Inr fs \<Longrightarrow> distinct (map (\<lambda>(n, c). dir @ n) fs)"
  using distinct_files [of sl fs] by (auto simp: distinct_map case_prod_beta inj_on_def)

end

text \<open>Kubernetes manifests.\<close>

lemma k8s_names:
  "map fst (k8s_RenderCluster c) =
     [''streams.yaml'', ''certificate.yaml'', ''externalsecret.yaml'', ''kustomization.yaml'', ''servicemonitor.yaml'',
      ''prometheusrule.yaml''] @ (if cs_IsCentral c then [''credhealth-prometheusrule.yaml''] else [])"
  by (simp add: k8s_RenderCluster_def Let_def)

lemma fst_image: "fst ` set m = set (map fst m)"
  by simp

interpretation kr: substrate_renderer "\<lambda>sl. Inr (k8s_RenderCluster sl)"
  "\<lambda>sl. cs_SubstrateType sl = SubstrateString SubstrateKubernetes"
proof unfold_locales
  show "distinct (map fst fs)" if "Inr (k8s_RenderCluster sl) = Inr fs" for sl fs
    using that k8s_names [of sl] by auto
  show "slice_name n" if "Inr (k8s_RenderCluster sl) = Inr fs" "n \<in> fst ` set fs" for sl fs n
  proof -
    have "n \<in> set (map fst (k8s_RenderCluster sl))" using that by auto
    moreover have "list_all slice_name (map fst (k8s_RenderCluster sl))"
      unfolding k8s_names by (simp add: slice_name_file safe_long)
    ultimately show ?thesis by (auto simp: list_all_iff)
  qed
qed (simp add: needs_hosts_def SubstrateString_def)

text \<open>Helm charts.\<close>

lemma helm_loop_names:
  "map fst (foldl (\<lambda>out (name, content). if name = k then out else AList.update (pre @ name) (f content) out) out fs) =
     map fst out @ map (\<lambda>n. pre @ n) (filter (\<lambda>n. n \<noteq> k) (map fst fs))"
  if "distinct (map fst fs)" and "\<forall>n\<in>fst ` set fs. pre @ n \<notin> fst ` set out"
  using that
proof (induction fs arbitrary: out)
  case (Cons x fs)
  obtain n c where x: "x = (n, c)" by (cases x)
  show ?case
  proof (cases "n = k")
    case False
    have upd: "AList.update (pre @ n) (f c) out = out @ [(pre @ n, f c)]"
      using Cons.prems(2) by (intro update_fresh) (simp add: x)
    have "\<forall>m\<in>fst ` set fs. pre @ m \<notin> fst ` set (out @ [(pre @ n, f c)])"
      using Cons.prems by (auto simp: x)
    with Cons.IH [of "out @ [(pre @ n, f c)]"] Cons.prems(1) False show ?thesis
      by (simp add: x upd)
  qed (use Cons x in simp)
qed simp

lemma helm_names:
  "map fst (renderHelmChart sl) =
     [''templates/streams.yaml'', ''templates/certificate.yaml'', ''templates/externalsecret.yaml'',
      ''templates/servicemonitor.yaml'', ''templates/prometheusrule.yaml''] @
     (if cs_IsCentral sl then [''templates/credhealth-prometheusrule.yaml''] else []) @ [''Chart.yaml'', ''values.yaml'']"
proof -
  define body where "body = foldl (\<lambda>out (name, content). if name = ''kustomization.yaml'' then out
      else AList.update (''templates/'' @ name) (helm_template content) out) []
      (k8s_RenderCluster (sl\<lparr>cs_Namespace := snNamespace, cs_IssuerName := snIssuer, cs_SecretStore := snStore,
            cs_PrometheusRelease := snRelease\<rparr>))"
  have "map fst body = map (\<lambda>n. ''templates/'' @ n) (filter (\<lambda>n. n \<noteq> ''kustomization.yaml'')
      (map fst (k8s_RenderCluster (sl\<lparr>cs_Namespace := snNamespace, cs_IssuerName := snIssuer, cs_SecretStore := snStore,
            cs_PrometheusRelease := snRelease\<rparr>))))"
    unfolding body_def by (subst helm_loop_names) (simp_all add: k8s_names)
  then have names: "map fst body = [''templates/streams.yaml'', ''templates/certificate.yaml'', ''templates/externalsecret.yaml'',
      ''templates/servicemonitor.yaml'', ''templates/prometheusrule.yaml''] @
     (if cs_IsCentral sl then [''templates/credhealth-prometheusrule.yaml''] else [])"
    by (simp add: k8s_names)
  have "''Chart.yaml'' \<notin> fst ` set body" "''values.yaml'' \<notin> fst ` set body"
    unfolding fst_image names by simp_all
  then show ?thesis
    unfolding renderHelmChart_def Let_def body_def [symmetric]
    by (simp add: update_fresh names)
qed

interpretation hr: substrate_renderer "\<lambda>sl. Inr (renderHelmChart sl)"
  "\<lambda>sl. cs_SubstrateType sl = SubstrateString SubstrateKubernetes"
proof unfold_locales
  show "distinct (map fst fs)" if "Inr (renderHelmChart sl) = Inr fs" for sl fs
    using that helm_names [of sl] by auto
  show "slice_name n" if "Inr (renderHelmChart sl) = Inr fs" "n \<in> fst ` set fs" for sl fs n
  proof -
    have "n \<in> set (map fst (renderHelmChart sl))" using that by auto
    moreover have "list_all slice_name (map fst (renderHelmChart sl))"
      unfolding helm_names
      using slice_name_templates by (simp add: slice_name_file safe_long)
    ultimately show ?thesis by (auto simp: list_all_iff)
  qed
qed (simp add: needs_hosts_def SubstrateString_def)

text \<open>Bare-metal configurations. The durations a plan uses parse, whatever the value of a fraction.\<close>

lemma planned_durations:
  "ParseDuration frac ''6h'' = Some (6 * 3600000000000)" "ParseDuration frac ''15m'' = Some (15 * 60000000000)"
  "ParseDuration frac ''1h'' = Some 3600000000000" "ParseDuration frac ''5m'' = Some (5 * 60000000000)"
  by code_simp+

lemma planned_config: "planned_stream s \<Longrightarrow> \<exists>cfg. bare_config frac s = Inr cfg"
  by (auto simp: bare_config_def planned_stream_def planned_durations)

lemma planned_json: "planned_stream s \<Longrightarrow> \<exists>j. renderBareStreamConfig frac s = Inr j"
  using planned_config [of s frac] by (auto simp: renderBareStreamConfig_def)

lemma conf_slice_name: "slice_name (conf_name h)"
proof -
  have "CHR ''/'' \<notin> set (conf_name h)" by (auto simp: conf_name_def sanitizeHostFilename_def)
  then show ?thesis by (simp add: slice_name_file) (simp add: conf_name_def safe_long)
qed

lemma planned_slice_name: "planned_stream s \<Longrightarrow> slice_name (''streams/'' @ st_Name s @ ''.json'')"
proof -
  assume s: "planned_stream s"
  then obtain r where r: "st_Name s = ''VIKASA_'' @ r" by (auto simp: planned_stream_def HasPrefix_iff)
  from s have "CHR ''/'' \<notin> set (st_Name s @ ''.json'')" by (simp add: planned_stream_def)
  moreover have "safe_component (st_Name s @ ''.json'')" unfolding r by (simp add: safe_long)
  ultimately show ?thesis using slice_name_streams by blast
qed

definition ok_names :: "string gomap \<Rightarrow> bool" where
  "ok_names out \<longleftrightarrow> distinct (map fst out) \<and> list_all slice_name (map fst out)"

lemma ok_update: "ok_names out \<Longrightarrow> slice_name k \<Longrightarrow> ok_names (AList.update k v out)"
proof -
  assume "ok_names out" "slice_name k"
  moreover have "set (map fst (AList.update k v out)) = insert k (set (map fst out))"
    using dom_update [of k v out] by simp
  ultimately show ?thesis unfolding ok_names_def by (metis (no_types, lifting) distinct_update insert_iff list_all_iff)
qed

lemma ok_conf_loop:
  "ok_names out \<Longrightarrow> ok_names (foldl (\<lambda>out (i, host). AList.update (conf_name host) (f i) out) out hs)"
  by (induction hs arbitrary: out) (auto simp: ok_update conf_slice_name split: prod.splits)

lemma ok_stream_loop:
  "list_all planned_stream ss \<Longrightarrow> ok_names out \<Longrightarrow>
   \<exists>fs. foldE (\<lambda>out s. bindE (renderBareStreamConfig frac s) (\<lambda>j. Inr (AList.update (''streams/'' @ st_Name s @ ''.json'') j out))) out ss
     = Inr fs \<and> ok_names fs"
proof (induction ss arbitrary: out)
  case (Cons s ss)
  then obtain j where "renderBareStreamConfig frac s = Inr j" using planned_json [of s frac] by auto
  with Cons show ?case using ok_update [OF _ planned_slice_name] by simp
qed simp

lemma bare_result:
  assumes "list_all planned_stream (cs_Streams sl)"
  shows "(if cs_Hosts sl = [] then bare_RenderCluster frac sl = Inl (NoHosts (cs_ID sl))
    else \<exists>fs. bare_RenderCluster frac sl = Inr fs \<and> ok_names fs)"
proof (cases "cs_Hosts sl = []")
  case False
  have "ok_names []" by (simp add: ok_names_def)
  note conf = ok_conf_loop [OF this, of "nats_conf sl" "enumerate 0 (cs_Hosts sl)"]
  have "slice_name ''nats-server.service''" by (simp add: slice_name_file safe_long)
  from ok_stream_loop [OF assms ok_update [OF conf this]] False show ?thesis
    by (simp add: bare_RenderCluster_def Let_def)
qed (simp add: bare_RenderCluster_def)

interpretation br: substrate_renderer "bare_RenderCluster frac"
  "\<lambda>sl. cs_SubstrateType sl = SubstrateString SubstrateBareMetal \<and> list_all planned_stream (cs_Streams sl)" for frac
proof unfold_locales
  fix sl :: ClusterSlice and fs n e
  assume sl: "cs_SubstrateType sl = SubstrateString SubstrateBareMetal \<and> list_all planned_stream (cs_Streams sl)"
  note result = bare_result [OF conjunct2 [OF sl], of frac]
  have ok: "ok_names fs" if "bare_RenderCluster frac sl = Inr fs"
    using result that by (auto split: if_splits)
  show "distinct (map fst fs)" if "bare_RenderCluster frac sl = Inr fs"
    using ok [OF that] by (simp add: ok_names_def)
  show "slice_name n" if "bare_RenderCluster frac sl = Inr fs" "n \<in> fst ` set fs"
    using ok [OF that(1)] that(2) by (auto simp: ok_names_def list_all_iff)
  show "bare_RenderCluster frac sl = Inl e \<longleftrightarrow> needs_hosts sl \<and> e = NoHosts (cs_ID sl)"
    using result sl by (auto simp: needs_hosts_def split: if_splits)
qed

text \<open>The choice of \<^theory_text>\<open>Dispatch\<close>.\<close>

definition known_slice :: "ClusterSlice \<Rightarrow> bool" where
  "known_slice sl \<longleftrightarrow> cs_SubstrateType sl \<in> {SubstrateString SubstrateKubernetes, SubstrateString SubstrateBareMetal} \<and>
     list_all planned_stream (cs_Streams sl)"

lemma substrate_strings [simp]: "SubstrateString SubstrateBareMetal \<noteq> SubstrateString SubstrateKubernetes"
  "SubstrateString SubstrateKubernetes \<noteq> SubstrateString SubstrateBareMetal"
  by (simp_all add: SubstrateString_def)

interpretation dr: substrate_renderer "render_slice frac cfg" known_slice for frac cfg
proof unfold_locales
  fix sl :: ClusterSlice and fs n e
  assume sl: "known_slice sl"
  show "distinct (map fst fs)" if "render_slice frac cfg sl = Inr fs"
    using that sl kr.distinct_files [of sl fs] hr.distinct_files [of sl fs] br.distinct_files [of sl frac fs]
    by (auto simp: render_slice_def known_slice_def split: if_splits)
  show "slice_name n" if "render_slice frac cfg sl = Inr fs" "n \<in> fst ` set fs"
    using that sl kr.slice_files [of sl fs n] hr.slice_files [of sl fs n] br.slice_files [of sl frac fs n]
    by (auto simp: render_slice_def known_slice_def split: if_splits)
  show "render_slice frac cfg sl = Inl e \<longleftrightarrow> needs_hosts sl \<and> e = NoHosts (cs_ID sl)"
    using sl kr.only_hosts [of sl e] hr.only_hosts [of sl e] br.only_hosts [of sl frac e]
    by (auto simp: render_slice_def known_slice_def)
qed

subsection \<open>The output of Dispatch\<close>

text \<open>The slice of a cluster and the files it contributes, without the grouping and the loop.\<close>

definition streams_at :: "Plan \<Rightarrow> string \<Rightarrow> Stream list" where
  "streams_at p i = filter (\<lambda>s. st_Cluster s = i) (pl_Streams p)"

definition used_clusters :: "Plan \<Rightarrow> string list" where
  "used_clusters p = map st_Cluster (pl_Streams p)"

definition slice_of :: "Plan \<Rightarrow> Topology \<Rightarrow> Config \<Rightarrow> string \<Rightarrow> render_error + ClusterSlice" where
  "slice_of p t cfg i =
     bindE (derefE (gm_ptr (t_Cluster t) i) (DispatchUnknownCluster i)) (\<lambda>c.
     bindE (buildClusterSlice p c i (central_id t) (central_leaf_endpoint t) (streams_at p i)) (\<lambda>sl.
     Inr (sl\<lparr>cs_IssuerName := cf_TLSIssuer cfg, cs_SecretStore := cf_SecretStore cfg,
           cs_PrometheusRelease := cf_PrometheusRelease cfg\<rparr>)))"

definition slice_outputs :: "Config \<Rightarrow> string \<Rightarrow> ClusterSlice \<Rightarrow> string gomap \<Rightarrow> string gomap" where
  "slice_outputs cfg i sl fs =
     map (\<lambda>(n, c). (SliceDir i (cs_SubstrateType sl = k8s_label) (cf_Output cfg) @ n, c)) fs @
     (if cs_SubstrateType sl = k8s_label \<and> cf_ArgoRepoURL cfg \<noteq> []
      then [(''argocd/'' @ i @ ''.yaml'', argo_app cfg sl)] else [])"

definition cluster_outputs ::
    "(int \<Rightarrow> int \<Rightarrow> int \<Rightarrow> int) \<Rightarrow> Plan \<Rightarrow> Topology \<Rightarrow> Config \<Rightarrow> string \<Rightarrow> render_error + string gomap" where
  "cluster_outputs frac p t cfg i =
     bindE (slice_of p t cfg i) (\<lambda>sl. bindE (render_slice frac cfg sl) (\<lambda>fs. Inr (slice_outputs cfg i sl fs)))"

lemma group_get: "map_of (group_by_cluster ss) i =
    (if i \<in> st_Cluster ` set ss then Some (filter (\<lambda>s. st_Cluster s = i) ss) else None)"
proof -
  have "map_of (foldl (\<lambda>m s. append_at (st_Cluster s) s m) m ss) i =
      (if i \<in> st_Cluster ` set ss
       then Some ((case map_of m i of None \<Rightarrow> [] | Some xs \<Rightarrow> xs) @ filter (\<lambda>s. st_Cluster s = i) ss)
       else map_of m i)" for m
  proof (induction ss arbitrary: m)
    case (Cons s ss)
    then show ?case
      by (cases "st_Cluster s = i"; cases "i \<in> st_Cluster ` set ss")
        (auto simp: map_of_append_at empty_filter_conv image_iff)
  qed simp
  then show ?thesis by (simp add: group_by_cluster_def)
qed

lemma group_keys: "set (map fst (group_by_cluster ss)) = st_Cluster ` set ss"
proof -
  have "k \<in> set (map fst (group_by_cluster ss)) \<longleftrightarrow> map_of (group_by_cluster ss) k \<noteq> None" for k
    by (simp add: map_of_eq_None_iff)
  then show ?thesis unfolding group_get by (intro set_eqI) (simp add: image_iff)
qed

lemma group_distinct: "distinct (map fst (group_by_cluster ss))"
proof -
  have "distinct (map fst m) \<Longrightarrow> distinct (map fst (foldl (\<lambda>m s. append_at (st_Cluster s) s m) m ss))" for m
    by (induction ss arbitrary: m) (simp_all add: append_at_def distinct_update)
  then show ?thesis by (simp add: group_by_cluster_def)
qed

definition update_all :: "string gomap \<Rightarrow> string gomap \<Rightarrow> string gomap" where
  "update_all out fs = foldl (\<lambda>out (n, c). AList.update n c out) out fs"

lemma put_files_all: "put_files dir fs out = update_all out (map (\<lambda>(n, c). (dir @ n, c)) fs)"
  unfolding put_files_def update_all_def foldl_map by (simp add: case_prod_unfold)

lemma update_all_get:
  "distinct (map fst fs) \<Longrightarrow> map_of (update_all out fs) q = (case map_of fs q of None \<Rightarrow> map_of out q | Some c \<Rightarrow> Some c)"
proof (induction fs arbitrary: out)
  case (Cons x fs)
  then have "map_of (update_all (AList.update (fst x) (snd x) out) fs) q =
      (case map_of fs q of None \<Rightarrow> map_of (AList.update (fst x) (snd x) out) q | Some c \<Rightarrow> Some c)" by simp
  moreover have "update_all out (x # fs) = update_all (AList.update (fst x) (snd x) out) fs"
    by (simp add: update_all_def case_prod_beta)
  moreover have "map_of fs q = None" if "q = fst x" using Cons.prems that by (simp add: map_of_eq_None_iff)
  ultimately show ?case by (auto simp: update_conv' split: option.splits)
qed (simp add: update_all_def)

lemma update_all_distinct: "distinct (map fst out) \<Longrightarrow> distinct (map fst (update_all out fs))"
  by (induction fs arbitrary: out) (auto simp: update_all_def distinct_update)

lemma update_all_append: "update_all out (fs @ gs) = update_all (update_all out fs) gs"
  by (simp add: update_all_def)

lemma dispatch_cluster_eq:
  assumes "i \<in> set (used_clusters p)"
  shows "dispatch_cluster frac p t cfg (group_by_cluster (pl_Streams p)) out i =
    bindE (cluster_outputs frac p t cfg i) (\<lambda>fs. Inr (update_all out fs))"
proof -
  have "map_of (group_by_cluster (pl_Streams p)) i = Some (streams_at p i)"
    using assms by (auto simp: group_get streams_at_def used_clusters_def)
  then show ?thesis
    by (simp add: dispatch_cluster_def cluster_outputs_def slice_of_def bindE_assoc slice_outputs_def put_files_all
        update_all_append Let_def if_distrib [of "\<lambda>f. update_all x f" for x])
      (simp add: update_all_def cong: if_cong)
qed


lemma used_sorted: "sortedKeys (group_by_cluster (pl_Streams p)) = sort (remdups (used_clusters p))"
proof -
  have "mset (map fst (group_by_cluster (pl_Streams p))) = mset (remdups (used_clusters p))"
    using group_distinct [of "pl_Streams p"] group_keys [of "pl_Streams p"]
    by (intro iffD1 [OF set_eq_iff_mset_eq_distinct]) (simp_all add: used_clusters_def)
  then show ?thesis unfolding sortedKeys_def by (metis mset_sort properties_for_sort sorted_sort)
qed

lemma update_loop:
  "foldE (\<lambda>out i. bindE (g i) (\<lambda>fs. Inr (update_all out fs))) out is =
     bindE (mapE g is) (\<lambda>parts. Inr (update_all out (concat parts)))"
proof (induction "is" arbitrary: out)
  case (Cons i "is")
  show ?case by (cases "g i") (simp_all add: Cons bindE_assoc update_all_append)
qed (simp add: update_all_def)

lemma update_all_fresh: "distinct (map fst fs) \<Longrightarrow> update_all [] fs = fs"
proof -
  have "distinct (map fst fs) \<Longrightarrow> fst ` set fs \<inter> fst ` set out = {} \<Longrightarrow> update_all out fs = out @ fs" for out
    using fold_update_fresh [of fs out]
    by (simp add: update_all_def foldl_conv_fold case_prod_unfold)
  then show "distinct (map fst fs) \<Longrightarrow> ?thesis" by simp
qed

text \<open>The files of a cluster, and of different clusters, have different names.\<close>

lemma buildClusterSlice_known:
  assumes "buildClusterSlice p c i central ep ss = Inr sl"
  shows "cs_SubstrateType sl \<in> {SubstrateString SubstrateKubernetes, SubstrateString SubstrateBareMetal} \<and>
    cs_Streams sl = sort_key st_Name ss \<and> cs_ID sl = i"
proof -
  from assms obtain sub where sub: "c_Substrate c = Some sub" by (auto simp: buildClusterSlice_def)
  with assms show ?thesis by (cases "sub_Type sub") (auto simp: buildClusterSlice_def Let_def)
qed

lemma slice_of_known:
  assumes "slice_of p t cfg i = Inr sl" and "list_all planned_stream (pl_Streams p)"
  shows "known_slice sl" and "cs_ID sl = i"
  using assms by (auto simp: slice_of_def known_slice_def streams_at_def list_all_iff dest!: buildClusterSlice_known)

lemma slice_outputs_owner:
  assumes "known_slice sl" and "render_slice frac cfg sl = Inr fs" and "CHR ''/'' \<notin> set i"
    and "q \<in> fst ` set (slice_outputs cfg i sl fs)"
  shows "(\<exists>d cs. (d = ''clusters'' \<or> d = ''charts'') \<and> cs \<noteq> [] \<and> split_char CHR ''/'' q = d # i # cs) \<or>
     split_char CHR ''/'' q = [''argocd'', i @ ''.yaml'']"
proof -
  from assms(4) consider b out n where "q = SliceDir i b out @ n" | "q = ''argocd/'' @ i @ ''.yaml''"
    unfolding slice_outputs_def by (auto split: if_splits)
  then show ?thesis
  proof cases
    case 1
    then show ?thesis using split_SliceDir [OF assms(3), of b out n] split_char_not_Nil [of "CHR ''/''" n] by auto
  next
    case 2
    then show ?thesis using split_argo [OF assms(3)] by simp
  qed
qed

lemma slice_outputs_distinct:
  assumes "known_slice sl" and "render_slice frac cfg sl = Inr fs" and "CHR ''/'' \<notin> set i"
  shows "distinct (map fst (slice_outputs cfg i sl fs))"
proof -
  have "split_char CHR ''/'' (SliceDir i b out @ n) \<noteq> split_char CHR ''/'' (''argocd/'' @ i @ ''.yaml'')" for b out n
    unfolding split_SliceDir [OF assms(3)] split_argo [OF assms(3)] by simp
  then have "SliceDir i b out @ n \<noteq> ''argocd/'' @ i @ ''.yaml''" for b out n by metis
  moreover have "distinct (map (\<lambda>x. SliceDir i b out @ fst x) fs)" for b out
    using dr.placed_distinct [OF assms(1,2), of "SliceDir i b out"] by (simp add: case_prod_unfold)
  moreover have "map fst (map (\<lambda>(n, c). (d @ n, c)) fs) = map (\<lambda>x. d @ fst x) fs" for d
    by (simp add: case_prod_unfold comp_def)
  ultimately show ?thesis unfolding slice_outputs_def map_append by (auto simp del: map_map) metis+
qed

lemma cluster_outputs_disjoint:
  assumes "list_all planned_stream (pl_Streams p)" and "CHR ''/'' \<notin> set i" and "CHR ''/'' \<notin> set j" and "i \<noteq> j"
    and "cluster_outputs frac p t cfg i = Inr fs" and "cluster_outputs frac p t cfg j = Inr gs"
  shows "fst ` set fs \<inter> fst ` set gs = {}"
proof -
  obtain sl ss where i: "slice_of p t cfg i = Inr sl" "render_slice frac cfg sl = Inr ss" "fs = slice_outputs cfg i sl ss"
    using assms(5) by (auto simp: cluster_outputs_def)
  obtain tl ts where j: "slice_of p t cfg j = Inr tl" "render_slice frac cfg tl = Inr ts" "gs = slice_outputs cfg j tl ts"
    using assms(6) by (auto simp: cluster_outputs_def)
  have "False" if q: "q \<in> fst ` set fs" "q \<in> fst ` set gs" for q
    using slice_outputs_owner [OF slice_of_known(1) [OF i(1) assms(1)] i(2) assms(2) q(1) [unfolded i(3)]]
      slice_outputs_owner [OF slice_of_known(1) [OF j(1) assms(1)] j(2) assms(3) q(2) [unfolded j(3)]] assms(4)
    by auto
  then show ?thesis by blast
qed

lemma mapE_result_member: "mapE f xs = Inr ys \<Longrightarrow> y \<in> set ys \<Longrightarrow> \<exists>x\<in>set xs. f x = Inr y"
  by (induction xs arbitrary: ys) auto

lemma outputs_distinct:
  assumes "list_all planned_stream (pl_Streams p)" and "list_all (\<lambda>i. CHR ''/'' \<notin> set i) is"
    and "distinct is" and "mapE (cluster_outputs frac p t cfg) is = Inr parts"
  shows "distinct (map fst (concat parts))"
  using assms(2-4)
proof (induction "is" arbitrary: parts)
  case (Cons i "is")
  then obtain fs rest where fs: "cluster_outputs frac p t cfg i = Inr fs"
    and rest: "mapE (cluster_outputs frac p t cfg) is = Inr rest" "parts = fs # rest" by auto
  have tail: "distinct (map fst (concat rest))" using Cons rest by simp
  have head: "distinct (map fst fs)"
  proof -
    obtain sl ss where i: "slice_of p t cfg i = Inr sl" "render_slice frac cfg sl = Inr ss" "fs = slice_outputs cfg i sl ss"
      using fs by (auto simp: cluster_outputs_def)
    with slice_outputs_distinct [OF slice_of_known(1) [OF i(1) assms(1)] i(2)] Cons.prems(1) show ?thesis by simp
  qed
  have "fst ` set fs \<inter> fst ` set gs = {}" if gs: "gs \<in> set rest" for gs
  proof -
    obtain j where j: "j \<in> set is" "cluster_outputs frac p t cfg j = Inr gs"
      using mapE_result_member [OF rest(1) gs] by blast
    have "CHR ''/'' \<notin> set i" "CHR ''/'' \<notin> set j" "i \<noteq> j"
      using Cons.prems(1,2) j(1) by (auto simp: list_all_iff)
    then show ?thesis by (rule cluster_outputs_disjoint [OF assms(1) _ _ _ fs j(2)])
  qed
  then have "set (map fst fs) \<inter> set (map fst (concat rest)) = {}" by auto
  with head tail show ?case unfolding rest(2) concat.simps map_append distinct_append by blast
qed simp

lemma Dispatch_eq:
  assumes "list_all planned_stream (pl_Streams p)" and "list_all (\<lambda>i. CHR ''/'' \<notin> set i) (used_clusters p)"
  shows "Dispatch frac p (Some t) cfg =
    bindE (mapE (cluster_outputs frac p t cfg) (sort (remdups (used_clusters p)))) (\<lambda>parts. Inr (concat parts))"
proof -
  let ?is = "sort (remdups (used_clusters p))" and ?g = "cluster_outputs frac p t cfg"
  have "Dispatch frac p (Some t) cfg = foldE (dispatch_cluster frac p t cfg (group_by_cluster (pl_Streams p))) [] ?is"
    by (simp add: Dispatch_def derefE_def used_sorted Let_def)
  also have "\<dots> = foldE (\<lambda>out i. bindE (?g i) (\<lambda>fs. Inr (update_all out fs))) [] ?is"
    by (rule foldE_cong) (simp_all add: dispatch_cluster_eq)
  also have "\<dots> = bindE (mapE ?g ?is) (\<lambda>parts. Inr (concat parts))"
    using outputs_distinct [OF assms(1), of ?is frac t cfg] assms(2)
    unfolding update_loop by (cases "mapE ?g ?is") (simp_all add: update_all_fresh list_all_iff)
  finally show ?thesis .
qed

end
