(* ===== verification/Gen_Safety.thy ===== *)
theory Gen_Safety
  imports Gen Slices
begin

section \<open>The generator as a whole\<close>

text \<open>
  What holds of a run of cmd/gen from the specification file to the tree: which plans reach the
  renderers, when rendering can still fail, which files a successful run hands to \<open>WriteTree\<close>, and
  what the output directory holds afterwards. The lemmas compose the results of the theories of the
  parts: validation (Topology), the plan in closed form (Plan, Cabinets), the renderers' interface
  (Slices) and the tree (WriteTree).
\<close>

subsection \<open>The plans that reach the renderers\<close>

text \<open>A cluster id that a loaded specification can be rendered for.\<close>

definition usable_cluster :: "Topology \<Rightarrow> string \<Rightarrow> bool" where
  "usable_cluster t i \<longleftrightarrow> tokenRE i \<and>
     (\<exists>c s. gm_ptr (t_Cluster t) i = Some c \<and> c_Substrate c = Some s \<and>
        sub_Type s \<in> {SubstrateKubernetes, SubstrateBareMetal})"

lemma loaded_cluster:
  assumes "Load f = Inr (Some t)" and "gm_ptr (t_Cluster t) i \<noteq> None"
  shows "usable_cluster t i"
proof -
  from assms(1) have wf: "wf_topology t" and maps: "go_maps t"
    by (auto simp: Load_result keyed_go_maps)
  from assms(2) obtain c where c: "gm_ptr (t_Cluster t) i = Some c" by auto
  then have "(i, Some c) \<in> set (t_Cluster t)" using maps by (simp add: go_maps_def gm_ptr_member)
  with wf have "wf_cluster (i, Some c)" by (auto simp: wf_topology_def)
  with c show ?thesis by (auto simp: usable_cluster_def wf_cluster_def)
qed

lemma Sanitize_no_slash: "CHR ''/'' \<notin> set (Sanitize s)"
  by (auto simp: Sanitize_def ReplaceByte_def)

lemma stream_names_safe:
  "HasPrefix (PartitionStreamName dot d k) ''VIKASA_'' \<and> CHR ''/'' \<notin> set (PartitionStreamName dot d k)"
  "HasPrefix (CentralShardStreamName dot d k) ''VIKASA_'' \<and> CHR ''/'' \<notin> set (CentralShardStreamName dot d k)"
  "HasPrefix (DMZStreamName dot) ''VIKASA_'' \<and> CHR ''/'' \<notin> set (DMZStreamName dot)"
  by (simp_all add: PartitionStreamName_def CentralShardStreamName_def DMZStreamName_def Sanitize_no_slash HasPrefix_iff)

text \<open>What the renderers need of a plan.\<close>

definition renderable :: "Topology \<Rightarrow> Plan \<Rightarrow> bool" where
  "renderable t p \<longleftrightarrow> list_all planned_stream (pl_Streams p) \<and> list_all (usable_cluster t) (used_clusters p)"

lemma Build_renderable:
  assumes "Load f = Inr (Some t)" and "Build (Some t) = Inr p"
  shows "renderable t p"
proof -
  from assms(2) obtain dot ce cc where p: "p = plan_of dot t ce cc" and pl: "plannable dot t cc"
    by (auto simp: Build_iff)
  from assms(1) have maps: "go_maps t" by (auto elim!: loaded_usable)
  have use: "usable_cluster t i" if "has_domain t i" for i
    using that loaded_cluster [OF assms(1), of i] by (auto simp: has_domain_def)
  have "planned_stream s \<and> usable_cluster t (st_Cluster s)" if "s \<in> set (plan_streams dot t ce cc)" for s
  proof -
    from that consider e where "e \<in> set (parts_of dot t)" "s = shard_of dot t cc (replicas_of (ce_Replicas ce)) e"
      | e where "e \<in> set (parts_of dot t)" "s = regional_of t e"
      | z dc where "dmz_cluster t = Some (z, dc)"
          "s = dmz_stream dot t (js_domain t cc) (shards_by_district dot (parts_of dot t)) z dc"
      unfolding plan_streams_def dmz_streams_def by (cases "dmz_cluster t") auto
    then show ?thesis
    proof cases
      case 1
      then show ?thesis using pl use
        by (simp add: plannable_def shard_of_def central_shard_def planned_stream_def stream_names_safe centralMaxAge_def)
    next
      case 2
      then have "pe_stream e = PartitionStreamName dot (pe_district e) (pe_partition e)"
        by (simp add: parts_of_set [OF maps] entry_def)
      with 2 show ?thesis using pl use
        by (simp add: plannable_def regional_of_def regional_stream_def planned_stream_def stream_names_safe)
    next
      case 3
      then show ?thesis using pl use
        by (simp add: plannable_def dmz_stream_def planned_stream_def stream_names_safe dmzMaxAge_def dmzDedupeWindow_def)
    qed
  qed
  then show ?thesis by (auto simp: renderable_def used_clusters_def list_all_iff p plan_of_def)
qed

lemma attached_same [simp]:
  "st_Name (attached dot t cs s) = st_Name s" "st_Cluster (attached dot t cs s) = st_Cluster s"
  "st_MaxAge (attached dot t cs s) = st_MaxAge s" "st_Duplicates (attached dot t cs s) = st_Duplicates s"
  "st_Tier (attached dot t cs s) = st_Tier s"
  by (simp_all add: attached_def)

lemma attach_to_ok:
  assumes "attach_to h p iv (Some t) = Inr p'" and "go_maps t" and "distinct (regional_names (pl_Streams p))"
  shows "p' = p\<lparr>pl_Streams := map (attached (pl_DOT p) t (inv_Cabinets iv)) (pl_Streams p)\<rparr>"
proof -
  from assms(1) have run: "AttachCabinets (Some p) (Some iv) (Some t) = (Some p', None)"
    by (auto simp: attach_to_def split: prod.splits option.splits)
  then obtain idx where "PartitionIndex t = Inr idx" "inv_DOT iv = pl_DOT p"
    by (auto simp: AttachCabinets_def split: if_splits sum.splits)
  with AttachCabinets_ok_iff [OF assms(2) _ assms(3)] run show ?thesis by blast
qed

lemma attach_to_error: "attach_to h p iv root = Inl e \<Longrightarrow> \<exists>a. e = h a"
  by (auto simp: attach_to_def AttachCabinets_def derefE_def split: prod.splits option.splits if_splits sum.splits)

lemma gen_plan_renderable:
  assumes "Load f = Inr (Some t)" and "gen_plan opts (Some t) = Inr (p, iv)"
  shows "renderable t p"
proof -
  from assms(2) obtain q where q: "Build (Some t) = Inr q"
    by (auto simp: gen_plan_def wrapE_def split: sum.splits)
  note built = Build_renderable [OF assms(1) q]
  from assms(1) have maps: "go_maps t" by (auto elim!: loaded_usable)
  from assms(2) q consider "p = q" | i where "attach_to AttachFailed q i (Some t) = Inr p"
    by (auto simp: gen_plan_def wrapE_def split: sum.splits option.splits)
  then show ?thesis
  proof cases
    case 2
    from attach_to_ok [OF this maps Build_regional_names(1) [OF q]] built
    show ?thesis by (auto simp: renderable_def used_clusters_def list_all_iff planned_stream_def)
  qed (use built in simp)
qed

subsection \<open>Rendering the clusters\<close>

text \<open>The one thing validation leaves open: a bare-metal cluster may have no hosts.\<close>

definition lacks_hosts :: "Topology \<Rightarrow> string \<Rightarrow> bool" where
  "lacks_hosts t i \<longleftrightarrow>
     (\<exists>c s. gm_ptr (t_Cluster t) i = Some c \<and> c_Substrate c = Some s \<and> sub_Type s = SubstrateBareMetal \<and> sub_Hosts s = [])"

lemma usable_slice:
  assumes "usable_cluster t i"
  shows "\<exists>sl. slice_of p t cfg i = Inr sl \<and> (needs_hosts sl \<longleftrightarrow> lacks_hosts t i)"
proof -
  from assms obtain c s where c: "gm_ptr (t_Cluster t) i = Some c" "c_Substrate c = Some s"
    and s: "sub_Type s \<in> {SubstrateKubernetes, SubstrateBareMetal}" by (auto simp: usable_cluster_def)
  have "sort (sub_Hosts s) = [] \<longleftrightarrow> sub_Hosts s = []" by (metis length_0_conv length_sort)
  with c s show ?thesis
    by (auto simp: slice_of_def buildClusterSlice_def needs_hosts_def lacks_hosts_def derefE_def Let_def)
qed

lemma cluster_outputs_total:
  assumes "renderable t p" and "usable_cluster t i"
  shows "cluster_outputs frac p t cfg i = Inl e \<longleftrightarrow> lacks_hosts t i \<and> e = NoHosts i"
proof -
  obtain sl where sl: "slice_of p t cfg i = Inr sl" "needs_hosts sl \<longleftrightarrow> lacks_hosts t i"
    using usable_slice [OF assms(2)] by blast
  have planned: "list_all planned_stream (pl_Streams p)" using assms(1) by (simp add: renderable_def)
  note known = slice_of_known [OF sl(1) planned]
  show ?thesis
    using dr.only_hosts [OF known(1), of frac cfg e] sl known(2)
    by (cases "render_slice frac cfg sl") (auto simp: cluster_outputs_def)
qed

lemma tokenRE_no_slash: "tokenRE i \<Longrightarrow> CHR ''/'' \<notin> set i"
  using tokenRE_bytes by (fastforce simp: token_byte_def token_start_def)

lemma tokenRE_safe: "tokenRE i \<Longrightarrow> safe_component i"
  by (cases i) (auto simp: tokenRE_def token_start_def intro!: safe_long)

lemma renderable_slash_free: "renderable t p \<Longrightarrow> list_all (\<lambda>i. CHR ''/'' \<notin> set i) (used_clusters p)"
  by (auto simp: renderable_def list_all_iff usable_cluster_def tokenRE_no_slash)

lemma Dispatch_closed:
  assumes "renderable t p"
  shows "Dispatch frac p (Some t) cfg =
    bindE (mapE (cluster_outputs frac p t cfg) (sort (remdups (used_clusters p)))) (\<lambda>parts. Inr (concat parts))"
  by (rule Dispatch_eq) (use assms in \<open>simp_all add: renderable_slash_free\<close>, simp add: renderable_def)

lemma mapE_sorted_error:
  fixes "is" :: "string list"
  assumes "sorted is" and "\<And>i e. i \<in> set is \<Longrightarrow> g i = Inl e \<longleftrightarrow> P i \<and> e = h i"
  shows "mapE g is = Inl e \<longleftrightarrow> (\<exists>i\<in>set is. P i \<and> e = h i \<and> (\<forall>j\<in>set is. P j \<longrightarrow> i \<le> j))"
  using assms
proof (induction "is")
  case (Cons i "is")
  have IH: "mapE g is = Inl e \<longleftrightarrow> (\<exists>i\<in>set is. P i \<and> e = h i \<and> (\<forall>j\<in>set is. P j \<longrightarrow> i \<le> j))"
    using Cons by simp
  have head: "g i = Inl e' \<longleftrightarrow> P i \<and> e' = h i" for e' using Cons.prems(2) by simp
  have least: "\<forall>j\<in>set is. i \<le> j" using Cons.prems(1) by simp
  show ?case
  proof (cases "P i")
    case True
    with head have "g i = Inl (h i)" by blast
    then show ?thesis using True least by (auto simp: bindE_eq_Inl intro: antisym)
  next
    case False
    with head obtain x where "g i = Inr x" by (cases "g i") auto
    with False IH show ?thesis by (auto simp: bindE_eq_Inl)
  qed
qed simp

lemma Dispatch_error:
  assumes "renderable t p"
  shows "Dispatch frac p (Some t) cfg = Inl e \<longleftrightarrow>
    (\<exists>i\<in>set (used_clusters p). lacks_hosts t i \<and> e = NoHosts i \<and>
       (\<forall>j\<in>set (used_clusters p). lacks_hosts t j \<longrightarrow> i \<le> j))"
proof -
  have "mapE (cluster_outputs frac p t cfg) (sort (remdups (used_clusters p))) = Inl e \<longleftrightarrow>
     (\<exists>i\<in>set (sort (remdups (used_clusters p))). lacks_hosts t i \<and> e = NoHosts i \<and>
       (\<forall>j\<in>set (sort (remdups (used_clusters p))). lacks_hosts t j \<longrightarrow> i \<le> j))"
    using assms cluster_outputs_total [OF assms] by (intro mapE_sorted_error) (auto simp: renderable_def list_all_iff)
  then show ?thesis
    unfolding Dispatch_closed [OF assms] by (simp add: bindE_eq_Inl)
qed

subsection \<open>The files of a run\<close>

text \<open>The files beside the directories of the clusters.\<close>

definition top_names :: "string list" where
  "top_names = [''leaf-dns.yaml'', ''TOPOLOGY.md'', ''DEPLOYMENT-GUIDE.md'', ''accounts.conf'', ''dmz-catalog.md'',
     ''dmz-catalog.json'', ''REBALANCE.md'']"

definition tree_path :: "path \<Rightarrow> bool" where
  "tree_path cs \<longleftrightarrow> cluster_path cs \<or> (\<exists>n\<in>set (manifestName # top_names). cs = [n])"

lemma cluster_path_cases:
  assumes "cluster_path cs"
  obtains a where "cs = [''argocd'', a]" "safe_component a"
    | d i a as where "cs = d # i # a # as" "d = ''clusters'' \<or> d = ''charts''" "safe_component i" "slice_path (a # as)"
  using assms by (cases cs rule: cluster_path.cases) auto

lemma slice_path_cases:
  assumes "slice_path cs"
  obtains a where "cs = [a]" "safe_component a" "a \<noteq> ''streams''" "a \<noteq> ''templates''"
    | d a where "cs = [d, a]" "d = ''streams'' \<or> d = ''templates''" "safe_component a"
  using assms by (cases cs rule: slice_path.cases) auto

lemma words_safe:
  "safe_component ''argocd''" "safe_component ''clusters''" "safe_component ''charts''" "safe_component ''streams''"
  "safe_component ''templates''"
  by (simp_all add: safe_long)

lemma top_names_safe: "n \<in> set (manifestName # top_names) \<Longrightarrow> safe_component n \<and> CHR ''/'' \<notin> set n"
proof -
  have "list_all (\<lambda>n. safe_component n \<and> CHR ''/'' \<notin> set n) (manifestName # top_names)" by code_simp
  then show "n \<in> set (manifestName # top_names) \<Longrightarrow> ?thesis" unfolding list_all_iff by blast
qed

lemma tree_path_safe: "tree_path cs \<Longrightarrow> list_all safe_component cs"
  using top_names_safe words_safe
  by (auto simp: tree_path_def elim!: cluster_path_cases slice_path_cases)

text \<open>No file is a directory on the way to another.\<close>

lemma slice_path_antichain: "slice_path as \<Longrightarrow> slice_path bs \<Longrightarrow> \<not> strict_prefix as bs"
  by (auto elim!: slice_path_cases)

lemma cluster_path_hd: "cluster_path cs \<Longrightarrow> cs \<noteq> [] \<and> hd cs \<in> {''argocd'', ''clusters'', ''charts''} \<and> tl cs \<noteq> []"
  by (erule cluster_path_cases) auto

lemma cluster_path_antichain:
  assumes "cluster_path as" and "cluster_path bs"
  shows "\<not> strict_prefix as bs"
proof
  assume "strict_prefix as bs"
  then obtain z zs where bs: "bs = as @ z # zs" by (auto elim: strict_prefixE')
  show False
    using assms(1)
  proof (cases rule: cluster_path_cases)
    case (1 a)
    with assms(2) bs show False by auto
  next
    case (2 d i a cs)
    with assms(2) bs have "slice_path (a # cs @ z # zs)" by auto
    with 2 slice_path_antichain [of "a # cs" "a # cs @ z # zs"] show False by (simp add: strict_prefix_def)
  qed
qed

lemma tree_path_antichain:
  assumes "tree_path as" and "tree_path bs"
  shows "\<not> strict_prefix as bs"
proof
  assume pre: "strict_prefix as bs"
  then obtain z zs where bs: "bs = as @ z # zs" by (auto elim: strict_prefixE')
  have "as \<noteq> []" using assms(1) by (auto simp: tree_path_def)
  with bs assms(2) have long: "cluster_path bs" by (cases as) (auto simp: tree_path_def)
  have words: "d \<notin> set (manifestName # top_names)" if "d \<in> {''argocd'', ''clusters'', ''charts''}" for d
    using that by (auto simp: top_names_def manifestName_def)
  have "hd bs = hd as" using bs \<open>as \<noteq> []\<close> by simp
  with words cluster_path_hd [OF long] have "hd as \<notin> set (manifestName # top_names)" by metis
  with assms(1) have "cluster_path as" by (auto simp: tree_path_def)
  with cluster_path_antichain long pre show False by blast
qed

definition tree_keys :: "string gomap \<Rightarrow> bool" where
  "tree_keys files \<longleftrightarrow> distinct (map fst files) \<and>
     (\<forall>q\<in>fst ` set files. cluster_path (split_char CHR ''/'' q) \<or> q \<in> set top_names)"

lemma top_split: "n \<in> set (manifestName # top_names) \<Longrightarrow> split_char CHR ''/'' n = [n]"
  using top_names_safe by (simp add: split_char_no_sep)

lemma tree_keys_path: "tree_keys files \<Longrightarrow> q \<in> fst ` set files \<Longrightarrow> tree_path (split_char CHR ''/'' q)"
  using top_split by (fastforce simp: tree_keys_def tree_path_def)

lemma cluster_path_not_top: "cluster_path (split_char CHR ''/'' q) \<Longrightarrow> q \<notin> set (manifestName # top_names)"
  using top_split [of q] cluster_path_hd [of "split_char CHR ''/'' q"] by (metis list.sel(3))

lemma tree_keys_good:
  assumes "tree_keys files"
  shows "good_tree files"
proof -
  let ?names = "manifestName # map fst files"
  have path: "tree_path (split_char CHR ''/'' n)" if "n \<in> set ?names" for n
    using that tree_keys_path [OF assms, of n] top_split [of manifestName] by (auto simp: tree_path_def)
  have "manifestName \<notin> set top_names" by (simp add: manifestName_def top_names_def)
  then have "distinct ?names"
    using assms cluster_path_not_top [of manifestName] by (auto simp: tree_keys_def)
  moreover have "list_all good_name ?names"
    using tree_path_safe [OF path]
    by (auto simp: list_all_iff good_name_def plain_name_def safe_component_def)
  moreover have "list_all (\<lambda>a. list_all (\<lambda>b. \<not> strict_prefix (split_char CHR ''/'' a) (split_char CHR ''/'' b)) ?names) ?names"
    using tree_path_antichain [OF path path] by (simp only: list_all_iff) blast
  ultimately show ?thesis by (simp only: good_tree_def Let_def)
qed

lemma key_member: "(k, v) \<in> set m \<Longrightarrow> k \<in> fst ` set m"
  by force

lemma merge_into_disjoint:
  "distinct (map fst part) \<Longrightarrow> fst ` set all \<inter> fst ` set part = {} \<Longrightarrow> merge_into all part = Inr (all @ part)"
  using MergeInto_union [of all part] by (cases "MergeInto all part") (auto simp: merge_into_def)

lemma slice_outputs_member:
  assumes "q \<in> fst ` set (slice_outputs cfg i sl fs)"
  shows "(\<exists>b. \<exists>n\<in>fst ` set fs. q = SliceDir i b (cf_Output cfg) @ n) \<or> q = ''argocd/'' @ i @ ''.yaml''"
proof -
  have "fst ` set (slice_outputs cfg i sl fs) \<subseteq>
      (\<lambda>n. SliceDir i (cs_SubstrateType sl = k8s_label) (cf_Output cfg) @ n) ` fst ` set fs \<union> {''argocd/'' @ i @ ''.yaml''}"
    unfolding slice_outputs_def set_append image_Un set_map by (auto simp: image_image case_prod_unfold)
  with assms show ?thesis by blast
qed

lemma Dispatch_tree_keys:
  assumes "renderable t p" and "Dispatch frac p (Some t) cfg = Inr files"
  shows "distinct (map fst files) \<and> (\<forall>q\<in>fst ` set files. cluster_path (split_char CHR ''/'' q))"
proof -
  let ?is = "sort (remdups (used_clusters p))"
  have planned: "list_all planned_stream (pl_Streams p)" using assms(1) by (simp add: renderable_def)
  from assms(2) obtain parts where parts: "mapE (cluster_outputs frac p t cfg) ?is = Inr parts" "files = concat parts"
    unfolding Dispatch_closed [OF assms(1)] by auto
  have "list_all (\<lambda>i. CHR ''/'' \<notin> set i) ?is" using renderable_slash_free [OF assms(1)] by (simp add: list_all_iff)
  from outputs_distinct [OF planned this _ parts(1)] have "distinct (map fst files)" by (simp add: parts(2))
  moreover have "cluster_path (split_char CHR ''/'' q)" if "q \<in> fst ` set files" for q
  proof -
    from that obtain gs where gs: "gs \<in> set parts" "q \<in> fst ` set gs" by (auto simp: parts(2))
    from mapE_result_member [OF parts(1) gs(1)] obtain i sl fs where
      i: "i \<in> set (used_clusters p)" "slice_of p t cfg i = Inr sl" "render_slice frac cfg sl = Inr fs"
        "gs = slice_outputs cfg i sl fs" by (auto simp: cluster_outputs_def)
    have tok: "tokenRE i" using assms(1) i(1) by (simp add: renderable_def list_all_iff usable_cluster_def)
    note names = tokenRE_safe [OF tok] tokenRE_no_slash [OF tok]
    from gs(2) i(4) consider b n where "n \<in> fst ` set fs" "q = SliceDir i b (cf_Output cfg) @ n"
      | "q = ''argocd/'' @ i @ ''.yaml''"
      using slice_outputs_member [of q cfg i sl fs] by blast
    then show ?thesis
    proof cases
      case 1
      then show ?thesis using dr.placed_path [OF slice_of_known(1) [OF i(2) planned] i(3) names] by simp
    next
      case 2
      then show ?thesis using cluster_path_argo [OF tok names(2)] by simp
    qed
  qed
  ultimately show ?thesis by blast
qed

text \<open>The files that do not depend on the renderers of the clusters.\<close>

definition shared_files :: "gen_options \<Rightarrow> Topology \<Rightarrow> Plan \<Rightarrow> string gomap" where
  "shared_files opts t p =
     dns_Render p @ projr (diagram_Render (Some p)) @ projr (runbook_Render p (Some t) (go_cfg opts)) @
     accounts_Render (projr (BuildAccounts (Some t))) @ catalog_Render (the (t_Dot t)) (t_DMZ t)"

lemma diagram_file: "\<exists>c. diagram_Render (Some p) = Inr [(''TOPOLOGY.md'', c)]"
  by (simp add: diagram_Render_def derefE_def Let_def)

lemma runbook_file: "\<exists>c. runbook_Render p (Some t) cfg = Inr [(''DEPLOYMENT-GUIDE.md'', c)]"
  by (simp add: runbook_Render_def buildRunbookData_def derefE_def Let_def)

lemma render_all_closed:
  assumes "renderable t p" and "t_Dot t = Some dot"
  shows "render_all frac opts (Some t) p =
    (case Dispatch frac p (Some t) (go_cfg opts) of
       Inl e \<Rightarrow> Inl (DispatchFailed e)
     | Inr files \<Rightarrow> Inr (files @ shared_files opts t p, projr (BuildAccounts (Some t))))"
    and "Dispatch frac p (Some t) (go_cfg opts) = Inr files \<Longrightarrow> tree_keys (files @ shared_files opts t p)"
    and "''REBALANCE.md'' \<notin> fst ` set (shared_files opts t p)"
proof -
  obtain dia where dia: "diagram_Render (Some p) = Inr [(''TOPOLOGY.md'', dia)]" using diagram_file by blast
  obtain rb where rb: "runbook_Render p (Some t) (go_cfg opts) = Inr [(''DEPLOYMENT-GUIDE.md'', rb)]"
    using runbook_file by blast
  obtain m where m: "BuildAccounts (Some t) = Inr m"
    using assms(2) BuildAccounts_iff [of t] by auto
  obtain d where dns: "dns_Render p = [(''leaf-dns.yaml'', d)]" by (simp add: dns_Render_def)
  obtain a where acc: "accounts_Render m = [(''accounts.conf'', a)]" by (simp add: accounts_Render_def)
  have cat: "map fst (catalog_Render dot (t_DMZ t)) =
      (if t_DMZ t = None then [] else [''dmz-catalog.md'', ''dmz-catalog.json''])"
    by (cases "t_DMZ t") (simp_all add: catalog_Render_def Let_def)
  have shared: "shared_files opts t p =
      [(''leaf-dns.yaml'', d), (''TOPOLOGY.md'', dia), (''DEPLOYMENT-GUIDE.md'', rb), (''accounts.conf'', a)] @
      catalog_Render dot (t_DMZ t)"
    by (simp add: shared_files_def dia rb m dns acc assms(2))
  show "''REBALANCE.md'' \<notin> fst ` set (shared_files opts t p)"
    using cat by (cases "t_DMZ t") (simp_all add: shared catalog_Render_def Let_def)
  have tops: "distinct (map fst (shared_files opts t p))" "set (map fst (shared_files opts t p)) \<subseteq> set top_names"
    unfolding shared map_append cat by (simp_all add: top_names_def)
  note keys = Dispatch_tree_keys [OF assms(1)]
  have fresh: "n \<notin> fst ` set files" if "Dispatch frac p (Some t) (go_cfg opts) = Inr files" "n \<in> set top_names" for files n
    using keys [OF that(1)] cluster_path_not_top that(2) by fastforce
  show "tree_keys (files @ shared_files opts t p)" if run: "Dispatch frac p (Some t) (go_cfg opts) = Inr files"
    using keys [OF run] tops fresh [OF run] unfolding tree_keys_def by auto
  show "render_all frac opts (Some t) p =
    (case Dispatch frac p (Some t) (go_cfg opts) of
       Inl e \<Rightarrow> Inl (DispatchFailed e)
     | Inr files \<Rightarrow> Inr (files @ shared_files opts t p, projr (BuildAccounts (Some t))))"
  proof (cases "Dispatch frac p (Some t) (go_cfg opts)")
    case (Inr files)
    have top: "n \<notin> fst ` set files" if "n \<in> set top_names" for n by (rule fresh [OF Inr that])
    have m0: "merge_into [] files = Inr files" using keys [OF Inr] by (subst merge_into_disjoint) simp_all
    have m1: "merge_into (files @ xs) [(n, c)] = Inr (files @ xs @ [(n, c)])"
      if "n \<in> set top_names" "n \<notin> fst ` set xs" for xs n c
      using that top [OF that(1)] by (subst merge_into_disjoint) auto
    have m2: "merge_into (files @ [(''leaf-dns.yaml'', d), (''TOPOLOGY.md'', dia), (''DEPLOYMENT-GUIDE.md'', rb), (''accounts.conf'', a)])
        (catalog_Render dot (t_DMZ t)) = Inr (files @ shared_files opts t p)"
    proof -
      have "fst ` set (catalog_Render dot (t_DMZ t)) \<subseteq> {''dmz-catalog.md'', ''dmz-catalog.json''}"
        using cat unfolding fst_image by (auto split: if_splits)
      moreover have "''dmz-catalog.md'' \<in> set top_names" "''dmz-catalog.json'' \<in> set top_names"
        by (simp_all add: top_names_def)
      ultimately show ?thesis
        using top [of "''dmz-catalog.md''"] top [of "''dmz-catalog.json''"] cat
        by (subst merge_into_disjoint) (auto simp: shared dest: key_member split: if_splits)
    qed
    have tn: "''leaf-dns.yaml'' \<in> set top_names" "''TOPOLOGY.md'' \<in> set top_names"
      "''DEPLOYMENT-GUIDE.md'' \<in> set top_names" "''accounts.conf'' \<in> set top_names"
      by (simp_all add: top_names_def)
    show ?thesis
      using m1 [of "''leaf-dns.yaml''" "[]"] tn m1 [of _ "[_]"] m1 [of _ "[_, _]"] m1 [of _ "[_, _, _]"]
      by (simp add: render_all_def wrapE_def Inr m0 dns dia rb m acc m2 derefE_def assms(2))
  qed (simp add: render_all_def wrapE_def)
qed

text \<open>The rebalance plan adds at most one file.\<close>

lemma rebalance_ok:
  assumes "rebalance_files opts p iv all = Inr (all', n)" and "''REBALANCE.md'' \<notin> fst ` set all"
  shows "all' = all \<or> (\<exists>c. all' = all @ [(''REBALANCE.md'', c)])"
proof (cases "go_previous opts")
  case (Some f)
  have "merge_into all (rebalance_Render delta) = Inr (all @ rebalance_Render delta)" for delta
    using assms(2) by (intro merge_into_disjoint) (simp_all add: rebalance_Render_def)
  with assms(1) Some show ?thesis
    by (auto simp: rebalance_files_def Let_def rebalance_Render_def wrapE_def split: sum.splits option.splits)
qed (use assms(1) in \<open>simp add: rebalance_files_def\<close>)

lemma rebalance_error:
  assumes "rebalance_files opts p iv all = Inl e" and "''REBALANCE.md'' \<notin> fst ` set all"
  shows "(\<exists>x. e = LoadPreviousFailed x) \<or> (\<exists>x. e = BuildPreviousFailed x) \<or> (\<exists>x. e = AttachPreviousFailed x)"
proof (cases "go_previous opts")
  case (Some f)
  have "merge_into all (rebalance_Render delta) = Inr (all @ rebalance_Render delta)" for delta
    using assms(2) by (intro merge_into_disjoint) (simp_all add: rebalance_Render_def)
  with assms(1) Some show ?thesis
    by (auto simp: rebalance_files_def Let_def wrapE_def bindE_eq_Inl dest: attach_to_error
        split: sum.splits option.splits)
qed (use assms(1) in \<open>simp add: rebalance_files_def\<close>)

text \<open>A successful run before the tree is written, in its parts.\<close>

lemma gen_files_parts:
  assumes "gen_files frac opts = Inr (all, s)"
  obtains t p iv files reb where "Load (go_spec opts) = Inr (Some t)" "gen_plan opts (Some t) = Inr (p, iv)"
    "Dispatch frac p (Some t) (go_cfg opts) = Inr files" "all = files @ shared_files opts t p @ reb"
    "reb = [] \<or> (\<exists>c. reb = [(''REBALANCE.md'', c)])" "tree_keys (files @ shared_files opts t p)"
    "''REBALANCE.md'' \<notin> fst ` set (files @ shared_files opts t p)"
proof -
  from assms obtain root pv where load: "Load (go_spec opts) = Inr root" and pv: "gen_plan opts root = Inr pv"
    by (auto simp: gen_files_def wrapE_def split: sum.splits)
  obtain p iv where plan: "gen_plan opts root = Inr (p, iv)" using pv by (cases pv) simp
  obtain fs fn where fan: "MaxPartitionFanIn p = (fs, fn)" by (cases "MaxPartitionFanIn p")
  from assms obtain mid m n where ren: "render_all frac opts root p = Inr (mid, m)"
    and reb: "rebalance_files opts p iv mid = Inr (all, n)"
    by (auto simp: gen_files_def wrapE_def load plan fan split: sum.splits)
  from load obtain t where t: "root = Some t" by (auto simp: Load_result)
  note load = load [unfolded t] and plan = plan [unfolded t] and ren = ren [unfolded t]
  from load obtain dot where dot: "t_Dot t = Some dot" by (auto elim!: loaded_usable)
  note closed = render_all_closed [OF gen_plan_renderable [OF load plan] dot]
  from ren obtain files where files: "Dispatch frac p (Some t) (go_cfg opts) = Inr files"
      "mid = files @ shared_files opts t p"
    unfolding closed(1) by (auto split: sum.splits)
  have "cluster_path (split_char CHR ''/'' q)" if "q \<in> fst ` set files" for q
    using Dispatch_tree_keys [OF gen_plan_renderable [OF load plan] files(1)] that by blast
  then have "''REBALANCE.md'' \<notin> fst ` set files"
    using cluster_path_not_top [of "''REBALANCE.md''"] by (force simp: top_names_def)
  with closed(3) have fresh: "''REBALANCE.md'' \<notin> fst ` set mid" unfolding files(2) by auto
  from rebalance_ok [OF reb fresh] consider "all = mid" | c where "all = mid @ [(''REBALANCE.md'', c)]" by blast
  then show thesis
  proof cases
    case 1
    then show thesis
      using that [OF load plan files(1), of "[]"] closed(2) [OF files(1)] fresh by (simp add: files(2))
  next
    case (2 c)
    then show thesis
      using that [OF load plan files(1), of "[(''REBALANCE.md'', c)]"] closed(2) [OF files(1)] fresh
      by (simp add: files(2))
  qed
qed

lemma gen_files_keys:
  assumes "gen_files frac opts = Inr (all, s)"
  shows "tree_keys all"
proof -
  from assms obtain t p files reb where all: "all = files @ shared_files opts t p @ reb"
    and reb: "reb = [] \<or> (\<exists>c. reb = [(''REBALANCE.md'', c)])"
    and keys: "tree_keys (files @ shared_files opts t p)"
    and fresh: "''REBALANCE.md'' \<notin> fst ` set (files @ shared_files opts t p)"
    by (rule gen_files_parts)
  have "''REBALANCE.md'' \<in> set top_names" by (simp add: top_names_def)
  with keys fresh reb show ?thesis unfolding all tree_keys_def by (auto simp: image_Un dest: key_member)
qed

lemma gen_files_error:
  assumes "gen_files frac opts = Inl e"
  shows "(case e of DispatchFailed r \<Rightarrow> \<exists>i. r = NoHosts i
          | MergeFailed r \<Rightarrow> False | DiagramFailed r \<Rightarrow> False | RunbookFailed r \<Rightarrow> False
          | BuildAccountsFailed r \<Rightarrow> False | WriteTreeFailed r \<Rightarrow> False | GenPanic \<Rightarrow> False | _ \<Rightarrow> True)"
proof (cases "Load (go_spec opts)")
  case (Inl x)
  with assms show ?thesis by (auto simp: gen_files_def wrapE_def bindE_eq_Inl)
next
  case (Inr root)
  then obtain t where load: "Load (go_spec opts) = Inr (Some t)" by (auto simp: Load_result)
  then obtain dot where dot: "t_Dot t = Some dot" by (auto elim!: loaded_usable)
  show ?thesis
  proof (cases "gen_plan opts (Some t)")
    case (Inl x)
    with assms load have "e = InvalidOutput (cf_Output (go_cfg opts)) \<or> e = x"
      by (auto simp: gen_files_def wrapE_def bindE_eq_Inl)
    moreover have "(\<exists>y. x = BuildPlanFailed y) \<or> (\<exists>y. x = LoadCabinetsFailed y) \<or> (\<exists>y. x = AttachFailed y)"
      using Inl by (auto simp: gen_plan_def wrapE_def bindE_eq_Inl dest: attach_to_error split: sum.splits option.splits)
    ultimately show ?thesis by auto
  next
    case (Inr pv)
    then obtain p iv where plan: "gen_plan opts (Some t) = Inr (p, iv)" by (cases pv) auto
    note good = gen_plan_renderable [OF load plan]
    note closed = render_all_closed [OF good dot]
    show ?thesis
    proof (cases "Dispatch frac p (Some t) (go_cfg opts)")
      case (Inl r)
      then obtain i where "r = NoHosts i" unfolding Dispatch_error [OF good] by blast
      with Inl assms load plan closed(1) show ?thesis
        by (auto simp: gen_files_def wrapE_def bindE_eq_Inl)
    next
      case (Inr files)
      have "cluster_path (split_char CHR ''/'' q)" if "q \<in> fst ` set files" for q
        using Dispatch_tree_keys [OF good Inr] that by blast
      then have "''REBALANCE.md'' \<notin> fst ` set files"
        using cluster_path_not_top [of "''REBALANCE.md''"] by (force simp: top_names_def)
      with closed(3) have fresh: "''REBALANCE.md'' \<notin> fst ` set (files @ shared_files opts t p)" by auto
      from assms load plan closed(1) Inr have "e = InvalidOutput (cf_Output (go_cfg opts)) \<or>
          rebalance_files opts p iv (files @ shared_files opts t p) = Inl e"
        by (auto simp: gen_files_def wrapE_def bindE_eq_Inl split: prod.splits)
      with rebalance_error [OF _ fresh] show ?thesis by fastforce
    qed
  qed
qed

subsection \<open>An example run\<close>

definition ex_cfg :: Config where
  "ex_cfg = \<lparr>cf_TLSIssuer = ''vault'', cf_SecretStore = ''vault'', cf_ArgoRepoURL = ''https://git.example/infra'',
     cf_ArgoTargetRevision = ''main'', cf_PrometheusRelease = ''prom'', cf_Output = OutputKustomize\<rparr>"

definition ex_gen :: gen_options where
  "ex_gen = \<lparr>go_spec = Decoded (Some ex_wire), go_out = [''out''], go_cabinets = None, go_previous = None,
     go_prune = True, go_maxFanIn = 0, go_cfg = ex_cfg\<rparr>"

lemma ex_gen_plan: "Load (go_spec ex_gen) = Inr (Some ex_topology)" "gen_plan ex_gen (Some ex_topology) = Inr (ex_plan, None)"
  by (simp_all add: ex_gen_def ex_load gen_plan_def wrapE_def ex_build)

lemma ex_hosts: "lacks_hosts ex_topology i \<longleftrightarrow> False"
  by (auto simp: lacks_hosts_def ex_topology_def gm_ptr_def split: if_splits option.splits)

lemma ex_gen_files: "\<exists>files s. gen_files frac ex_gen = Inr (files, s)"
proof -
  have dot: "t_Dot ex_topology = Some ''exdot''" by (simp add: ex_topology_def)
  note good = gen_plan_renderable [OF ex_gen_plan]
  obtain files where "Dispatch frac ex_plan (Some ex_topology) (go_cfg ex_gen) = Inr files"
    using Dispatch_error [OF good, of frac "go_cfg ex_gen"] ex_hosts
    by (cases "Dispatch frac ex_plan (Some ex_topology) (go_cfg ex_gen)") auto
  with render_all_closed(1) [OF good dot, of frac ex_gen]
  have "render_all frac ex_gen (Some ex_topology) ex_plan =
      Inr (files @ shared_files ex_gen ex_topology ex_plan, projr (BuildAccounts (Some ex_topology)))" by simp
  moreover have "cf_Output (go_cfg ex_gen) = OutputKustomize" "go_previous ex_gen = None"
    by (simp_all add: ex_gen_def ex_cfg_def)
  ultimately show ?thesis
    by (cases "MaxPartitionFanIn ex_plan")
      (simp add: gen_files_def wrapE_def ex_gen_plan rebalance_files_def)
qed

subsection \<open>Properties\<close>

text \<open>
  C20. Plans are well-formed: every plan the generator builds from a loaded specification, with or
  without cabinets attached, has only streams with safe file names and durations that parse, on
  clusters that the topology defines with a token as id and a substrate some renderer serves.
\<close>

theorem plan_well_formed:
  assumes "Load (go_spec opts) = Inr (Some t)" and "gen_plan opts (Some t) = Inr (p, iv)"
  shows "list_all planned_stream (pl_Streams p) \<and> list_all (usable_cluster t) (used_clusters p)"
  using gen_plan_renderable [OF assms] by (simp add: renderable_def)

theorem plan_well_formed_witness:
  "list_all planned_stream (pl_Streams ex_plan) \<and> list_all (usable_cluster ex_topology) (used_clusters ex_plan)"
  by (rule plan_well_formed [OF ex_gen_plan])

text \<open>
  C19. Dispatch refines its specification: on a well-formed plan, grouping the streams in a map, walking
  it and writing every file into one output map amounts to rendering the slice of each used cluster
  on its own, in the order of the ids, and listing the results: no file of a cluster hides another,
  and the first failing cluster decides the error.
\<close>

theorem Dispatch_refines:
  assumes "list_all planned_stream (pl_Streams p)" and "list_all (usable_cluster t) (used_clusters p)"
  shows "Dispatch frac p (Some t) cfg =
    bindE (mapE (cluster_outputs frac p t cfg) (sort (remdups (used_clusters p)))) (\<lambda>parts. Inr (concat parts))"
  by (rule Dispatch_closed) (simp add: renderable_def assms)

theorem Dispatch_refines_witness:
  "Dispatch (\<lambda>_ _ _. 0) ex_plan (Some ex_topology) ex_cfg =
    bindE (mapE (cluster_outputs (\<lambda>_ _ _. 0) ex_plan ex_topology ex_cfg) [''core'', ''edge'']) (\<lambda>parts. Inr (concat parts))"
proof -
  have "sort (remdups (used_clusters ex_plan)) = [''core'', ''edge'']" by code_simp
  moreover have "list_all planned_stream (pl_Streams ex_plan)" "list_all (usable_cluster ex_topology) (used_clusters ex_plan)"
    using gen_plan_renderable [OF ex_gen_plan] by (simp_all add: renderable_def)
  ultimately show ?thesis using Dispatch_refines [of ex_plan ex_topology "\<lambda>_ _ _. 0" ex_cfg] by simp
qed

text \<open>
  C18. What can still go wrong after loading and planning: rendering the clusters fails exactly when a
  used bare-metal cluster has no hosts, and then it names the first such cluster. No unknown
  cluster, substrate or duration is left for the renderers to find.
\<close>

theorem Dispatch_after_planning:
  assumes "Load (go_spec opts) = Inr (Some t)" and "gen_plan opts (Some t) = Inr (p, iv)"
  shows "Dispatch frac p (Some t) cfg = Inl e \<longleftrightarrow>
    (\<exists>i\<in>set (used_clusters p). lacks_hosts t i \<and> e = NoHosts i \<and>
       (\<forall>j\<in>set (used_clusters p). lacks_hosts t j \<longrightarrow> i \<le> j))"
  by (rule Dispatch_error [OF gen_plan_renderable [OF assms]])

theorem Dispatch_after_planning_witness:
  "isl (Dispatch (\<lambda>_ _ _. 0) ex_plan (Some ex_topology) ex_cfg) = False"
proof -
  have "Dispatch (\<lambda>_ _ _. 0) ex_plan (Some ex_topology) ex_cfg \<noteq> Inl e" for e
    using Dispatch_after_planning [OF ex_gen_plan, of "\<lambda>_ _ _. 0" ex_cfg e] ex_hosts by simp
  then show ?thesis by (cases "Dispatch (\<lambda>_ _ _. 0) ex_plan (Some ex_topology) ex_cfg") auto
qed

text \<open>
  C5. The outcome of a run before it writes: either an error about its inputs (the output mode, the
  specification, the plan, the inventory, the previous specification, a bare-metal cluster without
  hosts; a specification on which loading panics is one of them), never a clash between renderers or a
  failing document; or a set of files that
  \<open>WriteTree\<close> can lay out as they are: different clean names, none of them reserved, none the
  directory of another.
\<close>

theorem gen_files_outcome:
  "case gen_files frac opts of
     Inl e \<Rightarrow>
       (case e of DispatchFailed r \<Rightarrow> \<exists>i. r = NoHosts i
        | MergeFailed r \<Rightarrow> False | DiagramFailed r \<Rightarrow> False | RunbookFailed r \<Rightarrow> False
        | BuildAccountsFailed r \<Rightarrow> False | WriteTreeFailed r \<Rightarrow> False | GenPanic \<Rightarrow> False | _ \<Rightarrow> True)
   | Inr (files, s) \<Rightarrow> good_tree files"
proof (cases "gen_files frac opts")
  case (Inl e)
  from gen_files_error [OF Inl] show ?thesis unfolding Inl sum.case .
next
  case (Inr r)
  obtain files s where r: "r = (files, s)" by (cases r)
  show ?thesis using tree_keys_good [OF gen_files_keys] Inr unfolding r by simp
qed

text \<open>
  C4. A run of the generator, whatever fails in it: if it stops before writing, no file has changed;
  otherwise each generated file is, in every state a reader can see, as it was before or complete,
  and when the run reports success every one of them is complete.
\<close>

theorem gen_run_atomic:
  assumes "gen_run frac opts w = (r, w')" and "w_seen w = []"
    and "go_prune opts \<longrightarrow> list_all plain_name (recorded (go_out opts) (w_fs w))"
  shows "case gen_files frac opts of
      Inl e \<Rightarrow> r = Inl e \<and> w_fs w' = w_fs w \<and> w_seen w' = []
    | Inr (files, summary) \<Rightarrow>
        list_all (\<lambda>(name, data).
          list_all (\<lambda>s. lookup s (Join (go_out opts) name) \<in>
              {lookup (w_fs w) (Join (go_out opts) name), Some (Reg 0x1A4 data)}) (w_seen w') \<and>
          (isl r \<or> r = Inr summary \<and> lookup (w_fs w') (Join (go_out opts) name) = Some (Reg 0x1A4 data))) files"
proof (cases "gen_files frac opts")
  case (Inl e)
  with assms(1,2) show ?thesis by (simp add: gen_run_def bindIO_def liftIO_def)
next
  case (Inr fs)
  obtain files summary where fs: "fs = (files, summary)" by (cases fs)
  note run = Inr [unfolded fs]
  obtain r1 w1 where tree: "WriteTree (go_out opts) files (go_prune opts) w = (r1, w1)"
    by (cases "WriteTree (go_out opts) files (go_prune opts) w")
  have res: "w' = w1 \<and> (case r1 of Inl e \<Rightarrow> isl r | Inr u \<Rightarrow> r = Inr summary)"
    using assms(1) by (auto simp: gen_run_def bindIO_def liftIO_def wrapIO_def returnIO_def run tree split: sum.splits)
  note keys = gen_files_keys [OF run]
  have target: "list_all (\<lambda>s. lookup s (Join (go_out opts) name) \<in>
        {lookup (w_fs w) (Join (go_out opts) name), Some (Reg 0x1A4 data)}) (w_seen w') \<and>
      (isl r \<or> r = Inr summary \<and> lookup (w_fs w') (Join (go_out opts) name) = Some (Reg 0x1A4 data))"
    if "(name, data) \<in> set files" for name data
  proof -
    have "map_of files name = Some data" using keys that by (simp add: tree_keys_def)
    note target = ensuresD [OF WriteTree_target [OF tree_keys_good [OF keys] this] assms(3) tree]
    from target(1) assms(2) have "\<forall>s\<in>set (w_seen w1). becomes (Join (go_out opts) name) (Reg 0x1A4 data) (w_fs w) s"
      unfolding evolves_def by auto
    with target(2) res show ?thesis by (auto simp: becomes_def list_all_iff split: sum.splits)
  qed
  show ?thesis unfolding run sum.case prod.case
    by (rule iffD2 [OF list_all_iff], rule ballI) (clarify, erule target)
qed

theorem gen_run_atomic_witness:
  "let w = ex_world (\<lambda>n. n = 30) in
     \<exists>data. list_all (\<lambda>s. lookup s [''out'', ''accounts.conf''] \<in> {None, Some (Reg 0x1A4 data)})
       (w_seen (snd (gen_run (\<lambda>_ _ _. 0) ex_gen w)))"
proof -
  let ?w = "ex_world (\<lambda>n. n = 30)" let ?frac = "\<lambda>_ _ _. 0 :: int"
  obtain r w' where run: "gen_run ?frac ex_gen ?w = (r, w')" by (cases "gen_run ?frac ex_gen ?w")
  obtain files s where files: "gen_files ?frac ex_gen = Inr (files, s)" using ex_gen_files by blast
  from files obtain t p fs reb where "files = fs @ shared_files ex_gen t p @ reb" by (rule gen_files_parts)
  then obtain data where "(''accounts.conf'', data) \<in> set files" by (auto simp: shared_files_def accounts_Render_def)
  moreover have "w_seen ?w = []" "go_out ex_gen = [''out'']" by (simp_all add: ex_world_def ex_gen_def)
  moreover have "list_all plain_name (recorded (go_out ex_gen) (w_fs ?w))"
    unfolding ex_gen_def gen_options.simps ex_recorded by code_simp
  ultimately have "list_all (\<lambda>s. lookup s (Join [''out''] ''accounts.conf'') \<in>
      {lookup (w_fs ?w) (Join [''out''] ''accounts.conf''), Some (Reg 0x1A4 data)}) (w_seen w')"
    using gen_run_atomic [OF run] unfolding files by (auto simp: list_all_iff)
  moreover have "Join [''out''] ''accounts.conf'' = [''out'', ''accounts.conf'']" by code_simp
  moreover have "lookup (w_fs ?w) [''out'', ''accounts.conf''] = None"
    by (simp add: lookup_def ex_world_def manifestName_def)
  ultimately show ?thesis unfolding Let_def run by auto
qed

end
