(* ===== verification/Spec2Isabelle.thy ===== *)
theory Spec2Isabelle
  imports Issue_Scope Issue_Revoked Issue_Cmd Gen_Safety
begin

section \<open>A verification library of the Vikasa infrastructure generator\<close>

text \<open>
  \<^bold>\<open>The program.\<close> One JSON specification describes the messaging fabric of a department of
  transportation (a DOT): clusters, districts with partitions, a central tier and an optional DMZ
  whose shares go to external consumers. An optional inventory lists the field cabinets. Three
  commands work on it:

  \<^item> cmd/gen loads and validates the specification, builds a plan of streams and DNS records, attaches
    the cabinets, renders manifests, charts, host configurations and documents, and writes them as a
    tree that a later run may prune. With a previous specification it also renders the steps of a
    rebalance.
  \<^item> cmd/issue derives the account model from the same specification and mints or reuses the operator,
    account, cabinet and consumer credentials on disk. It keeps three append-only audit logs and
    can rotate the cabinets whose credentials are about to expire.
  \<^item> cmd/credhealth scans the resulting bundle for expired and expiring credentials, prints a table
    and writes Prometheus metrics.

  \<^bold>\<open>Theories and sources\<close> (paths below src/). A definition has the name of the Go function or type it
  translates, with a prefix or suffix where two packages use one name. Records are Go structs,
  datatypes are Go enumerations and the errors of a package.

  \<^item> \<open>Prelude\<close>: Go's result and error pairs as sums, loops that stop at the first error
    (\<open>foldE\<close>, \<open>mapE\<close>), Go maps as association lists with the locale \<open>go_map\<close>, the contract of package
    sort as the locale \<open>slice_sort\<close>.
  \<^item> \<open>Go_Strings\<close>, \<open>Go_Format\<close>, \<open>Json\<close>: what the code uses of packages strings, fmt and encoding/json.
  \<^item> \<open>Naming\<close>: internal/naming/naming.go and internal/plan/subject.go. The locale \<open>subject_boundary\<close>
    is the contract of the boundary test that generator and issuer share.
  \<^item> \<open>Topology\<close>: internal/topology/topology.go and load.go. \<open>Plan\<close>: internal/plan/plan.go. \<open>Diff\<close>:
    internal/plan/diff.go. \<open>Fleet\<close>: internal/fleet/fleet.go. \<open>Cabinets\<close>: internal/plan/cabinets.go.
    \<open>Accounts\<close>: internal/accounts/accounts.go.
  \<^item> \<open>K8s\<close>, \<open>Helm\<close>, \<open>Bare_Metal\<close>, \<open>Dispatch\<close>, \<open>Diagram\<close>, \<open>Documents\<close>: the renderers of internal/render
    (k8s.go, helm.go, baremetal.go, substrate.go, diagram.go; dns.go, catalog.go, accounts.go,
    rebalance.go and runbook.go with their embedded templates). \<open>Slices\<close> states what a renderer
    promises to \<open>Dispatch\<close> as the locale \<open>substrate_renderer\<close>, the Go interface
    \<^theory_text>\<open>SubstrateRenderer\<close>, and interprets it on the three renderers and on the choice between them.
  \<^item> \<open>File_System\<close>: the part of packages os and path/filepath that the code uses. \<open>WriteTree\<close>:
    internal/render/writetree.go. \<open>Gen\<close>: cmd/gen/main.go, \<open>Gen_Safety\<close>: its properties.
  \<^item> \<open>CredHealth\<close>: internal/credhealth/credhealth.go and the selection of cabinets in
    cmd/issue/main.go. \<open>Cred_Metrics\<close>: internal/credhealth/metrics.go and cmd/credhealth/main.go.
  \<^item> \<open>Pki\<close>: internal/pki/pki.go, with the locale \<open>client_signer\<close> for its interface \<^theory_text>\<open>Signer\<close>.
    \<open>Revocations\<close> and \<open>Issuance\<close>: internal/issuance/issuance.go. \<open>Issue_Cmd\<close>: cmd/issue/main.go.
    \<open>Effects\<close>, \<open>Issue_Safety\<close>, \<open>Issue_Scope\<close>, \<open>Issue_Rotation\<close> and \<open>Issue_Revoked\<close> hold the facts
    about its runs.

  \<^bold>\<open>State and effects.\<close> The commands that touch the disk are functions from a world to an outcome and a
  world. The world holds the tree of files with their permission bits, the trees seen so far
  (\<open>w_seen\<close>, every state another process can observe) and two functions of the step number: whether
  an operation fails, and how many bytes a write leaves when it does. A theorem over all worlds is
  therefore a theorem about every failure at every step. The locale \<open>guarantee\<close> turns a relation
  between two trees into a proof method for whole runs: it is interpreted on relations such as
  ``this path is unchanged'' or ``this path is as before or complete''. Pointers into a slice
  (\<open>AttachCabinets\<close>) are list indices, and the mutated plan is part of the result when an error is
  returned. A nil dereference is a value of the error type.

  \<^bold>\<open>What the lemmas show.\<close>

  \<^item> Naming and validation: the boundary test is subject matching over tokens; the accepted
    specifications are characterised, and so are the ones that panic.
  \<^item> Planning: the content of a plan, its fan-out to the DMZ, when building succeeds on a loaded
    specification, that map order does not matter, bounds on every stream; attached cabinets stay
    in their district, and attaching refines a function from cabinets to sources.
  \<^item> Differences: patching the old plan with a difference gives the new one, as sets.
  \<^item> Accounts: the shape of the model, every import backed by an export, consumers that only
    subscribe and never to each other's subjects.
  \<^item> Rendering: plans that reach the renderers are well-formed; \<open>Dispatch\<close> is the concatenation of
    its clusters; the only rendering failure left after planning is a bare-metal cluster without
    hosts; the search of the diagram's id allocator terminates, and its ids are unique.
  \<^item> Writing: a file of the tree is at every moment as before or complete, nothing outside the tree
    changes, and without faults the run succeeds. \<open>Gen_Safety\<close> composes this with the generator.
  \<^item> Issuing: keys that exist are never minted again, a directory others can read stops the run, a
    rotated key is logged before it is overwritten, a logged key is read back as revoked and stands
    in the account JWT that a successful run publishes, a partial certificate authority is never replaced.
  \<^item> Monitoring: the exit code, the artifacts that are read, the sweep that selects cabinets.

  \<^bold>\<open>Parameters.\<close> Code that is not in the repository is an argument: \<open>nats_lib\<close> (nkeys, jwt, RFC 3339
  time stamps), \<open>pki_lib\<close> (crypto/ecdsa, crypto/x509, encoding/pem), \<open>artifact_lib\<close> (the decoders of
  the scan), and the results of floating-point arithmetic or calendar formatting (\<open>frac\<close>, \<open>seconds\<close>,
  \<open>date\<close>). What a theorem needs of them is an assumption of its statement; the witnesses use
  concrete functions. Decoded JSON inputs are \<open>spec_file\<close> and \<open>inventory_file\<close>.

  \<^bold>\<open>Recursion and numbers.\<close> Every definition is total. Only the JSON parser takes fuel, twice the length of
  its text, and \<open>Parse_fuel\<close> shows that more changes nothing. The other loops are structural or
  have a measure: the remaining bytes for the scanners, the ids not yet taken for \<open>fresh_id\<close>. The
  replica counts of a specification are 8-bit words and the Unix times of a JWT 64-bit ones, whose
  conversion to an instant wraps around (\<open>time_Unix\<close>); durations and instants are integers with the
  saturation of package time written out, permission bits are words.

  \<^bold>\<open>Checked against the program's own tests.\<close> The definitions of the renderers and of \<open>Gen\<close> were evaluated on
  the specifications of cmd/gen/testdata, and their output agrees with the golden files there byte
  for byte.

  \<^bold>\<open>Not modelled.\<close> Parsing of command-line flags, the wording of terminal messages and the alignment
  of package tabwriter; \<^theory_text>\<open>wipeBytes\<close> and \<^theory_text>\<open>Wipe\<close>, which overwrite memory that no later step reads;
  the bytes-to-struct step of encoding/json for the specification and the inventory; the modes of
  case folding outside ASCII, which validated ids do not reach; the fresh order in which Go walks a map
  at each loop, which is one list per map here (\<open>districtOf\<close> may find different districts for two
  shares when subject spaces overlap); the instability of \<^theory_text>\<open>sort.Slice\<close> among equal keys (sources of
  one domain need two cabinets of one id, which the inventory refuses); the retries of
  \<^theory_text>\<open>os.CreateTemp\<close>, for which a taken name stands at the end. The templates of package
  text/template are functions of their data, because executing one into a buffer cannot fail.
\<close>

end
